(* ===== verification/Request_Ids.thy ===== *)
theory Request_Ids
  imports Go_Strings
begin

text \<open>
  The clock and the process-wide counter, and \<open>NewRequestID\<close> of
  \<open>internal/pkg/stream/dialer.go\<close>.  The clock is a parameter: the value of the \<open>k\<close>-th
  reading, in nanoseconds.  The counter is an \<open>atomic.Uint64\<close>.  The lemmas show that the
  identifiers one process hands out are pairwise different for the first \<open>2^64\<close> calls,
  whatever the clock does and whatever prefixes are used.
\<close>

record world =
  w_clock :: "nat \<Rightarrow> int"
  w_tick :: nat
  w_counter :: "64 word"

definition time_now :: "world \<Rightarrow> int \<times> world" where
  "time_now w = (w_clock w (w_tick w), w\<lparr>w_tick := Suc (w_tick w)\<rparr>)"

definition new_request_id :: "string \<Rightarrow> world \<Rightarrow> string \<times> world" where
  "new_request_id pre w =
     (let (t, w1) = time_now w; c = w_counter w1 + 1
      in (pre @ ''-'' @ dec_of_int t @ ''-'' @ dec_of_nat (unat c), w1\<lparr>w_counter := c\<rparr>))"

fun request_ids :: "string list \<Rightarrow> world \<Rightarrow> string list \<times> world" where
  "request_ids [] w = ([], w)"
| "request_ids (p # ps) w =
     (let (i, w1) = new_request_id p w; (is, w2) = request_ids ps w1 in (i # is, w2))"

definition id_counter :: "string \<Rightarrow> string" where
  "id_counter i = last (split_char CHR ''-'' i)"

lemma split_char_last: "CHR ''-'' \<notin> set q \<Longrightarrow> last (split_char CHR ''-'' (p @ ''-'' @ q)) = q"
proof (induction p)
  case Nil
  then show ?case by (simp add: split_char_no_sep)
next
  case (Cons c p)
  moreover obtain x xs where "split_char CHR ''-'' (p @ ''-'' @ q) = x # xs" and "xs \<noteq> []"
  proof -
    have "length (split_char CHR ''-'' (p @ ''-'' @ q)) > 1"
      by (induction p) (auto split: list.splits simp: neq_Nil_conv)
    then show ?thesis using that
      by (cases "split_char CHR ''-'' (p @ ''-'' @ q)") auto
  qed
  ultimately show ?case by auto
qed

lemma id_counter_new [simp]:
  "id_counter (fst (new_request_id p w)) = dec_of_nat (unat (w_counter w + 1))"
  using split_char_last [OF dec_of_nat_no_dash, of "p @ ''-'' @ dec_of_int (w_clock w (w_tick w))"]
  by (simp add: id_counter_def new_request_id_def time_now_def Let_def)

lemma w_counter_new [simp]: "w_counter (snd (new_request_id p w)) = w_counter w + 1"
  by (simp add: new_request_id_def time_now_def Let_def)

lemma w_counter_time_now [simp]: "w_counter (snd (time_now w)) = w_counter w"
  by (simp add: time_now_def)

lemma new_request_id_nonempty [simp]: "fst (new_request_id p w) \<noteq> []"
  by (simp add: new_request_id_def time_now_def Let_def)

lemma request_ids_Cons:
  "fst (request_ids (p # ps) w) =
     fst (new_request_id p w) # fst (request_ids ps (snd (new_request_id p w)))"
  by (simp split: prod.splits)

lemma length_request_ids [simp]: "length (fst (request_ids ps w)) = length ps"
  by (induction ps arbitrary: w) (simp_all add: request_ids_Cons del: request_ids.simps(2))

lemma request_ids_counter:
  "k < length ps \<Longrightarrow>
   id_counter (fst (request_ids ps w) ! k) = dec_of_nat (unat (w_counter w + of_nat (Suc k)))"
proof (induction ps arbitrary: w k)
  case Nil
  then show ?case by simp
next
  case (Cons p ps)
  then show ?case
    by (cases k) (simp_all add: request_ids_Cons add.assoc del: request_ids.simps(2))
qed

lemma request_ids_distinct:
  assumes "length ps \<le> 2 ^ 64"
  shows "distinct (fst (request_ids ps w))"
proof -
  have "fst (request_ids ps w) ! j \<noteq> fst (request_ids ps w) ! k"
    if "j < k" and "k < length ps" for j k
  proof
    assume "fst (request_ids ps w) ! j = fst (request_ids ps w) ! k"
    then have "unat (w_counter w + of_nat (Suc j)) = unat (w_counter w + of_nat (Suc k))"
      using request_ids_counter [of j ps w] request_ids_counter [of k ps w] that
      by (simp add: dec_of_nat_inj)
    then have "w_counter w + of_nat (Suc j) = w_counter w + of_nat (Suc k)"
      by (simp only: word_unat_eq_iff)
    then have "(of_nat (Suc j) :: 64 word) = of_nat (Suc k)" by (simp only: add_left_cancel)
    then have "Suc j mod 2 ^ 64 = Suc k mod 2 ^ 64"
      by (simp only: word_of_nat_eq_iff take_bit_eq_mod) simp
    moreover have "Suc j < 2 ^ 64" and "Suc k \<le> 2 ^ 64" using that assms by simp_all
    ultimately show False using that by (cases "Suc k = 2 ^ 64") auto
  qed
  then show ?thesis
    by (auto simp: distinct_conv_nth) (metis linorder_neqE_nat)
qed

text \<open>The request identifiers a process hands out are pairwise different, for up to
  \<open>2^64\<close> of them, whatever pres are asked for and whatever the clock shows.\<close>

theorem request_ids_unique:
  assumes "length pres \<le> 2 ^ 64"
  shows "distinct (fst (request_ids pres w))"
  using assms by (rule request_ids_distinct)

theorem request_ids_unique_witness:
  "distinct (fst (request_ids [''inv'', ''inv'', ''evt'']
     \<lparr>w_clock = (\<lambda>_. 7), w_tick = 0, w_counter = - 1\<rparr>))"
  by (rule request_ids_unique) simp

end
