(* ===== verification/Token_Auth.thy ===== *)
theory Token_Auth
  imports Go_Strings
begin

text \<open>
  \<open>internal/pkg/tokenauth/tokenauth.go\<close>: the catalog of bearer tokens in four domains, the
  check of the \<open>Authorization\<close> header of an HTTP request, and the check of the token of a
  tunnel registration.  SHA-256 is the parameter \<open>sha\<close>; the fingerprint under which a
  token is filed is the hexadecimal text of the first eight bytes of its digest, so two
  tokens are told apart exactly as far as their fingerprints differ.
\<close>

datatype domain = DomainClient | DomainAdmin | DomainAgent | DomainProxy

definition domain_str :: "domain \<Rightarrow> string" where
  "domain_str d = (case d of DomainClient \<Rightarrow> ''client'' | DomainAdmin \<Rightarrow> ''admin''
     | DomainAgent \<Rightarrow> ''agent'' | DomainProxy \<Rightarrow> ''proxy'')"

record identity =
  id_domain :: domain
  id_subject :: string
  id_fingerprint :: string

record catalog =
  cat_http :: "(string, identity) gomap"
  cat_registration :: "(domain, (string, identity) gomap) gomap"

type_synonym sha256 = "string \<Rightarrow> 8 word list"

definition token_fingerprint :: "sha256 \<Rightarrow> string \<Rightarrow> string" where
  "token_fingerprint sha token = hex_of_bytes (take 8 (sha token))"

text \<open>The loop of \<open>addDomainTokens\<close>; \<open>idx\<close> is the loop index.  An error leaves the loop.\<close>

fun add_domain_tokens ::
  "sha256 \<Rightarrow> domain \<Rightarrow> nat \<Rightarrow> string list \<Rightarrow> (string, domain) gomap \<Rightarrow> (string, identity) gomap
   \<Rightarrow> ((string, domain) gomap \<times> (string, identity) gomap) go_result" where
  "add_domain_tokens sha d idx [] seen dst = Inr (seen, dst)"
| "add_domain_tokens sha d idx (raw # rest) seen dst =
     (let token = trim_space raw in
      if token = [] then
        Inl (domain_str d @ '' token at index '' @ dec_of_nat idx @ '' must not be empty'')
      else
        let fp = token_fingerprint sha token in
        case map_of seen fp of
          Some prev \<Rightarrow>
            Inl (''token '' @ go_quote token @ '' is duplicated across '' @ domain_str prev @
                 '' and '' @ domain_str d @ '' domains'')
        | None \<Rightarrow>
            add_domain_tokens sha d (Suc idx) rest (gupd fp d seen)
              (gupd fp \<lparr>id_domain = d, id_subject = domain_str d @ ''_'' @ pad2 (idx + 1),
                       id_fingerprint = token_fingerprint sha token\<rparr> dst))"

definition new_catalog ::
  "sha256 \<Rightarrow> string list \<Rightarrow> string list \<Rightarrow> string list \<Rightarrow> string list \<Rightarrow> catalog go_result" where
  "new_catalog sha clientTokens adminTokens agentTokens proxyTokens =
     (case add_domain_tokens sha DomainClient 0 clientTokens [] [] of
        Inl e \<Rightarrow> Inl e
      | Inr (seen1, http1) \<Rightarrow>
     (case add_domain_tokens sha DomainAdmin 0 adminTokens seen1 http1 of
        Inl e \<Rightarrow> Inl e
      | Inr (seen2, http2) \<Rightarrow>
     (case add_domain_tokens sha DomainAgent 0 agentTokens seen2 [] of
        Inl e \<Rightarrow> Inl e
      | Inr (seen3, agents) \<Rightarrow>
     (case add_domain_tokens sha DomainProxy 0 proxyTokens seen3 [] of
        Inl e \<Rightarrow> Inl e
      | Inr (seen4, proxies) \<Rightarrow>
          Inr \<lparr>cat_http = http2,
               cat_registration = [(DomainAgent, agents), (DomainProxy, proxies)]\<rparr>))))"

definition bearer_token :: "string \<Rightarrow> string go_result" where
  "bearer_token raw =
     (let header = trim_space raw in
      if header = [] then Inl ''missing bearer token''
      else if \<not> has_prefix header ''Bearer '' then Inl ''invalid bearer token''
      else let token = trim_space (trim_prefix header ''Bearer '') in
           if token = [] then Inl ''invalid bearer token'' else Inr token)"

definition authenticate_http :: "sha256 \<Rightarrow> catalog \<Rightarrow> string \<Rightarrow> domain list \<Rightarrow> identity go_result" where
  "authenticate_http sha c header allowed =
     (case bearer_token header of
        Inl e \<Rightarrow> Inl e
      | Inr token \<Rightarrow>
          (case map_of (cat_http c) (token_fingerprint sha token) of
             None \<Rightarrow> Inl ''unauthorized''
           | Some ident \<Rightarrow>
               if allowed = [] then Inr ident
               else if id_domain ident \<in> set allowed then Inr ident
               else Inl ''forbidden''))"

definition authenticate_registration :: "sha256 \<Rightarrow> catalog \<Rightarrow> domain \<Rightarrow> string \<Rightarrow> identity go_result" where
  "authenticate_registration sha c d raw =
     (let token = trim_space (trim_prefix raw ''Bearer '') in
      if token = [] then Inl ''unauthorized''
      else case map_of (cat_registration c) d of
             None \<Rightarrow> Inl (''unsupported registration domain '' @ go_quote (domain_str d))
           | Some domainTokens \<Rightarrow>
               (case map_of domainTokens (token_fingerprint sha token) of
                  None \<Rightarrow> Inl ''unauthorized''
                | Some ident \<Rightarrow> Inr ident))"

text \<open>
  \<open>RequireHTTP\<close>: the wrapped handler runs with the identity in its context, or the
  request is answered with 403 or 401.
\<close>

definition require_http ::
  "sha256 \<Rightarrow> catalog \<Rightarrow> (identity \<Rightarrow> 'r) \<Rightarrow> (int \<Rightarrow> string \<Rightarrow> 'r) \<Rightarrow> domain list \<Rightarrow> string \<Rightarrow> 'r" where
  "require_http sha c next http_error allowed header =
     (case authenticate_http sha c header allowed of
        Inl e \<Rightarrow> if e = ''forbidden'' then http_error 403 ''Forbidden'' else http_error 401 ''Unauthorized''
      | Inr ident \<Rightarrow> next ident)"

section \<open>What a token list contributes\<close>

text \<open>
  The entries that a list of tokens adds, computed without the loop: the specification
  \<open>add_domain_tokens\<close> is measured against.
\<close>

definition token_key :: "sha256 \<Rightarrow> string \<Rightarrow> string" where
  "token_key sha raw = token_fingerprint sha (trim_space raw)"

definition token_ident :: "sha256 \<Rightarrow> domain \<Rightarrow> nat \<Rightarrow> string \<Rightarrow> identity" where
  "token_ident sha d idx raw =
     \<lparr>id_domain = d, id_subject = domain_str d @ ''_'' @ pad2 (idx + 1),
      id_fingerprint = token_key sha raw\<rparr>"

definition token_entries :: "sha256 \<Rightarrow> domain \<Rightarrow> nat \<Rightarrow> string list \<Rightarrow> (string \<times> identity) list" where
  "token_entries sha d idx ts =
     map (\<lambda>(i, t). (token_key sha t, token_ident sha d i t)) (zip [idx..<idx + length ts] ts)"

definition tokens_ok :: "sha256 \<Rightarrow> string set \<Rightarrow> string list \<Rightarrow> bool" where
  "tokens_ok sha used ts \<longleftrightarrow>
     (\<forall>t \<in> set ts. trim_space t \<noteq> []) \<and> distinct (map (token_key sha) ts) \<and>
     (\<forall>t \<in> set ts. token_key sha t \<notin> used)"

lemma token_entries_Nil [simp]: "token_entries sha d idx [] = []"
  by (simp add: token_entries_def)

lemma token_entries_Cons [simp]:
  "token_entries sha d idx (t # ts) =
     (token_key sha t, token_ident sha d idx t) # token_entries sha d (Suc idx) ts"
  by (simp add: token_entries_def upt_conv_Cons del: upt_Suc)

lemma keys_token_entries: "map fst (token_entries sha d idx ts) = map (token_key sha) ts"
  by (induction ts arbitrary: idx) simp_all

lemma token_entries_domain: "(k, v) \<in> set (token_entries sha d idx ts) \<Longrightarrow> id_domain v = d"
  by (induction ts arbitrary: idx) (auto simp: token_ident_def)

lemma map_of_token_entries_domain:
  "map_of (token_entries sha d idx ts) k = Some v \<Longrightarrow> id_domain v = d"
  by (auto dest: map_of_SomeD token_entries_domain)

lemma dom_token_entries: "dom (map_of (token_entries sha d idx ts)) = token_key sha ` set ts"
  by (simp add: dom_map_of_conv_image_fst flip: set_map) (simp add: keys_token_entries)

lemma tokens_ok_Cons:
  "tokens_ok sha used (t # ts) \<longleftrightarrow>
     trim_space t \<noteq> [] \<and> token_key sha t \<notin> used \<and> tokens_ok sha (insert (token_key sha t) used) ts"
  by (auto simp: tokens_ok_def) (metis imageI)+

lemma add_domain_tokens_ok:
  assumes "tokens_ok sha (dom (map_of seen)) ts"
  shows "\<exists>seen' dst'. add_domain_tokens sha d idx ts seen dst = Inr (seen', dst') \<and>
           dom (map_of seen') = dom (map_of seen) \<union> token_key sha ` set ts \<and>
           map_of dst' = map_of dst ++ map_of (token_entries sha d idx ts)"
  using assms
proof (induction ts arbitrary: idx seen dst)
  case Nil
  then show ?case by simp
next
  case (Cons t ts)
  let ?k = "token_key sha t"
  let ?seen = "gupd ?k d seen"
  let ?dst = "gupd ?k (token_ident sha d idx t) dst"
  from Cons.prems have t: "trim_space t \<noteq> []" "map_of seen ?k = None"
    and ok: "tokens_ok sha (dom (map_of ?seen)) ts"
    by (auto simp: tokens_ok_Cons domIff)
  from Cons.IH [OF ok, of "Suc idx" ?dst] obtain seen' dst' where
    r: "add_domain_tokens sha d (Suc idx) ts ?seen ?dst = Inr (seen', dst')"
    and s: "dom (map_of seen') = dom (map_of ?seen) \<union> token_key sha ` set ts"
    and m: "map_of dst' = map_of ?dst ++ map_of (token_entries sha d (Suc idx) ts)"
    by blast
  have step: "add_domain_tokens sha d idx (t # ts) seen dst = Inr (seen', dst')"
    using t r by (simp add: Let_def token_key_def token_ident_def)
  have notin: "?k \<notin> dom (map_of (token_entries sha d (Suc idx) ts))"
    using ok by (auto simp: dom_token_entries tokens_ok_def)
  have "map_of dst' = map_of dst ++ map_of (token_entries sha d idx (t # ts))"
  proof
    fix k
    show "map_of dst' k = (map_of dst ++ map_of (token_entries sha d idx (t # ts))) k"
      using m notin by (cases "k = ?k") (auto simp: map_add_def domIff split: option.splits)
  qed
  moreover have "dom (map_of seen') = dom (map_of seen) \<union> token_key sha ` set (t # ts)"
    using s by simp
  ultimately show ?case using step by blast
qed

lemma add_domain_tokens_err:
  assumes "\<not> tokens_ok sha (dom (map_of seen)) ts"
  shows "\<exists>e. add_domain_tokens sha d idx ts seen dst = Inl e"
  using assms
proof (induction ts arbitrary: idx seen dst)
  case Nil
  then show ?case by (simp add: tokens_ok_def)
next
  case (Cons t ts)
  show ?case
  proof (cases "trim_space t = [] \<or> map_of seen (token_key sha t) \<noteq> None")
    case True
    then show ?thesis by (auto simp: Let_def token_key_def)
  next
    case False
    with Cons.prems have "\<not> tokens_ok sha (dom (map_of (gupd (token_key sha t) d seen))) ts"
      by (auto simp: tokens_ok_Cons domIff)
    from Cons.IH [OF this] False show ?thesis by (auto simp: Let_def token_key_def)
  qed
qed

section \<open>The catalog\<close>

definition all_tokens_ok :: "sha256 \<Rightarrow> string list \<Rightarrow> bool" where
  "all_tokens_ok sha ts \<longleftrightarrow>
     (\<forall>t \<in> set ts. trim_space t \<noteq> []) \<and> distinct (map (token_key sha) ts)"

definition cat_domain :: "catalog \<Rightarrow> domain \<Rightarrow> (string, identity) gomap" where
  "cat_domain c d = (case map_of (cat_registration c) d of None \<Rightarrow> [] | Some m \<Rightarrow> m)"

definition catalog_of ::
  "sha256 \<Rightarrow> string list \<Rightarrow> string list \<Rightarrow> string list \<Rightarrow> string list \<Rightarrow> catalog \<Rightarrow> bool" where
  "catalog_of sha cl ad ag pr c \<longleftrightarrow>
     map_of (cat_http c) = map_of (token_entries sha DomainClient 0 cl) ++
                           map_of (token_entries sha DomainAdmin 0 ad) \<and>
     (\<exists>agents proxies.
        cat_registration c = [(DomainAgent, agents), (DomainProxy, proxies)] \<and>
        map_of agents = map_of (token_entries sha DomainAgent 0 ag) \<and>
        map_of proxies = map_of (token_entries sha DomainProxy 0 pr))"

lemma tokens_ok_append:
  "all_tokens_ok sha (xs @ ys) \<longleftrightarrow> all_tokens_ok sha xs \<and> tokens_ok sha (token_key sha ` set xs) ys"
  by (auto simp: all_tokens_ok_def tokens_ok_def) (metis imageI)

lemma tokens_ok_empty: "tokens_ok sha {} ts \<longleftrightarrow> all_tokens_ok sha ts"
  by (simp add: all_tokens_ok_def tokens_ok_def)

lemma new_catalog_ok:
  assumes "all_tokens_ok sha (cl @ ad @ ag @ pr)"
  shows "\<exists>c. new_catalog sha cl ad ag pr = Inr c \<and> catalog_of sha cl ad ag pr c"
proof -
  have ok: "all_tokens_ok sha cl" "tokens_ok sha (token_key sha ` set cl) ad"
    "tokens_ok sha (token_key sha ` set (cl @ ad)) ag"
    "tokens_ok sha (token_key sha ` set (cl @ ad @ ag)) pr"
    using assms tokens_ok_append [of sha cl "ad @ ag @ pr"]
      tokens_ok_append [of sha "cl @ ad" "ag @ pr"] tokens_ok_append [of sha "cl @ ad @ ag" pr]
      tokens_ok_append [of sha "cl @ ad" ag] tokens_ok_append [of sha cl ad]
    by (simp_all)
  obtain s1 h1 where 1: "add_domain_tokens sha DomainClient 0 cl [] [] = Inr (s1, h1)"
    "dom (map_of s1) = token_key sha ` set cl"
    "map_of h1 = map_of (token_entries sha DomainClient 0 cl)"
    using add_domain_tokens_ok [of sha "[]" cl DomainClient 0 "[]"] ok(1)
    by (auto simp: tokens_ok_empty)
  obtain s2 h2 where 2: "add_domain_tokens sha DomainAdmin 0 ad s1 h1 = Inr (s2, h2)"
    "dom (map_of s2) = token_key sha ` set (cl @ ad)"
    "map_of h2 = map_of h1 ++ map_of (token_entries sha DomainAdmin 0 ad)"
    using add_domain_tokens_ok [of sha s1 ad DomainAdmin 0 h1] ok(2) 1(2)
    by (auto simp: image_Un)
  obtain s3 h3 where 3: "add_domain_tokens sha DomainAgent 0 ag s2 [] = Inr (s3, h3)"
    "dom (map_of s3) = token_key sha ` set (cl @ ad @ ag)"
    "map_of h3 = map_of (token_entries sha DomainAgent 0 ag)"
    using add_domain_tokens_ok [of sha s2 ag DomainAgent 0 "[]"] ok(3) 2(2)
    by (auto simp: image_Un Un_assoc)
  obtain s4 h4 where 4: "add_domain_tokens sha DomainProxy 0 pr s3 [] = Inr (s4, h4)"
    "map_of h4 = map_of (token_entries sha DomainProxy 0 pr)"
    using add_domain_tokens_ok [of sha s3 pr DomainProxy 0 "[]"] ok(4) 3(2)
    by auto
  show ?thesis
    using 1 2 3 4 by (simp add: new_catalog_def catalog_of_def)
qed

lemma add_domain_tokens_Inr:
  assumes "add_domain_tokens sha d idx ts seen dst = Inr (seen', dst')"
  shows "tokens_ok sha (dom (map_of seen)) ts"
    and "dom (map_of seen') = dom (map_of seen) \<union> token_key sha ` set ts"
  using assms add_domain_tokens_err [of sha seen ts d idx dst] add_domain_tokens_ok [of sha seen ts d idx dst]
  by fastforce+

lemma new_catalog_Inr_ok:
  assumes "new_catalog sha cl ad ag pr = Inr c"
  shows "all_tokens_ok sha (cl @ ad @ ag @ pr)"
proof -
  from assms obtain s1 h1 s2 h2 s3 h3 s4 h4 where
    1: "add_domain_tokens sha DomainClient 0 cl [] [] = Inr (s1, h1)" and
    2: "add_domain_tokens sha DomainAdmin 0 ad s1 h1 = Inr (s2, h2)" and
    3: "add_domain_tokens sha DomainAgent 0 ag s2 [] = Inr (s3, h3)" and
    4: "add_domain_tokens sha DomainProxy 0 pr s3 [] = Inr (s4, h4)"
    by (auto simp: new_catalog_def split: sum.splits prod.splits)
  note r = 1 [THEN add_domain_tokens_Inr(1)] 1 [THEN add_domain_tokens_Inr(2)]
    2 [THEN add_domain_tokens_Inr(1)] 2 [THEN add_domain_tokens_Inr(2)]
    3 [THEN add_domain_tokens_Inr(1)] 3 [THEN add_domain_tokens_Inr(2)]
    4 [THEN add_domain_tokens_Inr(1)]
  have "all_tokens_ok sha cl" using r(1) by (simp add: tokens_ok_empty)
  then have "all_tokens_ok sha (cl @ ad)" using r(2,3) by (simp add: tokens_ok_append)
  then have "all_tokens_ok sha ((cl @ ad) @ ag)" using r(2,4,5)
    by (simp only: tokens_ok_append) (simp add: image_Un)
  then have "all_tokens_ok sha ((cl @ ad @ ag) @ pr)" using r(2,4,6,7)
    by (simp only: tokens_ok_append [of sha "cl @ ad @ ag"]) (simp add: image_Un Un_assoc)
  then show ?thesis by simp
qed

lemma new_catalog_iff:
  "is_ok (new_catalog sha cl ad ag pr) \<longleftrightarrow> all_tokens_ok sha (cl @ ad @ ag @ pr)"
  using new_catalog_ok new_catalog_Inr_ok by (metis is_ok_iff)

lemma new_catalog_catalog_of:
  "new_catalog sha cl ad ag pr = Inr c \<Longrightarrow> catalog_of sha cl ad ag pr c"
  using new_catalog_ok new_catalog_Inr_ok by (metis sum.inject(2))


section \<open>Who is let in\<close>

lemma token_entries_mem:
  "(k, v) \<in> set (token_entries sha d idx ts) \<longleftrightarrow>
     (\<exists>i < length ts. k = token_key sha (ts ! i) \<and> v = token_ident sha d (idx + i) (ts ! i))"
proof (induction ts arbitrary: idx)
  case Nil
  then show ?case by simp
next
  case (Cons t ts)
  show ?case by (simp add: Cons Ex_less_Suc2)
qed

lemma map_of_token_entries_nth:
  assumes "all_tokens_ok sha ts" and "i < length ts"
  shows "map_of (token_entries sha d 0 ts) (token_key sha (ts ! i)) = Some (token_ident sha d i (ts ! i))"
proof (rule map_of_is_SomeI)
  show "distinct (map fst (token_entries sha d 0 ts))"
    using assms(1) by (simp add: keys_token_entries all_tokens_ok_def)
  show "(token_key sha (ts ! i), token_ident sha d i (ts ! i)) \<in> set (token_entries sha d 0 ts)"
    using assms(2) by (auto simp: token_entries_mem)
qed

lemma catalog_http_lookup:
  assumes "catalog_of sha cl ad ag pr c"
  shows "map_of (cat_http c) k =
    (case map_of (token_entries sha DomainAdmin 0 ad) k of
       Some v \<Rightarrow> Some v | None \<Rightarrow> map_of (token_entries sha DomainClient 0 cl) k)"
  using assms by (simp add: catalog_of_def map_add_def)

lemma catalog_registration_lookup:
  assumes "catalog_of sha cl ad ag pr c"
  shows "map_of (cat_registration c) DomainClient = None"
    and "map_of (cat_registration c) DomainAdmin = None"
    and "\<exists>m. map_of (cat_registration c) DomainAgent = Some m \<and>
           map_of m = map_of (token_entries sha DomainAgent 0 ag)"
    and "\<exists>m. map_of (cat_registration c) DomainProxy = Some m \<and>
           map_of m = map_of (token_entries sha DomainProxy 0 pr)"
  using assms by (auto simp: catalog_of_def)

definition reg_tokens :: "domain \<Rightarrow> string list \<Rightarrow> string list \<Rightarrow> string list" where
  "reg_tokens d ag pr = (case d of DomainAgent \<Rightarrow> ag | DomainProxy \<Rightarrow> pr | _ \<Rightarrow> [])"

lemma authenticate_registration_Inr:
  assumes "catalog_of sha cl ad ag pr c" and "authenticate_registration sha c d raw = Inr i"
  shows "id_domain i = d \<and>
    (\<exists>t \<in> set (reg_tokens d ag pr).
       token_key sha t = token_fingerprint sha (trim_space (trim_prefix raw ''Bearer '')))"
proof -
  let ?k = "token_fingerprint sha (trim_space (trim_prefix raw ''Bearer ''))"
  from assms(2) obtain m where m: "map_of (cat_registration c) d = Some m" "map_of m ?k = Some i"
    by (auto simp: authenticate_registration_def Let_def split: if_splits option.splits)
  have "map_of (token_entries sha d 0 (reg_tokens d ag pr)) ?k = Some i"
    using m catalog_registration_lookup [OF assms(1)]
    by (cases d) (auto simp: reg_tokens_def)
  then have "(?k, i) \<in> set (token_entries sha d 0 (reg_tokens d ag pr))" by (rule map_of_SomeD)
  then show ?thesis by (auto simp: token_entries_mem token_ident_def)
qed

text \<open>
  What a server that lets nodes register relies on: a check of a token against a domain,
  valid on catalogs that were built by the program, which never mixes domains up and
  never accepts an HTTP domain.
\<close>

locale registration_gate =
  fixes auth :: "'c \<Rightarrow> domain \<Rightarrow> string \<Rightarrow> identity go_result"
    and valid :: "'c \<Rightarrow> bool"
  assumes auth_domain: "valid c \<Longrightarrow> auth c d tok = Inr i \<Longrightarrow> id_domain i = d"
    and auth_nodes_only: "valid c \<Longrightarrow> auth c d tok = Inr i \<Longrightarrow> d = DomainAgent \<or> d = DomainProxy"
    and auth_exclusive: "valid c \<Longrightarrow> auth c d tok = Inr i \<Longrightarrow> auth c d' tok = Inr j \<Longrightarrow> d' = d"
begin

lemma identity_unique:
  "valid c \<Longrightarrow> auth c d tok = Inr i \<Longrightarrow> auth c d' tok = Inr j \<Longrightarrow> i = j"
  using auth_exclusive by fastforce

lemma http_domains_rejected:
  assumes "valid c" and "d = DomainClient \<or> d = DomainAdmin"
  shows "\<not> is_ok (auth c d tok)"
  using assms auth_nodes_only by (auto simp: is_ok_iff)

end

definition built_catalog :: "sha256 \<Rightarrow> catalog \<Rightarrow> bool" where
  "built_catalog sha c \<longleftrightarrow> (\<exists>cl ad ag pr. new_catalog sha cl ad ag pr = Inr c)"

lemma registration_exclusive:
  assumes "new_catalog sha cl ad ag pr = Inr c"
    and "authenticate_registration sha c d tok = Inr i"
    and "authenticate_registration sha c d' tok = Inr j"
  shows "d' = d"
proof -
  have ok: "all_tokens_ok sha (cl @ ad @ ag @ pr)"
    using assms(1) by (rule new_catalog_Inr_ok)
  have c: "catalog_of sha cl ad ag pr c" using assms(1) by (rule new_catalog_catalog_of)
  obtain t t' where "t \<in> set (reg_tokens d ag pr)" "t' \<in> set (reg_tokens d' ag pr)"
    and "token_key sha t = token_key sha t'"
    using authenticate_registration_Inr [OF c assms(2)] authenticate_registration_Inr [OF c assms(3)]
    by metis
  moreover have "token_key sha x \<noteq> token_key sha y" if "x \<in> set ag" "y \<in> set pr" for x y
  proof -
    from ok have "token_key sha ` set ag \<inter> token_key sha ` set pr = {}"
      by (simp add: all_tokens_ok_def)
    with that show ?thesis by blast
  qed
  ultimately show ?thesis
    by (cases d; cases d') (auto simp: reg_tokens_def dest: sym)
qed

interpretation node_tokens: registration_gate "authenticate_registration sha" "built_catalog sha" for sha
proof unfold_locales
  fix c d tok i
  assume "built_catalog sha c" and a: "authenticate_registration sha c d tok = Inr i"
  then obtain cl ad ag pr where c: "catalog_of sha cl ad ag pr c"
    by (auto simp: built_catalog_def dest: new_catalog_catalog_of)
  from authenticate_registration_Inr [OF c a]
  show "id_domain i = d" and "d = DomainAgent \<or> d = DomainProxy"
    by (auto simp: reg_tokens_def split: domain.splits)
next
  fix c d tok i d' j
  assume "built_catalog sha c" "authenticate_registration sha c d tok = Inr i"
    "authenticate_registration sha c d' tok = Inr j"
  then show "d' = d" by (auto simp: built_catalog_def dest: registration_exclusive)
qed

lemma authenticate_http_Inr:
  assumes "catalog_of sha cl ad ag pr c" and "authenticate_http sha c header allowed = Inr i"
  shows "\<exists>tok. bearer_token header = Inr tok \<and> (allowed = [] \<or> id_domain i \<in> set allowed) \<and>
    ((\<exists>t \<in> set cl. token_key sha t = token_fingerprint sha tok \<and> id_domain i = DomainClient) \<or>
     (\<exists>t \<in> set ad. token_key sha t = token_fingerprint sha tok \<and> id_domain i = DomainAdmin))"
proof -
  from assms(2) obtain tok where tok: "bearer_token header = Inr tok"
    and l: "map_of (cat_http c) (token_fingerprint sha tok) = Some i"
    and al: "allowed = [] \<or> id_domain i \<in> set allowed"
    by (auto simp: authenticate_http_def split: sum.splits option.splits if_splits)
  from l have "(token_fingerprint sha tok, i) \<in> set (token_entries sha DomainAdmin 0 ad) \<or>
      (token_fingerprint sha tok, i) \<in> set (token_entries sha DomainClient 0 cl)"
    by (auto simp: catalog_http_lookup [OF assms(1)] split: option.splits dest: map_of_SomeD)
  with tok al show ?thesis
    by (auto simp: token_entries_mem token_ident_def) 
qed

text \<open>A token catalog is built exactly when no configured token is blank and no two
  tokens of any domains have the same fingerprint.\<close>

theorem catalog_built_iff:
  "is_ok (new_catalog sha cl ad ag pr) \<longleftrightarrow>
     (\<forall>t \<in> set (cl @ ad @ ag @ pr). trim_space t \<noteq> []) \<and>
     distinct (map (token_key sha) (cl @ ad @ ag @ pr))"
  by (simp only: new_catalog_iff all_tokens_ok_def)

definition toy_sha :: sha256 where
  "toy_sha s = map (\<lambda>c. word_of_nat (of_char c)) s"

theorem catalog_built_iff_witness:
  "is_ok (new_catalog toy_sha [''c1''] [''a1''] [''g1''] [''p1'']) \<and>
   \<not> is_ok (new_catalog toy_sha [''c1''] [''a1''] [''c1''] [''p1''])"
  unfolding catalog_built_iff by code_simp

text \<open>Domains are kept apart on the HTTP side: a request whose bearer token has the
  fingerprint of a configured agent or proxy token is rejected as unauthorized, whatever
  domains the endpoint allows.\<close>

theorem http_rejects_node_tokens:
  assumes "new_catalog sha cl ad ag pr = Inr c"
    and "bearer_token header = Inr tok"
    and "t \<in> set (ag @ pr)" and "token_key sha t = token_fingerprint sha tok"
  shows "authenticate_http sha c header allowed = Inl ''unauthorized''"
proof -
  have ok: "all_tokens_ok sha (cl @ ad @ ag @ pr)" using assms(1) by (rule new_catalog_Inr_ok)
  have c: "catalog_of sha cl ad ag pr c" using assms(1) by (rule new_catalog_catalog_of)
  from ok assms(3) have "token_key sha t \<notin> token_key sha ` set cl" and "token_key sha t \<notin> token_key sha ` set ad"
    by (auto simp: all_tokens_ok_def)
  then have "map_of (token_entries sha DomainAdmin 0 ad) (token_key sha t) = None"
    and "map_of (token_entries sha DomainClient 0 cl) (token_key sha t) = None"
    by (auto simp: map_of_eq_None_iff keys_token_entries simp flip: set_map)
  with c have "map_of (cat_http c) (token_key sha t) = None"
    by (simp add: catalog_http_lookup)
  with assms(2,4) show ?thesis by (simp add: authenticate_http_def)
qed

definition four_tokens :: catalog where
  "four_tokens = (case new_catalog toy_sha [''c1''] [''a1''] [''g1''] [''p1''] of
     Inr c \<Rightarrow> c | Inl _ \<Rightarrow> \<lparr>cat_http = [], cat_registration = []\<rparr>)"

lemma four_tokens_built: "new_catalog toy_sha [''c1''] [''a1''] [''g1''] [''p1''] = Inr four_tokens"
proof -
  have "is_ok (new_catalog toy_sha [''c1''] [''a1''] [''g1''] [''p1''])" by code_simp
  then show ?thesis by (auto simp: is_ok_iff four_tokens_def)
qed

lemma http_rejects_node_tokens_witness:
  "authenticate_http toy_sha four_tokens ''Bearer g1'' [DomainClient] = Inl ''unauthorized''"
proof (rule http_rejects_node_tokens [OF four_tokens_built])
  show "bearer_token ''Bearer g1'' = Inr ''g1''" by code_simp
  show "token_key toy_sha ''g1'' = token_fingerprint toy_sha ''g1''" by code_simp
qed simp

text \<open>A request that is let in carries a configured client or admin token, has the
  domain of that token, and the endpoint allows that domain.\<close>

theorem http_accepts_only_configured:
  assumes "new_catalog sha cl ad ag pr = Inr c"
    and "authenticate_http sha c header allowed = Inr i"
  shows "\<exists>tok t. bearer_token header = Inr tok \<and> token_key sha t = token_fingerprint sha tok \<and>
    (t \<in> set cl \<and> id_domain i = DomainClient \<or> t \<in> set ad \<and> id_domain i = DomainAdmin) \<and>
    (allowed = [] \<or> id_domain i \<in> set allowed)"
  using authenticate_http_Inr [OF new_catalog_catalog_of [OF assms(1)] assms(2)] by blast

lemma http_accepts_only_configured_witness:
  "\<exists>i tok t. authenticate_http toy_sha four_tokens ''Bearer a1'' [DomainAdmin] = Inr i \<and>
     bearer_token ''Bearer a1'' = Inr tok \<and> token_key toy_sha t = token_fingerprint toy_sha tok \<and>
     (t \<in> set [''c1''] \<or> t \<in> set [''a1''])"
proof -
  have "is_ok (authenticate_http toy_sha four_tokens ''Bearer a1'' [DomainAdmin])" by code_simp
  then obtain i where i: "authenticate_http toy_sha four_tokens ''Bearer a1'' [DomainAdmin] = Inr i"
    by (auto simp: is_ok_iff)
  from http_accepts_only_configured [OF four_tokens_built i] i show ?thesis by blast
qed

text \<open>One token registers one kind of node only: if a token is accepted for a domain, the
  identity has that domain, the domain is agent or proxy, and no other domain accepts it.\<close>

theorem registration_domains_exclusive:
  assumes "new_catalog sha cl ad ag pr = Inr c"
    and "authenticate_registration sha c d tok = Inr i"
  shows "id_domain i = d \<and> d \<in> {DomainAgent, DomainProxy} \<and>
    (\<forall>d'. d' \<noteq> d \<longrightarrow> \<not> is_ok (authenticate_registration sha c d' tok))"
proof -
  have b: "built_catalog sha c" using assms(1) by (auto simp: built_catalog_def)
  show ?thesis
    using node_tokens.auth_domain [OF b assms(2)] node_tokens.auth_nodes_only [OF b assms(2)]
      node_tokens.auth_exclusive [OF b assms(2)]
    by (auto simp: is_ok_iff)
qed

lemma registration_domains_exclusive_witness:
  "\<exists>i. authenticate_registration toy_sha four_tokens DomainAgent ''g1'' = Inr i \<and>
     \<not> is_ok (authenticate_registration toy_sha four_tokens DomainProxy ''g1'')"
proof -
  have "is_ok (authenticate_registration toy_sha four_tokens DomainAgent ''g1'')" by code_simp
  then obtain i where i: "authenticate_registration toy_sha four_tokens DomainAgent ''g1'' = Inr i"
    by (auto simp: is_ok_iff)
  from registration_domains_exclusive [OF four_tokens_built i] i show ?thesis by auto
qed

end
