(* ===== verification/Go_Path.thy ===== *)
theory Go_Path
  imports Go_Strings
begin

text \<open>
  Go's \<open>path/filepath\<close> on Unix, as far as the program uses it: \<open>Clean\<close> and \<open>IsAbs\<close>.
  \<open>Clean\<close> is lexical: it splits at \<open>/\<close>, drops empty and \<open>.\<close> elements and resolves \<open>..\<close>
  against the element before it.  The section ends with the facts the path guard and the
  command whitelist rest on: a cleaned path is its own cleaning, and a cleaned rooted
  path closed by a separator determines the list of its elements, so that string prefixes
  are prefixes of element lists.
\<close>

abbreviation slash :: char where "slash \<equiv> CHR ''/''"

definition is_abs :: "string \<Rightarrow> bool" where
  "is_abs p \<longleftrightarrow> has_prefix p ''/''"

fun clean_comps :: "bool \<Rightarrow> string list \<Rightarrow> string list \<Rightarrow> string list" where
  "clean_comps rooted st [] = rev st"
| "clean_comps rooted st (c # cs) =
     (if c = [] \<or> c = ''.'' then clean_comps rooted st cs
      else if c = ''..'' then
        (case st of
           [] \<Rightarrow> if rooted then clean_comps rooted [] cs else clean_comps rooted [''..''] cs
         | t # ts \<Rightarrow> if t = ''..'' then clean_comps rooted (''..'' # st) cs
                    else clean_comps rooted ts cs)
      else clean_comps rooted (c # st) cs)"

definition path_clean :: "string \<Rightarrow> string" where
  "path_clean p =
     (if p = [] then ''.''
      else let rooted = is_abs p; cs = clean_comps rooted [] (split_char slash p)
           in if rooted then slash # join_char slash cs
              else if cs = [] then ''.'' else join_char slash cs)"

definition plain_comp :: "string \<Rightarrow> bool" where
  "plain_comp c \<longleftrightarrow> c \<noteq> [] \<and> c \<noteq> ''.'' \<and> slash \<notin> set c"

definition clean_ok :: "bool \<Rightarrow> string list \<Rightarrow> bool" where
  "clean_ok rooted cs \<longleftrightarrow>
     (\<forall>c \<in> set cs. plain_comp c) \<and>
     (\<exists>n ds. cs = replicate n ''..'' @ ds \<and> ''..'' \<notin> set ds \<and> (rooted \<longrightarrow> n = 0))"

lemma is_abs_Cons [simp]: "is_abs (c # p) \<longleftrightarrow> c = slash"
  by (auto simp: is_abs_def has_prefix_def)

lemma is_abs_Nil [simp]: "\<not> is_abs []"
  by (simp add: is_abs_def has_prefix_def)

lemma is_abs_iff: "is_abs p \<longleftrightarrow> (\<exists>q. p = slash # q)"
  by (cases p) auto

lemma clean_ok_Nil [simp]: "clean_ok r []"
  by (auto simp: clean_ok_def)

lemma clean_okI:
  "\<forall>c \<in> set cs. plain_comp c \<Longrightarrow> cs = replicate n ''..'' @ ds \<Longrightarrow> ''..'' \<notin> set ds \<Longrightarrow>
   (r \<longrightarrow> n = 0) \<Longrightarrow> clean_ok r cs"
  unfolding clean_ok_def by blast

lemma clean_ok_snoc:
  assumes "clean_ok r cs" and "plain_comp c" and "c \<noteq> ''..''"
  shows "clean_ok r (cs @ [c])"
proof -
  obtain n ds where "cs = replicate n ''..'' @ ds" "''..'' \<notin> set ds" "r \<longrightarrow> n = 0"
    using assms(1) by (auto simp: clean_ok_def)
  with assms show ?thesis
    by (intro clean_okI [of _ n "ds @ [c]"]) (auto simp: clean_ok_def)
qed

lemma clean_ok_butlast: "clean_ok r (cs @ [c]) \<Longrightarrow> clean_ok r cs"
proof -
  assume ok: "clean_ok r (cs @ [c])"
  then obtain n ds where nd: "cs @ [c] = replicate n ''..'' @ ds" "''..'' \<notin> set ds" "r \<longrightarrow> n = 0"
    by (auto simp: clean_ok_def)
  show "clean_ok r cs"
  proof (cases ds rule: rev_cases)
    case Nil
    with nd(1) have rep: "cs @ [c] = replicate n ''..''" by simp
    then have "set cs \<subseteq> {''..''}"
      by (metis Un_subset_iff set_append set_replicate_conv_if empty_subsetI subset_refl)
    then have "cs = replicate (length cs) ''..''"
      by (metis replicate_length_same singletonD subsetD)
    moreover have "r \<longrightarrow> length cs = 0"
      using rep nd(3) by (cases n) auto
    ultimately show ?thesis using ok
      unfolding clean_ok_def by (metis UnI1 append_Nil2 empty_iff list.set(1) set_append)
  next
    case (snoc es e)
    with nd have "cs = replicate n ''..'' @ es" and "''..'' \<notin> set es" by auto
    with nd(3) ok show ?thesis by (auto simp: clean_ok_def)
  qed
qed

lemma clean_ok_dotdot:
  assumes "clean_ok False cs" and "cs = [] \<or> last cs = ''..''"
  shows "clean_ok False (cs @ [''..''])"
proof -
  obtain n ds where nd: "cs = replicate n ''..'' @ ds" "''..'' \<notin> set ds"
    using assms(1) by (auto simp: clean_ok_def)
  have "ds = []"
    using assms(2) nd by (metis append_is_Nil_conv last_appendR last_in_set)
  with nd(1) have "cs @ [''..''] = replicate (Suc n) ''..'' @ []"
    by (simp add: replicate_append_same)
  moreover have "\<forall>c \<in> set (cs @ [''..'']). plain_comp c"
    using assms(1) by (auto simp: clean_ok_def plain_comp_def)
  ultimately show ?thesis by (metis clean_ok_def empty_iff list.set(1))
qed

lemma clean_comps_ok:
  assumes "clean_ok r (rev st)" and "\<forall>c \<in> set cs. slash \<notin> set c"
  shows "clean_ok r (clean_comps r st cs)"
  using assms
proof (induction r st cs rule: clean_comps.induct)
  case (1 rooted st)
  then show ?case by simp
next
  case (2 rooted st c cs)
  consider (skip) "c = [] \<or> c = ''.''" | (up) "c = ''..''"
    | (plain) "c \<noteq> []" "c \<noteq> ''.''" "c \<noteq> ''..''" by blast
  then show ?case
  proof cases
    case skip
    with 2 show ?thesis by auto
  next
    case up
    show ?thesis
    proof (cases st)
      case Nil
      show ?thesis
      proof (cases rooted)
        case True
        with 2 up Nil show ?thesis by simp
      next
        case False
        have "clean_ok False [''..'']" using clean_ok_dotdot [of "[]"] by simp
        with 2 up Nil False show ?thesis by simp
      qed
    next
      case (Cons t ts)
      show ?thesis
      proof (cases "t = ''..''")
        case True
        have "\<not> rooted"
        proof
          assume rooted
          with "2.prems"(1) Cons True show False by (auto simp: clean_ok_def)
        qed
        with 2 Cons True have "clean_ok rooted (rev (''..'' # st))"
          using clean_ok_dotdot [of "rev st"] by simp
        with 2 up Cons True show ?thesis by simp
      next
        case False
        from "2.prems"(1) Cons have "clean_ok rooted (rev ts)"
          using clean_ok_butlast by simp
        with 2 up Cons False show ?thesis by simp
      qed
    qed
  next
    case plain
    with 2 have "plain_comp c" by (simp add: plain_comp_def)
    with 2 plain have "clean_ok rooted (rev (c # st))" by (simp add: clean_ok_snoc)
    with 2 plain show ?thesis by simp
  qed
qed

lemma clean_comps_plain:
  assumes "\<forall>c \<in> set cs. plain_comp c" and "''..'' \<notin> set cs"
  shows "clean_comps r st cs = rev st @ cs"
  using assms by (induction cs arbitrary: st) (auto simp: plain_comp_def)

lemma clean_comps_dotdots:
  "set st \<subseteq> {''..''} \<Longrightarrow>
   clean_comps False st (replicate n ''..'' @ cs) = clean_comps False (replicate n ''..'' @ st) cs"
proof (induction n arbitrary: st)
  case 0
  then show ?case by simp
next
  case (Suc n)
  have shift: "replicate n ''..'' @ ''..'' # st = ''..'' # replicate n ''..'' @ st"
    by (induction n) auto
  have "clean_comps False st (replicate (Suc n) ''..'' @ cs) =
        clean_comps False (''..'' # st) (replicate n ''..'' @ cs)"
    using Suc.prems by (cases st) auto
  also have "\<dots> = clean_comps False (replicate n ''..'' @ ''..'' # st) cs"
    using Suc by simp
  finally show ?case using shift by simp
qed

lemma clean_comps_id:
  assumes "clean_ok r cs"
  shows "clean_comps r [] cs = cs"
proof -
  obtain n ds where nd: "cs = replicate n ''..'' @ ds" "''..'' \<notin> set ds" "r \<longrightarrow> n = 0"
    and pl: "\<forall>c \<in> set ds. plain_comp c"
    using assms by (auto simp: clean_ok_def)
  show ?thesis
  proof (cases r)
    case True
    with nd pl show ?thesis by (simp add: clean_comps_plain)
  next
    case False
    with nd pl show ?thesis
      by (simp add: clean_comps_dotdots clean_comps_plain)
  qed
qed

lemma clean_ok_no_slash: "clean_ok r cs \<Longrightarrow> \<forall>c \<in> set cs. slash \<notin> set c"
  by (auto simp: clean_ok_def plain_comp_def)

lemma join_char_Cons_hd: "p \<noteq> [] \<Longrightarrow> hd (join_char c (p # ps)) = hd p"
  by (cases ps) auto

lemma join_char_nonempty: "p \<noteq> [] \<Longrightarrow> join_char c (p # ps) \<noteq> []"
  by (cases ps) auto

lemma join_char_not_abs:
  assumes "\<forall>c \<in> set cs. plain_comp c"
  shows "\<not> is_abs (join_char slash cs)"
proof (cases cs)
  case Nil
  then show ?thesis by simp
next
  case (Cons p ps)
  with assms have "p \<noteq> []" and "hd p \<noteq> slash"
    by (auto simp: plain_comp_def dest: hd_in_set)
  then have "hd (join_char slash cs) \<noteq> slash" using Cons by (simp add: join_char_Cons_hd)
  then show ?thesis by (auto simp: is_abs_iff)
qed

text \<open>The elements of a cleaned path, and the path they spell.\<close>

definition path_comps :: "string \<Rightarrow> string list" where
  "path_comps p = clean_comps (is_abs p) [] (split_char slash p)"

definition spell_path :: "bool \<Rightarrow> string list \<Rightarrow> string" where
  "spell_path rooted cs =
     (if rooted then slash # join_char slash cs
      else if cs = [] then ''.'' else join_char slash cs)"

lemma path_clean_spell: "path_clean p = spell_path (is_abs p) (path_comps p)"
  by (auto simp: path_clean_def spell_path_def path_comps_def Let_def)

lemma path_comps_ok: "clean_ok (is_abs p) (path_comps p)"
  unfolding path_comps_def
  by (rule clean_comps_ok) (auto dest: split_char_sep)

lemma is_abs_spell [simp]:
  "clean_ok r cs \<Longrightarrow> is_abs (spell_path r cs) = r"
  by (auto simp: spell_path_def clean_ok_def join_char_not_abs)

lemma path_comps_spell:
  assumes "clean_ok r cs"
  shows "path_comps (spell_path r cs) = cs"
proof -
  have ns: "\<forall>c \<in> set cs. slash \<notin> set c" using assms by (rule clean_ok_no_slash)
  have ab: "is_abs (spell_path r cs) = r" using assms by simp
  show ?thesis
  proof (cases "cs = []")
    case True
    with ab show ?thesis by (simp add: path_comps_def spell_path_def)
  next
    case False
    then have "split_char slash (spell_path r cs) = (if r then [] # cs else cs)"
      using ns by (simp add: spell_path_def split_join_char)
    with ab assms show ?thesis by (auto simp: path_comps_def clean_comps_id)
  qed
qed

lemma is_abs_clean [simp]: "is_abs (path_clean p) = is_abs p"
  by (simp add: path_clean_spell path_comps_ok)

lemma path_comps_clean [simp]: "path_comps (path_clean p) = path_comps p"
  by (simp add: path_clean_spell path_comps_spell path_comps_ok)

lemma path_clean_idem [simp]: "path_clean (path_clean p) = path_clean p"
  by (simp add: path_clean_spell [of "path_clean p"]) (simp add: path_clean_spell)

lemma path_clean_nonempty [simp]: "path_clean p \<noteq> []"
proof (cases "path_comps p")
  case Nil
  then show ?thesis by (simp add: path_clean_spell spell_path_def)
next
  case (Cons c cs)
  with path_comps_ok [of p] have "c \<noteq> []" by (auto simp: clean_ok_def plain_comp_def)
  with Cons show ?thesis by (simp add: path_clean_spell spell_path_def join_char_nonempty)
qed

section \<open>Cleaned rooted paths closed by a separator\<close>

definition with_sep :: "string \<Rightarrow> string" where
  "with_sep p = (if has_suffix p ''/'' then p else p @ ''/'')"

definition encode_comps :: "string list \<Rightarrow> string" where
  "encode_comps cs = concat (map (\<lambda>c. c @ [slash]) cs)"

lemma join_char_encode: "cs \<noteq> [] \<Longrightarrow> join_char slash cs @ [slash] = encode_comps cs"
  by (induction "slash" cs rule: join_char.induct) (auto simp: encode_comps_def)

lemma join_char_no_trail:
  assumes "cs \<noteq> []" and "\<forall>c \<in> set cs. plain_comp c"
  shows "\<not> has_suffix (join_char slash cs) ''/''"
proof -
  have "join_char slash cs \<noteq> [] \<and> last (join_char slash cs) \<noteq> slash"
    using assms
  proof (induction "slash" cs rule: join_char.induct)
    case 1
    then show ?case by simp
  next
    case (2 p)
    then show ?case by (auto simp: plain_comp_def dest: last_in_set)
  next
    case (3 p q ps)
    then show ?case by (simp add: join_char_nonempty)
  qed
  then show ?thesis by (auto simp: has_suffix_iff)
qed

lemma with_sep_clean_abs:
  assumes "is_abs p"
  shows "with_sep (path_clean p) = slash # encode_comps (path_comps p)"
proof (cases "path_comps p = []")
  case True
  with assms show ?thesis
    by (simp add: path_clean_spell spell_path_def with_sep_def encode_comps_def has_suffix_def)
next
  case False
  have pl: "\<forall>c \<in> set (path_comps p). plain_comp c"
    using path_comps_ok [of p] by (simp add: clean_ok_def)
  have ne: "join_char slash (path_comps p) \<noteq> []"
    using False pl by (cases "path_comps p") (auto simp: plain_comp_def join_char_nonempty)
  have "\<not> has_suffix (slash # join_char slash (path_comps p)) ''/''"
    using join_char_no_trail [OF False pl] ne
    by (auto simp: has_suffix_iff Cons_eq_append_conv)
  with assms False show ?thesis
    by (simp add: path_clean_spell spell_path_def with_sep_def join_char_encode)
qed

lemma encode_comps_prefix:
  assumes "\<forall>c \<in> set cs. slash \<notin> set c" and "\<forall>d \<in> set ds. slash \<notin> set d"
  shows "has_prefix (encode_comps cs) (encode_comps ds) \<longleftrightarrow> prefix ds cs"
  using assms
proof (induction ds arbitrary: cs)
  case Nil
  then show ?case by (simp add: encode_comps_def)
next
  case (Cons d ds)
  show ?case
  proof (cases cs)
    case Nil
    then show ?thesis by (simp add: encode_comps_def has_prefix_def)
  next
    case (Cons c cs')
    have split: "c @ slash # x = d @ slash # y \<longleftrightarrow> c = d \<and> x = y" for x y
      using Cons.prems Cons split_char_append [of slash c x] split_char_append [of slash d y]
      by (metis append_same_eq list.inject list.set_intros(1) same_append_eq)
    have "has_prefix (encode_comps cs) (encode_comps (d # ds)) \<longleftrightarrow>
          c = d \<and> has_prefix (encode_comps cs') (encode_comps ds)"
      using Cons split by (auto simp: has_prefix_iff encode_comps_def)
    with Cons.IH [of cs'] Cons.prems Cons show ?thesis by auto
  qed
qed

lemma with_sep_prefix_iff:
  assumes "is_abs p" and "is_abs q"
  shows "has_prefix (with_sep (path_clean p)) (with_sep (path_clean q)) \<longleftrightarrow>
         prefix (path_comps q) (path_comps p)"
proof -
  have "has_prefix (slash # x) (slash # y) \<longleftrightarrow> has_prefix x y" for x y
    by (simp add: has_prefix_def)
  then show ?thesis
    using assms encode_comps_prefix [OF clean_ok_no_slash clean_ok_no_slash, OF path_comps_ok path_comps_ok]
    by (simp add: with_sep_clean_abs)
qed

end
