(* ===== verification/Configs.thy ===== *)
theory Configs
  imports Token_Auth Go_Path
begin

text \<open>
  The configuration loaders: \<open>internal/sysplane-center/config\<close>, \<open>internal/sysplane-proxy/config\<close>,
  \<open>internal/sysplane-agent/config\<close>, and \<open>internal/pkg/logutil\<close>.  Reading the file and the
  YAML decoder are parameters of \<open>Load\<close>; the defaults and the checks are modelled in full.
  The lemmas show what a configuration that was loaded satisfies, which is what the
  components that are started with it rely on.
\<close>

section \<open>Log levels\<close>

datatype log_level = LevelDebug | LevelInfo | LevelWarn | LevelError

definition parse_level :: "string \<Rightarrow> log_level" where
  "parse_level level =
     (if level = ''debug'' then LevelDebug
      else if level = ''warn'' then LevelWarn
      else if level = ''error'' then LevelError
      else LevelInfo)"

section \<open>Shared shapes\<close>

record tls_files =
  tf_cert :: string
  tf_key :: string
  tf_ca :: string

record logging_config =
  lg_level :: string
  lg_format :: string

definition default_str :: "string \<Rightarrow> string \<Rightarrow> string" where
  "default_str s v = (if s = [] then v else s)"

definition default_pos :: "int \<Rightarrow> int \<Rightarrow> int" where
  "default_pos n v = (if n \<le> 0 then v else n)"

lemma default_str_idem [simp]: "default_str (default_str s v) v = default_str s v"
  by (simp add: default_str_def)

lemma default_pos_idem [simp]: "0 < v \<Longrightarrow> default_pos (default_pos n v) v = default_pos n v"
  by (simp add: default_pos_def)

lemma default_pos_gt [simp]: "0 < v \<Longrightarrow> 0 < default_pos n v"
  by (simp add: default_pos_def)

section \<open>Center\<close>

record center_config =
  cc_http_address :: string
  cc_grpc_address :: string
  cc_tls :: tls_files
  cc_client_tokens :: "string list"
  cc_admin_tokens :: "string list"
  cc_agent_tokens :: "string list"
  cc_proxy_tokens :: "string list"
  cc_request_timeout_sec :: int
  cc_logging :: logging_config
  cc_db_enable :: bool
  cc_db_dsn :: string
  cc_db_max_conns :: int
  cc_metrics_enable :: bool
  cc_metrics_address :: string
  cc_ha_internal_address :: string
  cc_ha_internal_secret :: string
  cc_ha_internal_use_tls :: bool
  cc_ha_internal_skip_verify :: bool

definition center_apply_defaults :: "center_config \<Rightarrow> center_config" where
  "center_apply_defaults cfg = cfg
     \<lparr>cc_http_address := default_str (cc_http_address cfg) '':18880'',
      cc_grpc_address := default_str (cc_grpc_address cfg) '':18890'',
      cc_request_timeout_sec := default_pos (cc_request_timeout_sec cfg) 5,
      cc_logging := \<lparr>lg_level = default_str (lg_level (cc_logging cfg)) ''info'',
                     lg_format = default_str (lg_format (cc_logging cfg)) ''json''\<rparr>,
      cc_db_max_conns := default_pos (cc_db_max_conns cfg) 10,
      cc_metrics_address := default_str (cc_metrics_address cfg) '':18891''\<rparr>"

definition center_validate :: "sha256 \<Rightarrow> center_config \<Rightarrow> string option" where
  "center_validate sha cfg =
     (if cc_client_tokens cfg = [] \<and> cc_admin_tokens cfg = [] then
        Some ''at least one of auth.client_tokens or auth.admin_tokens must be configured''
      else if cc_agent_tokens cfg = [] then Some ''auth.agent_tokens must have at least one token''
      else if cc_proxy_tokens cfg = [] then Some ''auth.proxy_tokens must have at least one token''
      else case new_catalog sha (cc_client_tokens cfg) (cc_admin_tokens cfg)
                  (cc_agent_tokens cfg) (cc_proxy_tokens cfg) of
             Inl e \<Rightarrow> Some (''auth token validation failed: '' @ e)
           | Inr _ \<Rightarrow>
               if cc_db_enable cfg \<and> cc_ha_internal_address cfg = [] then
                 Some ''ha.internal_address must be set when database.enable=true''
               else None)"

definition center_load ::
  "sha256 \<Rightarrow> (string \<Rightarrow> string go_result) \<Rightarrow> (string \<Rightarrow> center_config go_result) \<Rightarrow> string
   \<Rightarrow> center_config go_result" where
  "center_load sha read_file unmarshal path =
     (case read_file path of
        Inl e \<Rightarrow> Inl (''center config: read '' @ path @ '': '' @ e)
      | Inr data \<Rightarrow>
     (case unmarshal data of
        Inl e \<Rightarrow> Inl (''center config: parse '' @ path @ '': '' @ e)
      | Inr raw \<Rightarrow>
          let cfg = center_apply_defaults raw in
          case center_validate sha cfg of
            Some e \<Rightarrow> Inl (''center config: '' @ e)
          | None \<Rightarrow> Inr cfg))"

section \<open>Proxy\<close>

record proxy_config =
  pc_grpc_address :: string
  pc_listen_tls :: tls_files
  pc_upstream_address :: string
  pc_upstream_token :: string
  pc_insecure_tls :: bool
  pc_upstream_tls :: tls_files
  pc_agent_tokens :: "string list"
  pc_proxy_tokens :: "string list"
  pc_logging :: logging_config
  pc_hostname :: string

definition proxy_apply_defaults :: "proxy_config \<Rightarrow> proxy_config" where
  "proxy_apply_defaults cfg = cfg
     \<lparr>pc_grpc_address := default_str (pc_grpc_address cfg) '':18892'',
      pc_logging := \<lparr>lg_level = default_str (lg_level (pc_logging cfg)) ''info'',
                     lg_format = default_str (lg_format (pc_logging cfg)) ''json''\<rparr>\<rparr>"

definition proxy_validate :: "sha256 \<Rightarrow> proxy_config \<Rightarrow> string option" where
  "proxy_validate sha cfg =
     (if pc_upstream_address cfg = [] then Some ''upstream.address must be set''
      else if pc_upstream_token cfg = [] then Some ''upstream.token must be set''
      else if pc_agent_tokens cfg = [] then Some ''auth.agent_tokens must have at least one token''
      else if pc_proxy_tokens cfg = [] then Some ''auth.proxy_tokens must have at least one token''
      else case new_catalog sha [] [] (pc_agent_tokens cfg) (pc_proxy_tokens cfg) of
             Inl e \<Rightarrow> Some (''auth token validation failed: '' @ e)
           | Inr _ \<Rightarrow> None)"

definition proxy_load ::
  "sha256 \<Rightarrow> (string \<Rightarrow> string go_result) \<Rightarrow> (string \<Rightarrow> proxy_config go_result) \<Rightarrow> string
   \<Rightarrow> proxy_config go_result" where
  "proxy_load sha read_file unmarshal path =
     (case read_file path of
        Inl e \<Rightarrow> Inl (''proxy config: read '' @ path @ '': '' @ e)
      | Inr data \<Rightarrow>
     (case unmarshal data of
        Inl e \<Rightarrow> Inl (''proxy config: parse '' @ path @ '': '' @ e)
      | Inr raw \<Rightarrow>
          let cfg = proxy_apply_defaults raw in
          case proxy_validate sha cfg of
            Some e \<Rightarrow> Inl (''proxy config: '' @ e)
          | None \<Rightarrow> Inr cfg))"

section \<open>Agent\<close>

record security =
  sec_allowed_paths :: "string list"
  sec_blocked_paths :: "string list"
  sec_max_file_size_mb :: int
  sec_allow_privileged_ports :: bool
  sec_allowed_ports :: "int list"
  sec_allowed_commands :: "string list"

record agent_config =
  ac_upstream_address :: string
  ac_upstream_token :: string
  ac_tls :: tls_files
  ac_security :: security
  ac_logging :: logging_config
  ac_tool_timeout_sec :: int
  ac_reconnect_max_delay_sec :: int
  ac_hostname :: string
  ac_config_path :: string

definition agent_apply_defaults :: "agent_config \<Rightarrow> agent_config" where
  "agent_apply_defaults cfg = cfg
     \<lparr>ac_tool_timeout_sec := default_pos (ac_tool_timeout_sec cfg) 25,
      ac_reconnect_max_delay_sec := default_pos (ac_reconnect_max_delay_sec cfg) 5,
      ac_security := (ac_security cfg)
        \<lparr>sec_max_file_size_mb := default_pos (sec_max_file_size_mb (ac_security cfg)) 100,
         sec_blocked_paths := (if sec_blocked_paths (ac_security cfg) = []
                               then [''/proc'', ''/sys'', ''/dev'']
                               else sec_blocked_paths (ac_security cfg))\<rparr>,
      ac_logging := \<lparr>lg_level = default_str (lg_level (ac_logging cfg)) ''info'',
                     lg_format = default_str (lg_format (ac_logging cfg)) ''json''\<rparr>\<rparr>"

text \<open>The loop over \<open>allowed_commands\<close>, with the two messages as parameters because
  \<open>set_agent_config\<close> makes the same check with other texts.\<close>

fun check_commands :: "string \<Rightarrow> (string \<Rightarrow> string) \<Rightarrow> string list \<Rightarrow> string option" where
  "check_commands on_empty on_rel [] = None"
| "check_commands on_empty on_rel (raw # rest) =
     (let cmd = trim_space raw in
      if cmd = [] then Some on_empty
      else if \<not> is_abs cmd then Some (on_rel cmd)
      else check_commands on_empty on_rel rest)"

definition agent_validate :: "agent_config \<Rightarrow> string option" where
  "agent_validate cfg =
     (if ac_upstream_address cfg = [] then Some ''upstream.address is required''
      else if ac_upstream_token cfg = [] then Some ''upstream.token is required''
      else check_commands ''security.allowed_commands must not contain empty values''
             (\<lambda>c. ''security.allowed_commands value '' @ go_quote c @ '' must be an absolute path'')
             (sec_allowed_commands (ac_security cfg)))"

definition agent_load ::
  "(string \<Rightarrow> string go_result) \<Rightarrow> (string \<Rightarrow> agent_config go_result) \<Rightarrow> string
   \<Rightarrow> agent_config go_result" where
  "agent_load read_file unmarshal path =
     (case read_file path of
        Inl e \<Rightarrow> Inl (''agent config: read '' @ path @ '': '' @ e)
      | Inr data \<Rightarrow>
     (case unmarshal data of
        Inl e \<Rightarrow> Inl (''agent config: parse '' @ path @ '': '' @ e)
      | Inr raw \<Rightarrow>
          let cfg = agent_apply_defaults raw in
          case agent_validate cfg of
            Some e \<Rightarrow> Inl (''agent config: '' @ e)
          | None \<Rightarrow> Inr (cfg\<lparr>ac_config_path := path\<rparr>)))"

section \<open>Lemmas\<close>

definition command_ok :: "string \<Rightarrow> bool" where
  "command_ok raw \<longleftrightarrow> trim_space raw \<noteq> [] \<and> is_abs (trim_space raw)"

lemma check_commands_None: "check_commands e f cs = None \<longleftrightarrow> (\<forall>c \<in> set cs. command_ok c)"
  by (induction cs) (auto simp: command_ok_def Let_def)

lemma center_defaults_idem [simp]:
  "center_apply_defaults (center_apply_defaults cfg) = center_apply_defaults cfg"
  by (simp add: center_apply_defaults_def)

lemma proxy_defaults_idem [simp]:
  "proxy_apply_defaults (proxy_apply_defaults cfg) = proxy_apply_defaults cfg"
  by (simp add: proxy_apply_defaults_def)

lemma agent_defaults_idem [simp]:
  "agent_apply_defaults (agent_apply_defaults cfg) = agent_apply_defaults cfg"
  by (simp add: agent_apply_defaults_def)

lemma center_load_Inr:
  assumes "center_load sha rf um path = Inr cfg"
  obtains data raw where "rf path = Inr data" "um data = Inr raw"
    "cfg = center_apply_defaults raw" "center_validate sha cfg = None"
  using assms by (auto simp: center_load_def Let_def split: sum.splits option.splits)

lemma proxy_load_Inr:
  assumes "proxy_load sha rf um path = Inr cfg"
  obtains data raw where "rf path = Inr data" "um data = Inr raw"
    "cfg = proxy_apply_defaults raw" "proxy_validate sha cfg = None"
  using assms by (auto simp: proxy_load_def Let_def split: sum.splits option.splits)

lemma agent_load_Inr:
  assumes "agent_load rf um path = Inr cfg"
  obtains data raw where "rf path = Inr data" "um data = Inr raw"
    "cfg = (agent_apply_defaults raw)\<lparr>ac_config_path := path\<rparr>"
    "agent_validate (agent_apply_defaults raw) = None"
  using assms by (auto simp: agent_load_def Let_def split: sum.splits option.splits)

lemma center_validate_None:
  "center_validate sha cfg = None \<longleftrightarrow>
     (cc_client_tokens cfg \<noteq> [] \<or> cc_admin_tokens cfg \<noteq> []) \<and> cc_agent_tokens cfg \<noteq> [] \<and>
     cc_proxy_tokens cfg \<noteq> [] \<and>
     is_ok (new_catalog sha (cc_client_tokens cfg) (cc_admin_tokens cfg)
              (cc_agent_tokens cfg) (cc_proxy_tokens cfg)) \<and>
     (cc_db_enable cfg \<longrightarrow> cc_ha_internal_address cfg \<noteq> [])"
  by (auto simp: center_validate_def is_ok_iff split: sum.splits)

section \<open>Properties\<close>

text \<open>A configuration that \<open>sysplane-center\<close> loads is complete and consistent: every
  address, the request timeout and the connection limit are set, the token catalog the
  server is about to build from it exists, some HTTP token, agent token and proxy token is
  configured, and an instance with a database has an address its peers can reach.\<close>

theorem center_loaded_config_ok:
  assumes "center_load sha rf um path = Inr cfg"
  shows "is_ok (new_catalog sha (cc_client_tokens cfg) (cc_admin_tokens cfg)
                  (cc_agent_tokens cfg) (cc_proxy_tokens cfg)) \<and>
    cc_client_tokens cfg @ cc_admin_tokens cfg \<noteq> [] \<and>
    cc_agent_tokens cfg \<noteq> [] \<and> cc_proxy_tokens cfg \<noteq> [] \<and>
    cc_http_address cfg \<noteq> [] \<and> cc_grpc_address cfg \<noteq> [] \<and> cc_metrics_address cfg \<noteq> [] \<and>
    0 < cc_request_timeout_sec cfg \<and> 0 < cc_db_max_conns cfg \<and>
    \<not> (cc_db_enable cfg \<and> cc_ha_internal_address cfg = [])"
proof -
  obtain raw where "cfg = center_apply_defaults raw" "center_validate sha cfg = None"
    using assms by (rule center_load_Inr)
  then show ?thesis
    by (auto simp: center_validate_None center_apply_defaults_def default_str_def)
qed

definition sample_center_config :: center_config where
  "sample_center_config =
     \<lparr>cc_http_address = [], cc_grpc_address = '':9090'', cc_tls = \<lparr>tf_cert = [], tf_key = [], tf_ca = []\<rparr>,
      cc_client_tokens = [''c''], cc_admin_tokens = [''a''], cc_agent_tokens = [''g''],
      cc_proxy_tokens = [''p''], cc_request_timeout_sec = 0,
      cc_logging = \<lparr>lg_level = [], lg_format = []\<rparr>, cc_db_enable = True, cc_db_dsn = [],
      cc_db_max_conns = 0, cc_metrics_enable = False, cc_metrics_address = [],
      cc_ha_internal_address = ''10.0.0.1:80'', cc_ha_internal_secret = [],
      cc_ha_internal_use_tls = False, cc_ha_internal_skip_verify = False\<rparr>"

lemma sample_center_load:
  "center_load toy_sha (\<lambda>_. Inr ''yaml'') (\<lambda>_. Inr sample_center_config) ''c.yaml'' =
     Inr (center_apply_defaults sample_center_config)"
  by code_simp

theorem center_loaded_config_ok_witness:
  "is_ok (new_catalog toy_sha [''c''] [''a''] [''g''] [''p'']) \<and>
   0 < cc_request_timeout_sec (center_apply_defaults sample_center_config)"
  using center_loaded_config_ok [OF sample_center_load]
  by (simp add: sample_center_config_def center_apply_defaults_def)

text \<open>C40: An agent starts with a security section that is in force: the list of blocked
  paths is not empty, the file size limit and the tool timeout are positive, and every
  whitelisted command, trimmed, is an absolute path.\<close>

theorem agent_loaded_config_ok:
  assumes "agent_load rf um path = Inr cfg"
  shows "sec_blocked_paths (ac_security cfg) \<noteq> [] \<and> 0 < sec_max_file_size_mb (ac_security cfg) \<and>
    0 < ac_tool_timeout_sec cfg \<and> 0 < ac_reconnect_max_delay_sec cfg \<and>
    list_all command_ok (sec_allowed_commands (ac_security cfg)) \<and>
    ac_upstream_address cfg \<noteq> [] \<and> ac_upstream_token cfg \<noteq> [] \<and> ac_config_path cfg = path"
proof -
  obtain raw where "cfg = (agent_apply_defaults raw)\<lparr>ac_config_path := path\<rparr>"
    "agent_validate (agent_apply_defaults raw) = None"
    using assms by (rule agent_load_Inr)
  then show ?thesis
    by (auto simp: agent_validate_def agent_apply_defaults_def check_commands_None list_all_iff
        split: if_splits)
qed

definition sample_agent_config :: agent_config where
  "sample_agent_config =
     \<lparr>ac_upstream_address = ''c:1'', ac_upstream_token = ''t'',
      ac_tls = \<lparr>tf_cert = [], tf_key = [], tf_ca = []\<rparr>,
      ac_security = \<lparr>sec_allowed_paths = [], sec_blocked_paths = [], sec_max_file_size_mb = 0,
        sec_allow_privileged_ports = False, sec_allowed_ports = [],
        sec_allowed_commands = ['' /bin/ls'']\<rparr>,
      ac_logging = \<lparr>lg_level = [], lg_format = []\<rparr>, ac_tool_timeout_sec = 0,
      ac_reconnect_max_delay_sec = 0, ac_hostname = [], ac_config_path = []\<rparr>"

lemma sample_agent_load:
  "agent_load (\<lambda>_. Inr ''yaml'') (\<lambda>_. Inr sample_agent_config) ''a.yaml'' =
     Inr ((agent_apply_defaults sample_agent_config)\<lparr>ac_config_path := ''a.yaml''\<rparr>)"
  by code_simp

theorem agent_loaded_config_ok_witness:
  "sec_blocked_paths (ac_security (agent_apply_defaults sample_agent_config)) \<noteq> [] \<and>
   command_ok '' /bin/ls''"
  using agent_loaded_config_ok [OF sample_agent_load]
  by (simp add: sample_agent_config_def agent_apply_defaults_def)

end
