(* ===== verification/Tls_Conf.thy ===== *)
theory Tls_Conf
  imports Configs
begin

text \<open>
  \<open>internal/pkg/tlsconf/tlsconf.go\<close> and the places that choose transport credentials: the
  center's gRPC server option, the proxy's upstream and downstream credentials and the
  agent's credentials.  Reading key pairs and files, and recognising PEM certificates, are
  parameters; what is modelled is which material is loaded, what is demanded of the peer,
  and when the program falls back to an unencrypted transport.
\<close>

record tls_config =
  tc_cert :: "(string \<times> string) option"
  tc_min_tls13 :: bool
  tc_client_cas :: "string option"
  tc_require_client_cert :: bool
  tc_root_cas :: "string option"
  tc_skip_verify :: bool

datatype credentials = CredsInsecure | CredsTLS tls_config

record tls_env =
  te_load_pair :: "string \<Rightarrow> string \<Rightarrow> (string \<times> string) go_result"
  te_read_file :: "string \<Rightarrow> string go_result"
  te_pem_ok :: "string \<Rightarrow> bool"

definition plain_tls :: tls_config where
  "plain_tls = \<lparr>tc_cert = None, tc_min_tls13 = True, tc_client_cas = None,
     tc_require_client_cert = False, tc_root_cas = None, tc_skip_verify = False\<rparr>"

definition load_cert_pool :: "tls_env \<Rightarrow> string \<Rightarrow> string go_result" where
  "load_cert_pool env caFile =
     (case te_read_file env caFile of
        Inl e \<Rightarrow> Inl (''tlsconf: read CA file: '' @ e)
      | Inr pem \<Rightarrow>
          if \<not> te_pem_ok env pem then Inl (''tlsconf: no valid certificates in '' @ caFile)
          else Inr pem)"

definition load_server_tls :: "tls_env \<Rightarrow> string \<Rightarrow> string \<Rightarrow> string \<Rightarrow> tls_config go_result" where
  "load_server_tls env certFile keyFile caFile =
     (case te_load_pair env certFile keyFile of
        Inl e \<Rightarrow> Inl (''tlsconf: load server cert: '' @ e)
      | Inr cert \<Rightarrow>
          let cfg = plain_tls\<lparr>tc_cert := Some cert\<rparr> in
          if caFile \<noteq> [] then
            (case load_cert_pool env caFile of
               Inl e \<Rightarrow> Inl e
             | Inr pool \<Rightarrow> Inr (cfg\<lparr>tc_client_cas := Some pool, tc_require_client_cert := True\<rparr>))
          else Inr cfg)"

definition load_client_tls :: "tls_env \<Rightarrow> string \<Rightarrow> string \<Rightarrow> string \<Rightarrow> tls_config go_result" where
  "load_client_tls env certFile keyFile caFile =
     (case (if certFile \<noteq> [] \<and> keyFile \<noteq> [] then
              (case te_load_pair env certFile keyFile of
                 Inl e \<Rightarrow> Inl (''tlsconf: load client cert: '' @ e)
               | Inr cert \<Rightarrow> Inr (plain_tls\<lparr>tc_cert := Some cert\<rparr>))
            else Inr plain_tls) of
        Inl e \<Rightarrow> Inl e
      | Inr cfg \<Rightarrow>
          if caFile \<noteq> [] then
            (case load_cert_pool env caFile of
               Inl e \<Rightarrow> Inl e
             | Inr pool \<Rightarrow> Inr (cfg\<lparr>tc_root_cas := Some pool\<rparr>))
          else Inr cfg)"

text \<open>\<open>buildGRPCServerOption\<close> of the center.\<close>

definition build_grpc_server_option :: "tls_env \<Rightarrow> center_config \<Rightarrow> credentials go_result" where
  "build_grpc_server_option env cfg =
     (let t = cc_tls cfg in
      if tf_cert t \<noteq> [] \<and> tf_key t \<noteq> [] then
        (case load_server_tls env (tf_cert t) (tf_key t) (tf_ca t) of
           Inl e \<Rightarrow> Inl (''load TLS: '' @ e)
         | Inr c \<Rightarrow> Inr (CredsTLS c))
      else Inr CredsInsecure)"

text \<open>\<open>buildUpstreamCreds\<close> of the proxy; \<open>None\<close> is the nil result, for which the dialer
  uses an insecure transport (\<open>dial_credentials\<close>).\<close>

definition build_upstream_creds :: "tls_env \<Rightarrow> proxy_config \<Rightarrow> credentials option go_result" where
  "build_upstream_creds env cfg =
     (let t = pc_upstream_tls cfg in
      if pc_insecure_tls cfg then
        Inr (Some (CredsTLS (plain_tls\<lparr>tc_min_tls13 := False, tc_skip_verify := True\<rparr>)))
      else if tf_cert t \<noteq> [] \<or> tf_ca t \<noteq> [] then
        (case load_client_tls env (tf_cert t) (tf_key t) (tf_ca t) of
           Inl e \<Rightarrow> Inl e
         | Inr c \<Rightarrow> Inr (Some (CredsTLS c)))
      else Inr None)"

definition build_downstream_creds :: "tls_env \<Rightarrow> proxy_config \<Rightarrow> credentials go_result" where
  "build_downstream_creds env cfg =
     (let t = pc_listen_tls cfg in
      if tf_cert t \<noteq> [] then
        (case load_server_tls env (tf_cert t) (tf_key t) (tf_ca t) of
           Inl e \<Rightarrow> Inl e
         | Inr c \<Rightarrow> Inr (CredsTLS c))
      else Inr CredsInsecure)"

definition agent_build_credentials :: "tls_env \<Rightarrow> agent_config \<Rightarrow> credentials go_result" where
  "agent_build_credentials env cfg =
     (let t = ac_tls cfg in
      if tf_cert t = [] \<and> tf_key t = [] \<and> tf_ca t = [] then Inr CredsInsecure
      else case load_client_tls env (tf_cert t) (tf_key t) (tf_ca t) of
             Inl e \<Rightarrow> Inl e
           | Inr c \<Rightarrow> Inr (CredsTLS c))"

definition dial_credentials :: "credentials option \<Rightarrow> credentials" where
  "dial_credentials c = (case c of Some x \<Rightarrow> x | None \<Rightarrow> CredsInsecure)"

lemma load_server_tls_Inr:
  assumes "load_server_tls env cert key ca = Inr c"
  shows "tc_cert c \<noteq> None" and "tc_min_tls13 c"
    and "tc_require_client_cert c \<longleftrightarrow> ca \<noteq> []" and "tc_client_cas c \<noteq> None \<longleftrightarrow> ca \<noteq> []"
  using assms
  by (auto simp: load_server_tls_def Let_def plain_tls_def split: sum.splits if_splits)

lemma load_client_tls_Inr:
  assumes "load_client_tls env cert key ca = Inr c"
  shows "tc_min_tls13 c" and "\<not> tc_skip_verify c"
    and "tc_cert c \<noteq> None \<longleftrightarrow> cert \<noteq> [] \<and> key \<noteq> []" and "tc_root_cas c \<noteq> None \<longleftrightarrow> ca \<noteq> []"
  using assms
  by (auto simp: load_client_tls_def Let_def plain_tls_def split: sum.splits if_splits)

text \<open>Mutual TLS on the listening side: when the center's or the proxy's server
  credentials are TLS, they carry a certificate and need TLS 1.3, and a client certificate
  is demanded and verified exactly when a CA file is configured.\<close>

theorem server_tls_demands_client_cert:
  assumes "build_grpc_server_option env cc = Inr (CredsTLS c)"
    and "build_downstream_creds env pc = Inr (CredsTLS p)"
  shows "tc_cert c \<noteq> None \<and> tc_min_tls13 c \<and>
      (tc_require_client_cert c \<longleftrightarrow> tf_ca (cc_tls cc) \<noteq> []) \<and>
    tc_cert p \<noteq> None \<and> tc_min_tls13 p \<and>
      (tc_require_client_cert p \<longleftrightarrow> tf_ca (pc_listen_tls pc) \<noteq> [])"
  using assms
  by (auto simp: build_grpc_server_option_def build_downstream_creds_def Let_def
      dest: load_server_tls_Inr split: sum.splits if_splits)

definition toy_tls_env :: tls_env where
  "toy_tls_env = \<lparr>te_load_pair = (\<lambda>c k. Inr (c, k)), te_read_file = (\<lambda>p. Inr ''pem''), te_pem_ok = (\<lambda>_. True)\<rparr>"

definition tls_on :: tls_files where
  "tls_on = \<lparr>tf_cert = ''c.pem'', tf_key = ''k.pem'', tf_ca = ''ca.pem''\<rparr>"

definition sample_proxy_config :: proxy_config where
  "sample_proxy_config = \<lparr>pc_grpc_address = '':9091'', pc_listen_tls = tls_on, pc_upstream_address = ''c:9090'',
     pc_upstream_token = ''p'', pc_insecure_tls = False, pc_upstream_tls = tls_on, pc_agent_tokens = [''g''],
     pc_proxy_tokens = [], pc_logging = \<lparr>lg_level = [], lg_format = []\<rparr>, pc_hostname = ''relay''\<rparr>"

lemma server_tls_demands_client_cert_witness:
  "\<exists>c p. build_grpc_server_option toy_tls_env (sample_center_config\<lparr>cc_tls := tls_on\<rparr>) = Inr (CredsTLS c) \<and>
     build_downstream_creds toy_tls_env sample_proxy_config = Inr (CredsTLS p) \<and>
     tc_require_client_cert c \<and> tc_require_client_cert p"
proof -
  obtain c where c: "build_grpc_server_option toy_tls_env (sample_center_config\<lparr>cc_tls := tls_on\<rparr>) = Inr (CredsTLS c)"
    by (simp add: build_grpc_server_option_def load_server_tls_def load_cert_pool_def toy_tls_env_def tls_on_def Let_def)
  obtain p where p: "build_downstream_creds toy_tls_env sample_proxy_config = Inr (CredsTLS p)"
    by (simp add: build_downstream_creds_def load_server_tls_def load_cert_pool_def toy_tls_env_def tls_on_def
        sample_proxy_config_def Let_def)
  from server_tls_demands_client_cert [OF c p] c p show ?thesis
    by (simp add: tls_on_def sample_proxy_config_def)
qed

end
