(* ===== verification/Go_Any.thy ===== *)
theory Go_Any
  imports Go_Strings
begin

text \<open>
  The dynamic values (\<open>any\<close>) that the center handles, all of them decoded from JSON:
  \<open>nil\<close>, booleans, \<open>float64\<close> numbers, strings, slices and string-keyed maps.  A finite
  \<open>float64\<close> is its exact rational value.  A nil map is identified with the empty map.
  Below are the accessors of \<open>internal/sysplane-center/admin/service.go\<close> that read such
  values; a failed type assertion gives the zero value, as in the source.
\<close>

datatype gany =
    GNil
  | GBool bool
  | GNum rat
  | GStr string
  | GArr "gany list"
  | GMap "(string \<times> gany) list"

type_synonym params = "(string, gany) gomap"

text \<open>Indexing a map: a missing key gives \<open>nil\<close>.\<close>

definition gidx :: "params \<Rightarrow> string \<Rightarrow> gany" where
  "gidx m k = (case map_of m k of None \<Rightarrow> GNil | Some v \<Rightarrow> v)"

definition as_map :: "gany \<Rightarrow> params option" where
  "as_map v = (case v of GMap m \<Rightarrow> Some m | _ \<Rightarrow> None)"

text \<open>
  Conversion of a \<open>float64\<close> to a 64-bit integer truncates towards zero.  Out of range the
  language leaves the result to the implementation; on amd64 it is the least integer.
\<close>

definition f64_trunc :: "rat \<Rightarrow> int" where
  "f64_trunc x = (if x < 0 then - \<lfloor>- x\<rfloor> else \<lfloor>x\<rfloor>)"

definition f64_to_int64 :: "rat \<Rightarrow> int" where
  "f64_to_int64 x = (let n = f64_trunc x in if in_int64 n then n else min_int64)"

definition as_string :: "gany \<Rightarrow> string" where
  "as_string v = (case v of GStr s \<Rightarrow> s | _ \<Rightarrow> [])"

definition as_bool :: "gany \<Rightarrow> bool" where
  "as_bool v = (case v of GBool b \<Rightarrow> b | _ \<Rightarrow> False)"

definition as_int :: "gany \<Rightarrow> int" where
  "as_int v = (case v of GNum x \<Rightarrow> f64_to_int64 x | _ \<Rightarrow> 0)"

definition as_int64 :: "gany \<Rightarrow> int" where
  "as_int64 v = (case v of GNum x \<Rightarrow> f64_to_int64 x | _ \<Rightarrow> 0)"

definition is_integer :: "gany \<Rightarrow> bool" where
  "is_integer v = (case v of GNum x \<Rightarrow> x = of_int (f64_to_int64 x) | _ \<Rightarrow> False)"

definition guess_arch :: "params \<Rightarrow> params \<Rightarrow> gany" where
  "guess_arch sys payload =
     (if gidx sys ''arch'' \<noteq> GNil then gidx sys ''arch''
      else case as_map (gidx payload ''cpu'') of
             Some cpu \<Rightarrow> gidx cpu ''arch''
           | None \<Rightarrow> GNil)"

fun first_non_nil :: "gany list \<Rightarrow> gany" where
  "first_non_nil [] = GNil"
| "first_non_nil (v # vs) = (if v \<noteq> GNil then v else first_non_nil vs)"

definition value_or :: "gany \<Rightarrow> gany \<Rightarrow> gany" where
  "value_or v fallback = (if v = GNil \<or> v = GStr [] then fallback else v)"

text \<open>\<open>cloneAny\<close> encodes a value as JSON and decodes it again: every level is rebuilt.\<close>

fun clone_any :: "gany \<Rightarrow> gany" where
  "clone_any GNil = GNil"
| "clone_any (GBool b) = GBool b"
| "clone_any (GNum x) = GNum x"
| "clone_any (GStr s) = GStr s"
| "clone_any (GArr xs) = GArr (map clone_any xs)"
| "clone_any (GMap m) = GMap (map (\<lambda>(k, v). (k, clone_any v)) m)"

definition clone_map :: "params \<Rightarrow> params" where
  "clone_map m = map (\<lambda>(k, v). (k, clone_any v)) m"

lemma clone_any_id [simp]: "clone_any v = v"
proof (induction v)
  case (GMap m)
  then have "map (\<lambda>(k, v). (k, clone_any v)) m = map id m"
    by (intro map_cong) (auto simp: snds.simps)
  then show ?case by simp
qed (simp_all add: map_idI)

lemma clone_map_id [simp]: "clone_map m = m"
  by (simp add: clone_map_def)

text \<open>\<open>toMap\<close>: \<open>nil\<close> is the empty map, a map is cloned, any other value fails to decode
  into a map.\<close>

definition to_map :: "gany \<Rightarrow> params option" where
  "to_map v = (case v of GNil \<Rightarrow> Some [] | GMap m \<Rightarrow> Some (clone_map m) | _ \<Rightarrow> None)"

lemma as_string_simps [simp]: "as_string (GStr s) = s" "as_string GNil = []"
  by (simp_all add: as_string_def)

lemma as_map_Some_iff: "as_map v = Some m \<longleftrightarrow> v = GMap m"
  by (cases v) (auto simp: as_map_def)

lemma f64_to_int64_range: "in_int64 (f64_to_int64 x)"
  by (auto simp: f64_to_int64_def Let_def in_int64_def min_int64_def max_int64_def)

lemma f64_trunc_of_int [simp]: "f64_trunc (of_int n) = n"
  by (simp add: f64_trunc_def flip: of_int_minus)

lemma is_integer_of_int: "in_int64 n \<Longrightarrow> is_integer (GNum (of_int n))"
  by (simp add: is_integer_def f64_to_int64_def)

lemma is_integer_iff:
  "is_integer v \<longleftrightarrow> (\<exists>n. in_int64 n \<and> v = GNum (of_int n))"
proof
  assume "is_integer v"
  then obtain x where "v = GNum x" and "x = of_int (f64_to_int64 x)"
    by (auto simp: is_integer_def split: gany.splits)
  then show "\<exists>n. in_int64 n \<and> v = GNum (of_int n)"
    using f64_to_int64_range by metis
qed (auto intro: is_integer_of_int)

lemma as_int_of_int: "in_int64 n \<Longrightarrow> as_int (GNum (of_int n)) = n"
  by (simp add: as_int_def f64_to_int64_def)

end
