(* ===== verification/Admin_Types.thy ===== *)
theory Admin_Types
  imports Go_Any Token_Auth Request_Ids
begin

text \<open>
  The data of the admin service, \<open>internal/sysplane-center/admin/service.go\<close>: errors,
  templates, invocations, results, audit events, the state of \<open>Service\<close>, and the helpers its
  parts share (normalisation, cloning, \<open>dedupe\<close>, pagination).  The service keeps everything
  in maps behind one lock; each locked section is one atomic step.  The clock and the counter
  of request ids are the field \<open>sv_world\<close>.
\<close>

section \<open>Constants\<close>

definition risk_readonly :: string where "risk_readonly = ''readonly''"
definition risk_mutating :: string where "risk_mutating = ''mutating''"
definition risk_dangerous :: string where "risk_dangerous = ''dangerous''"
definition action_builtin :: string where "action_builtin = ''builtin''"
definition action_template :: string where "action_template = ''command_template''"
definition st_pending :: string where "st_pending = ''pending''"
definition st_running :: string where "st_running = ''running''"
definition st_succeeded :: string where "st_succeeded = ''succeeded''"
definition st_failed :: string where "st_failed = ''failed''"
definition st_canceled :: string where "st_canceled = ''canceled''"
definition st_partial :: string where "st_partial = ''partial''"

lemmas risk_defs = risk_readonly_def risk_mutating_def risk_dangerous_def
lemmas status_defs = st_pending_def st_running_def st_succeeded_def st_failed_def st_canceled_def st_partial_def
lemmas action_defs = action_builtin_def action_template_def

section \<open>Records\<close>

record svc_error =
  se_status :: int
  se_code :: string
  se_message :: string
  se_details :: params

type_synonym 'a svc_result = "svc_error + 'a"

definition svc_err :: "int \<Rightarrow> string \<Rightarrow> string \<Rightarrow> svc_error" where
  "svc_err status code msg = \<lparr>se_status = status, se_code = code, se_message = msg, se_details = []\<rparr>"

record request_meta =
  rm_request_id :: string
  rm_source :: string
  rm_identity :: identity

record template_exec =
  tx_type :: string
  tx_command :: string
  tx_args :: "string list"

record command_template =
  tpl_id :: string
  tpl_name :: string
  tpl_description :: string
  tpl_risk_level :: string
  tpl_target_os :: "string list"
  tpl_executor :: template_exec
  tpl_params_schema :: params
  tpl_default_timeout_sec :: int
  tpl_max_timeout_sec :: int
  tpl_max_output_bytes :: int
  tpl_enabled :: bool
  tpl_created_by :: string
  tpl_created_at :: int
  tpl_updated_at :: int

record template_filter =
  tf_limit :: int
  tf_cursor :: string
  tf_name :: string
  tf_enabled :: "bool option"
  tf_risk_level :: string
  tf_target_os :: string

record create_template_request =
  ctr_name :: string
  ctr_description :: string
  ctr_risk_level :: string
  ctr_target_os :: "string list"
  ctr_executor :: template_exec
  ctr_params_schema :: params
  ctr_default_timeout_sec :: int
  ctr_max_timeout_sec :: int
  ctr_max_output_bytes :: int

text \<open>The fields of a patch are pointers, slices and maps that can be nil.\<close>

record update_template_request =
  utr_description :: "string option"
  utr_risk_level :: "string option"
  utr_target_os :: "string list option"
  utr_params_schema :: "params option"
  utr_default_timeout_sec :: "int option"
  utr_max_timeout_sec :: "int option"
  utr_max_output_bytes :: "int option"
  utr_enabled :: "bool option"

record invocation =
  inv_id :: string
  inv_action :: string
  inv_action_type :: string
  inv_status :: string
  inv_async :: bool
  inv_targets :: "string list"
  inv_params :: gany
  inv_subject_id :: string
  inv_source :: string
  inv_timeout_sec :: int
  inv_created_at :: int
  inv_started_at :: "int option"
  inv_finished_at :: "int option"

record invocation_error =
  ie_code :: string
  ie_message :: string
  ie_details :: params

record invocation_result =
  res_node_id :: string
  res_hostname :: string
  res_status :: string
  res_started_at :: int
  res_finished_at :: int
  res_data :: gany
  res_error :: "invocation_error option"

record create_invocation_request =
  cir_action :: string
  cir_action_type :: string
  cir_targets :: "string list"
  cir_params :: gany
  cir_timeout_sec :: int
  cir_async :: bool

record invocation_filter =
  if_limit :: int
  if_cursor :: string
  if_status :: string
  if_action :: string
  if_action_type :: string

record audit_event =
  ae_id :: string
  ae_request_id :: string
  ae_invocation_id :: string
  ae_subject_id :: string
  ae_token_type :: string
  ae_source :: string
  ae_action :: string
  ae_action_type :: string
  ae_target_node_ids :: "string list"
  ae_risk_level :: string
  ae_decision :: string
  ae_decision_reason :: string
  ae_created_at :: int
  ae_finished_at :: "int option"

record audit_filter =
  af_limit :: int
  af_cursor :: string
  af_action :: string
  af_decision :: string
  af_node_id :: string
  af_subject_id :: string

record 'a list_page =
  lp_items :: "'a list"
  lp_next_cursor :: string

record execution_plan =
  ep_action :: string
  ep_action_type :: string
  ep_targets :: "string list"
  ep_params :: params
  ep_timeout_sec :: int
  ep_risk_level :: string
  ep_template :: "command_template option"

text \<open>\<open>sv_cancel_fns\<close> maps an invocation to its cancel function, whose only effect is to mark
  the run's context canceled; \<open>sv_canceled\<close> lists the runs whose context is.\<close>

record service =
  sv_templates :: "(string, command_template) gomap"
  sv_template_name_ids :: "(string, string) gomap"
  sv_invocations :: "(string, invocation) gomap"
  sv_results :: "(string, invocation_result list) gomap"
  sv_audits :: "(string, audit_event) gomap"
  sv_audit_by_invoke :: "(string, string) gomap"
  sv_cancel_fns :: "(string, unit) gomap"
  sv_canceled :: "string list"
  sv_world :: world

definition new_service :: "world \<Rightarrow> service" where
  "new_service w = \<lparr>sv_templates = [], sv_template_name_ids = [], sv_invocations = [], sv_results = [],
     sv_audits = [], sv_audit_by_invoke = [], sv_cancel_fns = [], sv_canceled = [], sv_world = w\<rparr>"

definition sv_fresh_id :: "string \<Rightarrow> service \<Rightarrow> string \<times> service" where
  "sv_fresh_id pre s = (let (i, w) = new_request_id pre (sv_world s) in (i, s\<lparr>sv_world := w\<rparr>))"

definition sv_now :: "service \<Rightarrow> int \<times> service" where
  "sv_now s = (let (t, w) = time_now (sv_world s) in (t, s\<lparr>sv_world := w\<rparr>))"

section \<open>Normalisation\<close>

definition normalize_meta :: "request_meta \<Rightarrow> service \<Rightarrow> request_meta \<times> service" where
  "normalize_meta meta s =
     (let (m1, s1) = (if rm_request_id meta = []
                      then (let (i, s') = sv_fresh_id ''api'' s in (meta\<lparr>rm_request_id := i\<rparr>, s'))
                      else (meta, s))
      in (if rm_source m1 = [] then m1\<lparr>rm_source := ''api''\<rparr> else m1, s1))"

definition normalize_action :: "string \<Rightarrow> string" where
  "normalize_action action = replace_char (CHR '':'') (CHR ''.'') (trim_space action)"

definition normalize_timeout :: "int \<Rightarrow> int \<Rightarrow> int \<Rightarrow> int" where
  "normalize_timeout requested default_sec max_sec =
     (let r1 = (if requested \<le> 0 then default_sec else requested);
          r2 = (if max_sec > 0 \<and> r1 > max_sec then max_sec else r1)
      in if r2 \<le> 0 then 10 else r2)"

definition normalize_limit :: "int \<Rightarrow> int" where
  "normalize_limit limit = (if limit \<le> 0 then 50 else if limit > 200 then 200 else limit)"

lemma normalize_limit_bounds: "1 \<le> normalize_limit n \<and> normalize_limit n \<le> 200"
  by (simp add: normalize_limit_def)

lemma normalize_timeout_bounds:
  "0 < normalize_timeout r d m \<and> (10 \<le> m \<longrightarrow> normalize_timeout r d m \<le> m)"
  by (auto simp: normalize_timeout_def Let_def)

lemma normalize_timeout_max: "0 < d \<Longrightarrow> d \<le> m \<Longrightarrow> 0 < normalize_timeout r d m \<and> normalize_timeout r d m \<le> m"
  by (auto simp: normalize_timeout_def Let_def)

section \<open>Clones\<close>

text \<open>Values cannot be shared in the model, so a clone is the value rebuilt field by field; the
  lemmas say that nothing is lost.\<close>

definition clone_invocation :: "invocation \<Rightarrow> invocation" where
  "clone_invocation i = i\<lparr>inv_targets := [] @ inv_targets i, inv_params := clone_any (inv_params i)\<rparr>"

definition clone_template :: "command_template \<Rightarrow> command_template" where
  "clone_template t = t\<lparr>tpl_target_os := [] @ tpl_target_os t,
     tpl_executor := (tpl_executor t)\<lparr>tx_args := [] @ tx_args (tpl_executor t)\<rparr>,
     tpl_params_schema := clone_map (tpl_params_schema t)\<rparr>"

definition clone_audit :: "audit_event \<Rightarrow> audit_event" where
  "clone_audit e = e\<lparr>ae_target_node_ids := [] @ ae_target_node_ids e\<rparr>"

definition clone_result :: "invocation_result \<Rightarrow> invocation_result" where
  "clone_result r =
     (let r1 = (case res_error r of
                  None \<Rightarrow> r
                | Some e \<Rightarrow> r\<lparr>res_error := Some (e\<lparr>ie_details := clone_map (ie_details e)\<rparr>)\<rparr>)
      in r1\<lparr>res_data := clone_any (res_data r1)\<rparr>)"

definition clone_results :: "invocation_result list \<Rightarrow> invocation_result list" where
  "clone_results rs = map clone_result rs"

lemma clone_ids [simp]:
  "clone_invocation i = i" "clone_template t = t" "clone_audit e = e"
  by (simp_all add: clone_invocation_def clone_template_def clone_audit_def)

lemma clone_result_id [simp]: "clone_result r = r"
  by (cases r) (auto simp: clone_result_def Let_def split: option.splits)

lemma clone_results_id [simp]: "clone_results rs = rs"
  by (simp add: clone_results_def map_idI)

section \<open>\<open>dedupe\<close>\<close>

fun dedupe_loop :: "string list \<Rightarrow> string list \<Rightarrow> string list" where
  "dedupe_loop seen [] = []"
| "dedupe_loop seen (v # vs) =
     (let w = trim_space v in
      if w = [] then dedupe_loop seen vs
      else if w \<in> set seen then dedupe_loop seen vs
      else w # dedupe_loop (w # seen) vs)"

definition dedupe :: "string list \<Rightarrow> string list" where
  "dedupe vs = dedupe_loop [] vs"

lemma dedupe_loop_props:
  "distinct (dedupe_loop seen vs) \<and>
   set (dedupe_loop seen vs) = trim_space ` set vs - {[]} - set seen"
  by (induction seen vs rule: dedupe_loop.induct) (auto simp: Let_def)

lemma dedupe_distinct [simp]: "distinct (dedupe vs)"
  by (simp add: dedupe_def dedupe_loop_props)

lemma set_dedupe: "set (dedupe vs) = trim_space ` set vs - {[]}"
  by (simp add: dedupe_def dedupe_loop_props)

section \<open>Pages\<close>

definition paginate :: "'a list \<Rightarrow> string \<Rightarrow> int \<Rightarrow> ('a \<Rightarrow> string) \<Rightarrow> 'a list_page" where
  "paginate items cursor limit id_fn =
     (let n = length items;
          start0 = (if cursor \<noteq> [] then (case find_index (\<lambda>x. id_fn x = cursor) items of
                                         Some i \<Rightarrow> i + 1 | None \<Rightarrow> n) else 0);
          start = (if start0 > n then n else start0);
          stop = min (start + nat limit) n;
          nxt = (if stop < n then id_fn (items ! (stop - 1)) else [])
      in \<lparr>lp_items = take (stop - start) (drop start items), lp_next_cursor = nxt\<rparr>)"

text \<open>Go's \<open>sort.Slice\<close> by creation time, newest first.\<close>

definition newest_first :: "('a \<Rightarrow> int) \<Rightarrow> 'a list \<Rightarrow> 'a list" where
  "newest_first created xs = sort_key (\<lambda>x. - created x) xs"

text \<open>A client that follows the cursors, with at most \<open>fuel\<close> requests.\<close>

fun follow_pages :: "nat \<Rightarrow> 'a list \<Rightarrow> string \<Rightarrow> int \<Rightarrow> ('a \<Rightarrow> string) \<Rightarrow> 'a list" where
  "follow_pages 0 items cursor limit id_fn = []"
| "follow_pages (Suc fuel) items cursor limit id_fn =
     (let p = paginate items cursor limit id_fn
      in lp_items p @ (if lp_next_cursor p = [] then []
                       else follow_pages fuel items (lp_next_cursor p) limit id_fn))"

lemma paginate_from:
  assumes "distinct (map id_fn items)" and "k < length items" and "id_fn (items ! k) \<noteq> []" and "0 < limit"
  shows "paginate items (id_fn (items ! k)) limit id_fn =
    \<lparr>lp_items = take (nat limit) (drop (Suc k) items),
     lp_next_cursor = (if Suc k + nat limit < length items then id_fn (items ! (k + nat limit)) else [])\<rparr>"
proof -
  have "find_index (\<lambda>x. id_fn x = id_fn (items ! k)) items = Some k"
    using assms(1,2) by (rule find_index_distinct)
  with assms(2-4) show ?thesis
    by (auto simp: paginate_def Let_def min_def)
qed

lemma follow_pages_from:
  assumes "distinct (map id_fn items)" and "\<forall>x \<in> set items. id_fn x \<noteq> []" and "0 < limit"
  shows "k < length items \<Longrightarrow> length items - Suc k < fuel * nat limit \<or> length items = Suc k \<and> 0 < fuel \<Longrightarrow>
    follow_pages fuel items (id_fn (items ! k)) limit id_fn = drop (Suc k) items"
proof (induction fuel arbitrary: k)
  case 0
  then show ?case by simp
next
  case (Suc fuel)
  have ne: "id_fn (items ! j) \<noteq> []" if "j < length items" for j using assms(2) that by simp
  note page = paginate_from [OF assms(1) Suc.prems(1) ne [OF Suc.prems(1)] assms(3)]
  have L: "0 < nat limit" using assms(3) by simp
  show ?case
  proof (cases "Suc k + nat limit < length items")
    case False
    then show ?thesis by (simp add: page Let_def)
  next
    case True
    let ?j = "k + nat limit"
    have j: "?j < length items" using True by simp
    have step: "length items - Suc ?j < fuel * nat limit \<or> length items = Suc ?j \<and> 0 < fuel"
      using Suc.prems(2) True L by auto
    have "follow_pages fuel items (id_fn (items ! ?j)) limit id_fn = drop (Suc ?j) items"
      using j step by (rule Suc.IH)
    moreover have "drop (Suc k) items = take (nat limit) (drop (Suc k) items) @ drop (Suc ?j) items"
      by (metis add.commute add_Suc append_take_drop_id drop_drop)
    ultimately show ?thesis using True ne [OF j] by (simp add: page Let_def)
  qed
qed

lemma follow_pages_all:
  assumes "distinct (map id_fn items)" and "\<forall>x \<in> set items. id_fn x \<noteq> []" and L: "0 < n"
  shows "follow_pages (Suc (length items)) items [] n id_fn = items"
proof (cases "nat n < length items")
  case False
  then show ?thesis by (simp add: paginate_def Let_def)
next
  case True
  let ?L = "nat n"
  have L1: "1 \<le> ?L" using L by simp
  let ?k = "?L - 1"
  have k: "?k < length items" using True by simp
  have ne: "id_fn (items ! ?k) \<noteq> []" using assms(2) k by simp
  have page: "paginate items [] n id_fn =
      \<lparr>lp_items = take ?L items, lp_next_cursor = id_fn (items ! ?k)\<rparr>"
    using True by (simp add: paginate_def Let_def min_def)
  have "length items \<le> length items * ?L" using L1 by simp
  then have fuel: "length items - Suc ?k < length items * ?L \<or> length items = Suc ?k \<and> 0 < length items"
    using True L1 by (intro disjI1) linarith
  have "follow_pages (length items) items (id_fn (items ! ?k)) n id_fn = drop ?L items"
    using follow_pages_from [OF assms(1,2) L k fuel] L1 by simp
  with ne show ?thesis by (simp add: page Let_def)
qed

text \<open>C39: A client that follows the cursors of a listing that does not change gets every item
  exactly once and in order, whatever limit it asks for, and the pages end: as many requests
  as there are items are always enough.\<close>

theorem pages_cover_listing:
  assumes "distinct (map id_fn items)" and "\<forall>x \<in> set items. id_fn x \<noteq> []"
  shows "follow_pages (Suc (length items)) items [] (normalize_limit n) id_fn = items"
  using follow_pages_all [OF assms, of "normalize_limit n"] normalize_limit_bounds [of n] by simp

lemma pages_cover_listing_witness:
  "follow_pages 4 [''a'', ''b'', ''c''] [] (normalize_limit 2) (\<lambda>x. x) = [''a'', ''b'', ''c'']"
  using pages_cover_listing [of "\<lambda>x. x" "[''a'', ''b'', ''c'']" 2] by (simp add: numeral_eq_Suc)

end
