(* ===== verification/Admin_Templates.thy ===== *)
theory Admin_Templates
  imports Admin_Types Go_Path
begin

text \<open>
  Command templates in \<open>internal/sysplane-center/admin/service.go\<close>: the checks on risk levels,
  schemas and parameters, and the operations that create, read, change, list and resolve
  templates.
\<close>

section \<open>Checks\<close>

definition invalid_arg :: "int \<Rightarrow> string \<Rightarrow> svc_error" where
  "invalid_arg status msg = svc_err status ''INVALID_ARGUMENT'' msg"

definition validate_risk :: "string \<Rightarrow> svc_error option" where
  "validate_risk risk =
     (if risk = risk_readonly \<or> risk = risk_mutating \<or> risk = risk_dangerous then None
      else Some (invalid_arg 400 ''risk_level must be readonly, mutating, or dangerous''))"

definition allow_risk :: "domain \<Rightarrow> string \<Rightarrow> svc_error option" where
  "allow_risk d risk =
     (if d = DomainAdmin then None
      else if risk \<noteq> risk_readonly
           then Some (svc_err 403 ''FORBIDDEN'' ''admin token is required for high-risk actions'')
           else None)"

definition schema_types :: "gany list" where
  "schema_types = [GStr ''string'', GStr ''boolean'', GStr ''integer'', GStr ''number'']"

fun validate_props :: "(string, gany) gomap \<Rightarrow> svc_error option" where
  "validate_props [] = None"
| "validate_props ((name, raw) # props) =
     (case as_map raw of
        None \<Rightarrow> Some (invalid_arg 400 (''params_schema.properties.'' @ name @ '' must be an object''))
      | Some prop \<Rightarrow>
          if gidx prop ''type'' \<in> set schema_types then validate_props props
          else Some (invalid_arg 400 (''unsupported schema type for '' @ name)))"

definition schema_props :: "params \<Rightarrow> params" where
  "schema_props schema = (case as_map (gidx schema ''properties'') of None \<Rightarrow> [] | Some m \<Rightarrow> m)"

definition validate_schema :: "params \<Rightarrow> svc_error option" where
  "validate_schema schema =
     (if schema = [] then Some (invalid_arg 400 ''params_schema is required'')
      else if gidx schema ''type'' \<noteq> GStr ''object''
           then Some (invalid_arg 400 ''params_schema.type must be object'')
           else validate_props (schema_props schema))"

text \<open>The type assertion \<open>propRaw.(map[string]any)\<close> of \<open>validateParams\<close> has no second result: a
  value that is no map panics there.\<close>

datatype check = CheckOk | CheckErr svc_error | CheckPanic

fun check_required :: "params \<Rightarrow> gany list \<Rightarrow> svc_error option" where
  "check_required ps [] = None"
| "check_required ps (GStr name # rest) =
     (if map_of ps name = None
      then Some (invalid_arg 422 (''missing required param '' @ go_quote name))
      else check_required ps rest)"
| "check_required ps (_ # rest) = check_required ps rest"

definition is_number :: "gany \<Rightarrow> bool" where
  "is_number v = (case v of GNum _ \<Rightarrow> True | _ \<Rightarrow> False)"

definition check_value :: "string \<Rightarrow> gany \<Rightarrow> gany \<Rightarrow> svc_error option" where
  "check_value key ty v =
     (let bad = (\<lambda>what. Some (invalid_arg 422 (''param '' @ go_quote key @ '' must be '' @ what))) in
      if ty = GStr ''string'' then (case v of GStr _ \<Rightarrow> None | _ \<Rightarrow> bad ''a string'')
      else if ty = GStr ''boolean'' then (case v of GBool _ \<Rightarrow> None | _ \<Rightarrow> bad ''a boolean'')
      else if ty = GStr ''integer'' then (if is_integer v then None else bad ''an integer'')
      else if ty = GStr ''number'' then (if is_number v \<or> is_integer v then None else bad ''a number'')
      else None)"

fun check_params :: "params \<Rightarrow> bool \<Rightarrow> (string, gany) gomap \<Rightarrow> check" where
  "check_params props additional [] = CheckOk"
| "check_params props additional ((key, v) # ps) =
     (case map_of props key of
        None \<Rightarrow>
          if \<not> additional then CheckErr (invalid_arg 422 (''unexpected param '' @ go_quote key))
          else check_params props additional ps
      | Some raw \<Rightarrow>
          (case as_map raw of
             None \<Rightarrow> CheckPanic
           | Some prop \<Rightarrow>
               (case check_value key (gidx prop ''type'') v of
                  Some e \<Rightarrow> CheckErr e
                | None \<Rightarrow> check_params props additional ps)))"

definition schema_required :: "params \<Rightarrow> gany list" where
  "schema_required schema = (case gidx schema ''required'' of GArr xs \<Rightarrow> xs | _ \<Rightarrow> [])"

definition schema_additional :: "params \<Rightarrow> bool" where
  "schema_additional schema = (case gidx schema ''additionalProperties'' of GBool b \<Rightarrow> b | _ \<Rightarrow> True)"

definition validate_params :: "params \<Rightarrow> params \<Rightarrow> check" where
  "validate_params schema ps =
     (case validate_schema schema of
        Some e \<Rightarrow> CheckErr e
      | None \<Rightarrow>
          (case check_required ps (schema_required schema) of
             Some e \<Rightarrow> CheckErr e
           | None \<Rightarrow> check_params (schema_props schema) (schema_additional schema) ps))"

section \<open>Operations\<close>

definition bad_timeouts :: "int \<Rightarrow> int \<Rightarrow> bool" where
  "bad_timeouts d m \<longleftrightarrow> d \<le> 0 \<or> m \<le> 0 \<or> d > m"

definition timeout_error :: svc_error where
  "timeout_error = invalid_arg 422 ''default_timeout_sec must be > 0 and <= max_timeout_sec''"

definition build_template ::
  "request_meta \<Rightarrow> create_template_request \<Rightarrow> service \<Rightarrow> command_template svc_result \<times> service" where
  "build_template meta req s =
     (if trim_space (ctr_name req) = [] then (Inl (invalid_arg 400 ''name is required''), s)
      else case validate_risk (ctr_risk_level req) of Some e \<Rightarrow> (Inl e, s) | None \<Rightarrow>
      if tx_type (ctr_executor req) \<noteq> ''process''
      then (Inl (invalid_arg 400 ''executor.type must be process''), s)
      else if \<not> is_abs (tx_command (ctr_executor req))
      then (Inl (invalid_arg 400 ''executor.command must be an absolute path''), s)
      else case validate_schema (ctr_params_schema req) of Some e \<Rightarrow> (Inl e, s) | None \<Rightarrow>
      if bad_timeouts (ctr_default_timeout_sec req) (ctr_max_timeout_sec req) then (Inl timeout_error, s)
      else
        let (now, s1) = sv_now s; (i, s2) = sv_fresh_id ''cmdtpl'' s1 in
        (Inr \<lparr>tpl_id = i, tpl_name = ctr_name req, tpl_description = ctr_description req,
           tpl_risk_level = ctr_risk_level req, tpl_target_os = ctr_target_os req,
           tpl_executor = ctr_executor req, tpl_params_schema = clone_map (ctr_params_schema req),
           tpl_default_timeout_sec = ctr_default_timeout_sec req, tpl_max_timeout_sec = ctr_max_timeout_sec req,
           tpl_max_output_bytes = (if ctr_max_output_bytes req \<le> 0 then 256 * 1024 else ctr_max_output_bytes req),
           tpl_enabled = True, tpl_created_by = id_subject (rm_identity meta),
           tpl_created_at = now, tpl_updated_at = now\<rparr>, s2))"

definition admin_required :: svc_error where
  "admin_required = svc_err 403 ''FORBIDDEN'' ''admin token is required''"

definition template_not_found :: svc_error where
  "template_not_found = svc_err 404 ''COMMAND_TEMPLATE_NOT_FOUND'' ''command template not found''"

definition template_audit :: "request_meta \<Rightarrow> command_template \<Rightarrow> string \<Rightarrow> service \<Rightarrow> service" where
  "template_audit meta tpl decision s =
     (let (eid, s1) = sv_fresh_id ''evt'' s; (now, s2) = sv_now s1 in
      s2\<lparr>sv_audits := gupd eid \<lparr>ae_id = eid, ae_request_id = rm_request_id meta, ae_invocation_id = [],
           ae_subject_id = id_subject (rm_identity meta), ae_token_type = domain_str (id_domain (rm_identity meta)),
           ae_source = rm_source meta, ae_action = tpl_name tpl, ae_action_type = action_template,
           ae_target_node_ids = [], ae_risk_level = tpl_risk_level tpl, ae_decision = decision,
           ae_decision_reason = [], ae_created_at = now, ae_finished_at = None\<rparr> (sv_audits s2)\<rparr>)"

definition create_template ::
  "request_meta \<Rightarrow> create_template_request \<Rightarrow> service \<Rightarrow> command_template svc_result \<times> service" where
  "create_template meta0 req s0 =
     (let (meta, s) = normalize_meta meta0 s0 in
      if id_domain (rm_identity meta) \<noteq> DomainAdmin then (Inl admin_required, s)
      else case build_template meta req s of
        (Inl e, s1) \<Rightarrow> (Inl e, s1)
      | (Inr tpl, s1) \<Rightarrow>
          if map_of (sv_template_name_ids s1) (tpl_name tpl) \<noteq> None
          then (Inl (svc_err 409 ''CONFLICT'' ''template name already exists''), s1)
          else (Inr (clone_template tpl),
                template_audit meta tpl ''created''
                  (s1\<lparr>sv_templates := gupd (tpl_id tpl) (clone_template tpl) (sv_templates s1),
                      sv_template_name_ids := gupd (tpl_name tpl) (tpl_id tpl) (sv_template_name_ids s1)\<rparr>)))"

definition get_template :: "string \<Rightarrow> service \<Rightarrow> command_template svc_result" where
  "get_template i s =
     (case map_of (sv_templates s) i of None \<Rightarrow> Inl template_not_found | Some t \<Rightarrow> Inr (clone_template t))"

text \<open>
  \<open>UpdateTemplate\<close> works on the stored template itself, field by field: each step either
  changes it or leaves the function with an error, and what earlier steps wrote stays.
\<close>

definition patch_description :: "update_template_request \<Rightarrow> command_template \<Rightarrow> command_template" where
  "patch_description p t = (case utr_description p of None \<Rightarrow> t | Some d \<Rightarrow> t\<lparr>tpl_description := d\<rparr>)"

definition patch_risk :: "update_template_request \<Rightarrow> command_template \<Rightarrow> svc_error option \<times> command_template" where
  "patch_risk p t =
     (case utr_risk_level p of
        None \<Rightarrow> (None, t)
      | Some r \<Rightarrow> (case validate_risk r of Some e \<Rightarrow> (Some e, t) | None \<Rightarrow> (None, t\<lparr>tpl_risk_level := r\<rparr>)))"

definition patch_schema :: "update_template_request \<Rightarrow> command_template \<Rightarrow> svc_error option \<times> command_template" where
  "patch_schema p t =
     (let t1 = (case utr_target_os p of None \<Rightarrow> t | Some os \<Rightarrow> t\<lparr>tpl_target_os := os\<rparr>) in
      case utr_params_schema p of
        None \<Rightarrow> (None, t1)
      | Some sc \<Rightarrow> (case validate_schema sc of
                    Some e \<Rightarrow> (Some e, t1)
                  | None \<Rightarrow> (None, t1\<lparr>tpl_params_schema := clone_map sc\<rparr>)))"

definition patch_numbers :: "update_template_request \<Rightarrow> command_template \<Rightarrow> command_template" where
  "patch_numbers p t =
     (let t1 = (case utr_default_timeout_sec p of None \<Rightarrow> t | Some n \<Rightarrow> t\<lparr>tpl_default_timeout_sec := n\<rparr>);
          t2 = (case utr_max_timeout_sec p of None \<Rightarrow> t1 | Some n \<Rightarrow> t1\<lparr>tpl_max_timeout_sec := n\<rparr>);
          t3 = (case utr_max_output_bytes p of None \<Rightarrow> t2 | Some n \<Rightarrow> t2\<lparr>tpl_max_output_bytes := n\<rparr>)
      in (case utr_enabled p of None \<Rightarrow> t3 | Some b \<Rightarrow> t3\<lparr>tpl_enabled := b\<rparr>))"

definition patch_template ::
  "update_template_request \<Rightarrow> command_template \<Rightarrow> svc_error option \<times> command_template" where
  "patch_template p t =
     (let t0 = patch_description p t; (e1, t1) = patch_risk p t0 in
      if e1 \<noteq> None then (e1, t1)
      else let (e2, t2) = patch_schema p t1 in
      if e2 \<noteq> None then (e2, t2)
      else let t3 = patch_numbers p t2 in
      if bad_timeouts (tpl_default_timeout_sec t3) (tpl_max_timeout_sec t3)
      then (Some timeout_error, t3) else (None, t3))"

definition update_template ::
  "request_meta \<Rightarrow> string \<Rightarrow> update_template_request \<Rightarrow> service \<Rightarrow> command_template svc_result \<times> service" where
  "update_template meta0 i p s0 =
     (let (meta, s) = normalize_meta meta0 s0 in
      if id_domain (rm_identity meta) \<noteq> DomainAdmin then (Inl admin_required, s)
      else case map_of (sv_templates s) i of
        None \<Rightarrow> (Inl template_not_found, s)
      | Some t \<Rightarrow>
          let (err, t1) = patch_template p t; s1 = s\<lparr>sv_templates := gupd i t1 (sv_templates s)\<rparr> in
          case err of
            Some e \<Rightarrow> (Inl e, s1)
          | None \<Rightarrow>
              let (now, s2) = sv_now s1; t2 = t1\<lparr>tpl_updated_at := now\<rparr>;
                  s3 = s2\<lparr>sv_templates := gupd i t2 (sv_templates s2)\<rparr>
              in (Inr (clone_template t2), template_audit meta t2 ''updated'' s3))"

definition template_matches :: "template_filter \<Rightarrow> command_template \<Rightarrow> bool" where
  "template_matches f t \<longleftrightarrow>
     (tf_name f = [] \<or> str_contains (tpl_name t) (tf_name f)) \<and>
     (case tf_enabled f of None \<Rightarrow> True | Some b \<Rightarrow> tpl_enabled t = b) \<and>
     (tf_risk_level f = [] \<or> tpl_risk_level t = tf_risk_level f) \<and>
     (tf_target_os f = [] \<or> tf_target_os f \<in> set (tpl_target_os t))"

definition list_templates :: "template_filter \<Rightarrow> service \<Rightarrow> command_template list_page" where
  "list_templates f s =
     paginate (newest_first tpl_created_at (map clone_template (filter (template_matches f) (map snd (sv_templates s)))))
       (tf_cursor f) (normalize_limit (tf_limit f)) tpl_id"

definition resolve_template :: "string \<Rightarrow> service \<Rightarrow> command_template svc_result" where
  "resolve_template ref s =
     (case map_of (sv_templates s) ref of
        Some t \<Rightarrow> Inr (clone_template t)
      | None \<Rightarrow>
          (case map_of (sv_template_name_ids s) ref of
             None \<Rightarrow> Inl template_not_found
           | Some i \<Rightarrow> (case map_of (sv_templates s) i of
                          Some t \<Rightarrow> Inr (clone_template t) | None \<Rightarrow> Inl template_not_found)))"

definition matches_target_os :: "string list \<Rightarrow> string \<Rightarrow> bool" where
  "matches_target_os targets os \<longleftrightarrow> targets = [] \<or> os = [] \<or> os \<in> set targets"

text \<open>Rendering of the executor's arguments; \<open>render\<close> is \<open>text/template\<close> with the option
  \<open>missingkey=error\<close>: parse error, execution error, or the text.\<close>

datatype render_result = RenderParseErr string | RenderExecErr string | Rendered string

type_synonym template_engine = "string \<Rightarrow> params \<Rightarrow> render_result"

definition render_string :: "template_engine \<Rightarrow> string \<Rightarrow> params \<Rightarrow> string go_result" where
  "render_string render src ps =
     (case render src ps of
        RenderParseErr e \<Rightarrow> Inl (''invalid executor arg template: '' @ e)
      | RenderExecErr e \<Rightarrow> Inl (''render executor arg: '' @ e)
      | Rendered t \<Rightarrow> Inr t)"

fun render_args :: "template_engine \<Rightarrow> string list \<Rightarrow> params \<Rightarrow> string list go_result" where
  "render_args render [] ps = Inr []"
| "render_args render (a # as) ps =
     (case render_string render a ps of
        Inl e \<Rightarrow> Inl e
      | Inr t \<Rightarrow> (case render_args render as ps of Inl e \<Rightarrow> Inl e | Inr ts \<Rightarrow> Inr (t # ts)))"

definition render_template_command ::
  "template_engine \<Rightarrow> command_template \<Rightarrow> params \<Rightarrow> (string \<times> string list) go_result" where
  "render_template_command render tpl ps =
     (case render_args render (tx_args (tpl_executor tpl)) ps of
        Inl e \<Rightarrow> Inl e
      | Inr args \<Rightarrow> Inr (tx_command (tpl_executor tpl), args))"

section \<open>What the parameter check accepts\<close>

definition value_has_type :: "gany \<Rightarrow> gany \<Rightarrow> bool" where
  "value_has_type ty v \<longleftrightarrow>
     (ty = GStr ''string'' \<longrightarrow> (\<exists>s. v = GStr s)) \<and>
     (ty = GStr ''boolean'' \<longrightarrow> (\<exists>b. v = GBool b)) \<and>
     (ty = GStr ''integer'' \<longrightarrow> (\<exists>n. in_int64 n \<and> v = GNum (of_int n))) \<and>
     (ty = GStr ''number'' \<longrightarrow> (\<exists>x. v = GNum x))"

definition schema_valid :: "params \<Rightarrow> bool" where
  "schema_valid schema \<longleftrightarrow> gidx schema ''type'' = GStr ''object'' \<and>
     (\<forall>(name, raw) \<in> set (schema_props schema).
        \<exists>prop. raw = GMap prop \<and>
          gidx prop ''type'' \<in> {GStr ''string'', GStr ''boolean'', GStr ''integer'', GStr ''number''})"

definition params_conform :: "params \<Rightarrow> params \<Rightarrow> bool" where
  "params_conform schema ps \<longleftrightarrow>
     (\<forall>name. GStr name \<in> set (schema_required schema) \<longrightarrow> name \<in> set (gkeys ps)) \<and>
     (\<forall>(key, v) \<in> set ps.
        case map_of (schema_props schema) key of
          None \<Rightarrow> schema_additional schema
        | Some raw \<Rightarrow> (\<exists>prop. raw = GMap prop \<and> value_has_type (gidx prop ''type'') v))"

lemma validate_props_None:
  "validate_props props = None \<longleftrightarrow>
     (\<forall>(name, raw) \<in> set props. \<exists>prop. raw = GMap prop \<and> gidx prop ''type'' \<in> set schema_types)"
  by (induction props rule: validate_props.induct)
    (auto simp: as_map_Some_iff split: option.splits gany.splits simp: as_map_def)

lemma validate_schema_None: "validate_schema schema = None \<longleftrightarrow> schema_valid schema"
  by (auto simp: validate_schema_def validate_props_None schema_valid_def schema_types_def gidx_def)

lemma check_value_None: "check_value key ty v = None \<longleftrightarrow> value_has_type ty v"
  by (cases v) (auto simp: check_value_def value_has_type_def Let_def is_integer_iff is_number_def)

lemma check_required_None:
  "check_required ps rs = None \<longleftrightarrow> (\<forall>name. GStr name \<in> set rs \<longrightarrow> name \<in> set (gkeys ps))"
  by (induction ps rs rule: check_required.induct) (auto simp: map_of_eq_None_iff)

lemma check_params_Ok:
  "check_params props additional ps = CheckOk \<longleftrightarrow>
     (\<forall>(key, v) \<in> set ps. case map_of props key of None \<Rightarrow> additional
        | Some raw \<Rightarrow> (\<exists>prop. raw = GMap prop \<and> value_has_type (gidx prop ''type'') v))"
proof (induction ps rule: list.induct)
  case Nil
  then show ?case by simp
next
  case (Cons kv ps)
  obtain key v where kv: "kv = (key, v)" by (cases kv)
  show ?case
  proof (cases "map_of props key")
    case None
    then show ?thesis using Cons kv by (cases additional) simp_all
  next
    case (Some raw)
    show ?thesis
    proof (cases "as_map raw")
      case None
      then show ?thesis using Some kv by (auto simp: as_map_def split: gany.splits)
    next
      case (Some pr)
      then have "raw = GMap pr" by (simp add: as_map_Some_iff)
      with \<open>map_of props key = Some raw\<close> Cons kv check_value_None [of key "gidx pr ''type''" v] Some
      show ?thesis by (cases "check_value key (gidx pr ''type'') v") auto
    qed
  qed
qed

lemma check_params_no_panic:
  assumes "\<forall>(name, raw) \<in> set props. \<exists>prop. raw = GMap prop"
  shows "check_params props additional ps \<noteq> CheckPanic"
proof (induction ps rule: list.induct)
  case Nil
  then show ?case by simp
next
  case (Cons kv ps)
  obtain key v where kv: "kv = (key, v)" by (cases kv)
  show ?case
  proof (cases "map_of props key")
    case None
    then show ?thesis using Cons kv by (cases additional) simp_all
  next
    case (Some raw)
    with assms obtain pr where "raw = GMap pr" by (blast dest: map_of_SomeD)
    with Some Cons kv show ?thesis by (simp add: as_map_def split: option.split)
  qed
qed

lemma validate_params_accepts:
  "(validate_params schema ps = CheckOk \<longleftrightarrow> schema_valid schema \<and> params_conform schema ps) \<and>
   validate_params schema ps \<noteq> CheckPanic"
proof (cases "validate_schema schema")
  case (Some e)
  then show ?thesis using validate_schema_None [of schema] by (auto simp: validate_params_def)
next
  case None
  then have valid: "schema_valid schema" by (simp add: validate_schema_None)
  then have "\<forall>(name, raw) \<in> set (schema_props schema). \<exists>prop. raw = GMap prop"
    by (auto simp: schema_valid_def)
  note no_panic = check_params_no_panic [OF this]
  show ?thesis
  proof (cases "check_required ps (schema_required schema)")
    case (Some e)
    with check_required_None [of ps "schema_required schema"] have "\<not> params_conform schema ps"
      unfolding params_conform_def by (metis option.distinct(1))
    with Some None show ?thesis by (simp add: validate_params_def)
  next
    case req: None
    then have "params_conform schema ps \<longleftrightarrow>
        check_params (schema_props schema) (schema_additional schema) ps = CheckOk"
      unfolding params_conform_def check_params_Ok check_required_None by blast
    with req None valid no_panic show ?thesis by (simp add: validate_params_def)
  qed
qed

text \<open>C22: The parameter check accepts exactly the parameters that conform to a valid schema:
  every required name is there, every declared parameter has its type (an integer being a
  whole number of 64 bits), and undeclared ones only where the schema allows them.  Its
  unchecked type assertion never panics.\<close>

theorem validate_params_exact:
  "(validate_params schema ps = CheckOk \<longleftrightarrow> schema_valid schema \<and> params_conform schema ps) \<and>
   validate_params schema ps \<noteq> CheckPanic"
  by (rule validate_params_accepts)

section \<open>Fresh identifiers\<close>

text \<open>The process has handed out \<open>n\<close> identifiers, the ones in use are among them.\<close>

definition used_ids :: "service \<Rightarrow> string set" where
  "used_ids s = set (gkeys (sv_templates s)) \<union> set (gkeys (sv_invocations s)) \<union> set (gkeys (sv_audits s))"

definition ids_issued :: "nat \<Rightarrow> service \<Rightarrow> bool" where
  "ids_issued n s \<longleftrightarrow> w_counter (sv_world s) = of_nat n \<and>
     (\<forall>i \<in> used_ids s. \<exists>k. 1 \<le> k \<and> k \<le> n \<and> id_counter i = dec_of_nat k)"

lemma fresh_counter:
  assumes "ids_issued n s" and "n + 1 < 2 ^ 64"
  shows "id_counter (fst (sv_fresh_id p s)) = dec_of_nat (Suc n)"
    and "w_counter (sv_world (snd (sv_fresh_id p s))) = of_nat (Suc n)"
proof -
  have c: "w_counter (sv_world s) + 1 = of_nat (Suc n)" using assms(1) by (simp add: ids_issued_def)
  have "unat (of_nat (Suc n) :: 64 word) = Suc n" using assms(2) by (simp add: unat_of_nat del: of_nat_Suc)
  moreover obtain i w where new: "new_request_id p (sv_world s) = (i, w)" by fastforce
  ultimately show "id_counter (fst (sv_fresh_id p s)) = dec_of_nat (Suc n)"
    using c id_counter_new [of p "sv_world s"] by (simp add: sv_fresh_id_def del: of_nat_Suc)
  show "w_counter (sv_world (snd (sv_fresh_id p s))) = of_nat (Suc n)"
    using c w_counter_new [of p "sv_world s"] new by (simp add: sv_fresh_id_def del: of_nat_Suc)
qed

lemma sv_fresh_id_other [simp]:
  "sv_templates (snd (sv_fresh_id p s)) = sv_templates s" "sv_invocations (snd (sv_fresh_id p s)) = sv_invocations s"
  "sv_audits (snd (sv_fresh_id p s)) = sv_audits s" "sv_template_name_ids (snd (sv_fresh_id p s)) = sv_template_name_ids s"
  "sv_results (snd (sv_fresh_id p s)) = sv_results s" "sv_audit_by_invoke (snd (sv_fresh_id p s)) = sv_audit_by_invoke s"
  "sv_cancel_fns (snd (sv_fresh_id p s)) = sv_cancel_fns s" "sv_canceled (snd (sv_fresh_id p s)) = sv_canceled s"
  by (simp_all add: sv_fresh_id_def split: prod.splits)

lemma sv_now_other [simp]:
  "sv_templates (snd (sv_now s)) = sv_templates s" "sv_invocations (snd (sv_now s)) = sv_invocations s"
  "sv_audits (snd (sv_now s)) = sv_audits s" "sv_template_name_ids (snd (sv_now s)) = sv_template_name_ids s"
  "sv_results (snd (sv_now s)) = sv_results s" "sv_audit_by_invoke (snd (sv_now s)) = sv_audit_by_invoke s"
  "sv_cancel_fns (snd (sv_now s)) = sv_cancel_fns s" "sv_canceled (snd (sv_now s)) = sv_canceled s"
  "w_counter (sv_world (snd (sv_now s))) = w_counter (sv_world s)"
  by (simp_all add: sv_now_def time_now_def Let_def)

lemma used_ids_world [simp]: "used_ids (snd (sv_fresh_id p s)) = used_ids s" "used_ids (snd (sv_now s)) = used_ids s"
  by (simp_all add: used_ids_def)

lemma ids_issued_now [simp]: "ids_issued n (snd (sv_now s)) = ids_issued n s"
  by (simp add: ids_issued_def)

lemma fresh_unused:
  assumes "ids_issued n s" and "n + 1 < 2 ^ 64"
  shows "fst (sv_fresh_id p s) \<notin> used_ids s"
proof
  assume "fst (sv_fresh_id p s) \<in> used_ids s"
  with assms(1) obtain k where "k \<le> n" "id_counter (fst (sv_fresh_id p s)) = dec_of_nat k"
    by (auto simp: ids_issued_def)
  with fresh_counter(1) [OF assms, of p] show False by (auto dest: dec_of_nat_inj)
qed

lemma ids_issued_fresh:
  assumes "ids_issued n s" and "n + 1 < 2 ^ 64"
  shows "ids_issued (Suc n) (snd (sv_fresh_id p s))"
proof -
  have "\<exists>k. 1 \<le> k \<and> k \<le> Suc n \<and> id_counter i = dec_of_nat k" if "i \<in> used_ids s" for i
    using assms(1) that by (meson ids_issued_def le_SucI)
  with fresh_counter(2) [OF assms, of p] show ?thesis by (simp add: ids_issued_def)
qed

text \<open>Storing something under an identifier that has been issued.\<close>

lemma ids_issued_store:
  assumes "ids_issued n s" and "used_ids s' \<subseteq> insert i (used_ids s)" and "w_counter (sv_world s') = w_counter (sv_world s)"
    and "id_counter i = dec_of_nat k" and "1 \<le> k" and "k \<le> n"
  shows "ids_issued n s'"
  unfolding ids_issued_def
proof (intro conjI ballI)
  show "w_counter (sv_world s') = of_nat n" using assms(1,3) by (simp add: ids_issued_def)
  fix j assume "j \<in> used_ids s'"
  with assms(2) have "j = i \<or> j \<in> used_ids s" by blast
  with assms(1,4-6) show "\<exists>k. 1 \<le> k \<and> k \<le> n \<and> id_counter j = dec_of_nat k"
    by (auto simp: ids_issued_def)
qed

section \<open>The invariant of the template store\<close>

definition template_ok :: "command_template \<Rightarrow> bool" where
  "template_ok t \<longleftrightarrow> validate_risk (tpl_risk_level t) = None \<and> schema_valid (tpl_params_schema t) \<and>
     tx_type (tpl_executor t) = ''process'' \<and> is_abs (tx_command (tpl_executor t)) \<and> trim_space (tpl_name t) \<noteq> []"

definition templates_inv :: "service \<Rightarrow> bool" where
  "templates_inv s \<longleftrightarrow>
     (\<forall>i t. map_of (sv_templates s) i = Some t \<longrightarrow>
        tpl_id t = i \<and> template_ok t \<and> map_of (sv_template_name_ids s) (tpl_name t) = Some i) \<and>
     (\<forall>n i. map_of (sv_template_name_ids s) n = Some i \<longrightarrow>
        (\<exists>t. map_of (sv_templates s) i = Some t \<and> tpl_name t = n))"

lemma templates_inv_cong:
  "sv_templates s' = sv_templates s \<Longrightarrow> sv_template_name_ids s' = sv_template_name_ids s \<Longrightarrow>
   templates_inv s' = templates_inv s"
  by (simp add: templates_inv_def)

lemma template_audit_other [simp]:
  "sv_templates (template_audit m t d s) = sv_templates s"
  "sv_template_name_ids (template_audit m t d s) = sv_template_name_ids s"
  by (simp_all add: template_audit_def Let_def case_prod_unfold)

lemma template_audit_ids:
  assumes "ids_issued n s" and "n + 1 < 2 ^ 64"
  shows "ids_issued (Suc n) (template_audit m t d s)"
proof -
  let ?s1 = "snd (sv_fresh_id ''evt'' s)"
  have "ids_issued (Suc n) (snd (sv_now ?s1))" using ids_issued_fresh [OF assms] by simp
  then show ?thesis
    by (rule ids_issued_store [where i = "fst (sv_fresh_id ''evt'' s)" and k = "Suc n"])
      (auto simp: template_audit_def Let_def case_prod_unfold used_ids_def fresh_counter [OF assms] dom_update simp flip: map_of_gupd)
qed

lemma normalize_meta_other [simp]:
  "sv_templates (snd (normalize_meta m s)) = sv_templates s"
  "sv_template_name_ids (snd (normalize_meta m s)) = sv_template_name_ids s"
  "sv_invocations (snd (normalize_meta m s)) = sv_invocations s"
  "sv_results (snd (normalize_meta m s)) = sv_results s"
  "sv_audits (snd (normalize_meta m s)) = sv_audits s"
  "sv_audit_by_invoke (snd (normalize_meta m s)) = sv_audit_by_invoke s"
  "sv_cancel_fns (snd (normalize_meta m s)) = sv_cancel_fns s"
  "sv_canceled (snd (normalize_meta m s)) = sv_canceled s"
  "rm_identity (fst (normalize_meta m s)) = rm_identity m"
  by (simp_all add: normalize_meta_def Let_def case_prod_unfold)

lemma normalize_meta_ids:
  assumes "ids_issued n s" and "n + 1 < 2 ^ 64"
  shows "\<exists>k \<le> 1. ids_issued (n + k) (snd (normalize_meta m s))"
proof (cases "rm_request_id m = []")
  case True
  then show ?thesis using ids_issued_fresh [OF assms, of "''api''"]
    by (intro exI [where x = 1]) (simp add: normalize_meta_def Let_def case_prod_unfold)
next
  case False
  then show ?thesis using assms(1)
    by (intro exI [where x = 0]) (simp add: normalize_meta_def Let_def)
qed

lemma patch_template_keeps:
  assumes "patch_template p t = (err, t')" and "template_ok t"
  shows "template_ok t' \<and> tpl_id t' = tpl_id t \<and> tpl_name t' = tpl_name t"
proof -
  obtain e1 t1 where 1: "patch_risk p (patch_description p t) = (e1, t1)" by fastforce
  obtain e2 t2 where 2: "patch_schema p t1 = (e2, t2)" by fastforce
  have r1: "template_ok t1 \<and> tpl_id t1 = tpl_id t \<and> tpl_name t1 = tpl_name t"
    using 1 assms(2)
    by (auto simp: patch_risk_def patch_description_def template_ok_def split: option.splits)
  have r2: "template_ok t2 \<and> tpl_id t2 = tpl_id t1 \<and> tpl_name t2 = tpl_name t1"
    using 2 r1
    by (auto simp: patch_schema_def Let_def template_ok_def validate_schema_None split: option.splits)
  have r3: "template_ok (patch_numbers p u) = template_ok u \<and> tpl_id (patch_numbers p u) = tpl_id u
      \<and> tpl_name (patch_numbers p u) = tpl_name u" for u
    by (auto simp: patch_numbers_def Let_def template_ok_def split: option.splits)
  show ?thesis using assms(1) r1 r2 r3 [of t2]
    by (auto simp: patch_template_def Let_def 1 2 split: if_splits)
qed

lemma build_template_ok:
  assumes "build_template meta req s = (Inr t, s')"
  shows "template_ok t \<and> tpl_name t = ctr_name req \<and> tpl_id t = fst (sv_fresh_id ''cmdtpl'' (snd (sv_now s))) \<and>
    s' = snd (sv_fresh_id ''cmdtpl'' (snd (sv_now s))) \<and>
    \<not> bad_timeouts (tpl_default_timeout_sec t) (tpl_max_timeout_sec t) \<and> tpl_enabled t \<and> 0 < tpl_max_output_bytes t"
  using assms
  by (auto simp: build_template_def template_ok_def validate_schema_None Let_def case_prod_unfold
      split: if_splits option.splits)

lemma build_template_fail:
  "build_template meta req s = (Inl e, s') \<Longrightarrow> s' = s"
  by (auto simp: build_template_def Let_def case_prod_unfold split: if_splits option.splits)

text \<open>The writes of a creation: the template under an unused identifier and its free name.\<close>

lemma templates_inv_add:
  assumes inv: "templates_inv s" and t: "template_ok t"
    and new: "map_of (sv_templates s) (tpl_id t) = None" and name: "map_of (sv_template_name_ids s) (tpl_name t) = None"
  shows "templates_inv (s\<lparr>sv_templates := gupd (tpl_id t) t (sv_templates s),
     sv_template_name_ids := gupd (tpl_name t) (tpl_id t) (sv_template_name_ids s)\<rparr>)"
  using assms unfolding templates_inv_def
  by (auto split: if_splits) (metis option.distinct(1))+

lemma templates_inv_put:
  assumes inv: "templates_inv s" and old: "map_of (sv_templates s) i = Some t"
    and t': "template_ok t'" "tpl_id t' = tpl_id t" "tpl_name t' = tpl_name t"
  shows "templates_inv (s\<lparr>sv_templates := gupd i t' (sv_templates s)\<rparr>)"
  using assms unfolding templates_inv_def
  by (auto split: if_splits) (metis option.inject)+

text \<open>What template operations leave alone for invocations.\<close>

definition svc_keeps :: "service \<Rightarrow> service \<Rightarrow> bool" where
  "svc_keeps s s' \<longleftrightarrow> sv_invocations s' = sv_invocations s \<and> sv_results s' = sv_results s \<and>
     sv_audit_by_invoke s' = sv_audit_by_invoke s \<and> sv_cancel_fns s' = sv_cancel_fns s \<and> sv_canceled s' = sv_canceled s \<and>
     (\<forall>i e. map_of (sv_audits s) i = Some e \<longrightarrow> map_of (sv_audits s') i = Some e)"

lemma svc_keeps_refl [simp]: "svc_keeps s s"
  by (simp add: svc_keeps_def)

lemma svc_keeps_trans: "svc_keeps s t \<Longrightarrow> svc_keeps t u \<Longrightarrow> svc_keeps s u"
  by (simp add: svc_keeps_def)

lemma svc_keeps_meta: "svc_keeps s (snd (normalize_meta m s))"
  by (simp add: svc_keeps_def)

lemma svc_keeps_templates [simp]:
  "svc_keeps s (t\<lparr>sv_templates := m\<rparr>) = svc_keeps s t" "svc_keeps s (t\<lparr>sv_template_name_ids := m2\<rparr>) = svc_keeps s t"
  "svc_keeps s (snd (sv_now t)) = svc_keeps s t" "svc_keeps s (snd (sv_fresh_id p t)) = svc_keeps s t"
  by (simp_all add: svc_keeps_def)

lemma template_audit_keeps:
  assumes "ids_issued n s" and "n + 1 < 2 ^ 64"
  shows "svc_keeps s (template_audit m t d s)"
proof -
  have "map_of (sv_audits s) (fst (sv_fresh_id ''evt'' s)) = None"
    using fresh_unused [OF assms, of "''evt''"] by (simp add: used_ids_def map_of_eq_None_iff)
  then show ?thesis
    by (auto simp: svc_keeps_def template_audit_def Let_def case_prod_unfold)
qed

lemma templates_inv_create:
  assumes inv: "templates_inv s" and ids: "ids_issued n s" and n: "n + 3 < 2 ^ 64"
  shows "templates_inv (snd (create_template meta req s)) \<and>
    (\<exists>k \<le> 3. ids_issued (n + k) (snd (create_template meta req s))) \<and> svc_keeps s (snd (create_template meta req s))"
proof -
  obtain m s0 where m: "normalize_meta meta s = (m, s0)" by fastforce
  obtain k0 where k0: "k0 \<le> 1" "ids_issued (n + k0) s0"
    using normalize_meta_ids [OF ids, of meta] n m by auto
  have s0: "sv_templates s0 = sv_templates s" "sv_template_name_ids s0 = sv_template_name_ids s"
    using normalize_meta_other [of meta s] unfolding m by simp_all
  then have inv0: "templates_inv s0" using inv templates_inv_cong by metis
  have kept0: "svc_keeps s s0" using svc_keeps_meta [of s meta] m by simp
  then have base: "templates_inv s0 \<and> (\<exists>k \<le> 3. ids_issued (n + k) s0) \<and> svc_keeps s s0"
    using inv0 k0 by (intro conjI exI [where x = k0]) simp_all
  show ?thesis
  proof (cases "id_domain (rm_identity m) = DomainAdmin")
    case False
    with base m show ?thesis by (simp add: create_template_def)
  next
    case admin: True
    obtain r s1 where b: "build_template m req s0 = (r, s1)" by fastforce
    show ?thesis
    proof (cases r)
      case (Inl e)
      with b build_template_fail have "s1 = s0" by blast
      with base m admin b Inl show ?thesis by (simp add: create_template_def)
    next
      case (Inr t)
      note ok = build_template_ok [OF b [unfolded Inr]]
      let ?s = "snd (sv_now s0)"
      have i0: "ids_issued (n + k0) ?s" using k0 by simp
      have n0: "n + k0 + 1 < 2 ^ 64" using k0 n by simp
      have ids1: "ids_issued (Suc (n + k0)) s1" using ids_issued_fresh [OF i0 n0] ok by simp
      have s1: "sv_templates s1 = sv_templates s0" "sv_template_name_ids s1 = sv_template_name_ids s0" using ok by simp_all
      then have inv1: "templates_inv s1" using inv0 templates_inv_cong by metis
      show ?thesis
      proof (cases "map_of (sv_template_name_ids s1) (tpl_name t)")
        case (Some j)
        then have res: "snd (create_template meta req s) = s1"
          using m admin b Inr by (simp add: create_template_def)
        have "ids_issued (n + Suc k0) s1" using ids1 by simp
        moreover have "svc_keeps s s1" using ok kept0 by simp
        ultimately show ?thesis unfolding res using inv1 k0 by (intro conjI exI [where x = "Suc k0"]) simp_all
      next
        case None
        let ?s2 = "s1\<lparr>sv_templates := gupd (tpl_id t) t (sv_templates s1),
            sv_template_name_ids := gupd (tpl_name t) (tpl_id t) (sv_template_name_ids s1)\<rparr>"
        have "tpl_id t \<notin> used_ids s0" using fresh_unused [OF i0 n0, of "''cmdtpl''"] ok by simp
        then have new: "map_of (sv_templates s1) (tpl_id t) = None"
          by (simp add: s1 used_ids_def map_of_eq_None_iff)
        have inv2: "templates_inv ?s2" using inv1 ok new None by (intro templates_inv_add) simp_all
        have ids2: "ids_issued (Suc (n + k0)) ?s2"
          using ids1 fresh_counter(1) [OF i0 n0, of "''cmdtpl''"] ok
          by (intro ids_issued_store [OF ids1, where i = "tpl_id t" and k = "Suc (n + k0)"])
            (auto simp: used_ids_def dom_update simp flip: map_of_gupd)
        have "ids_issued (Suc (Suc (n + k0))) (template_audit m t ''created'' ?s2)"
          using ids2 k0 n by (intro template_audit_ids) simp_all
        then have ids3: "ids_issued (n + (k0 + 2)) (template_audit m t ''created'' ?s2)" by simp
        have inv3: "templates_inv (template_audit m t ''created'' ?s2)"
          using inv2 by (subst templates_inv_cong [of _ ?s2]) simp_all
        have res: "snd (create_template meta req s) = template_audit m t ''created'' ?s2"
          using m admin b Inr None by (simp add: create_template_def)
        have room: "Suc (n + k0) + 1 < 2 ^ 64" using k0(1) n by linarith
        have "svc_keeps s ?s2" using ok kept0 by simp
        moreover have "svc_keeps ?s2 (template_audit m t ''created'' ?s2)"
          using ids2 room by (rule template_audit_keeps)
        ultimately have "svc_keeps s (template_audit m t ''created'' ?s2)" by (rule svc_keeps_trans)
        then show ?thesis unfolding res using inv3 ids3 k0 by (intro conjI exI [where x = "k0 + 2"]) simp_all
      qed
    qed
  qed
qed

lemma templates_inv_update:
  assumes inv: "templates_inv s" and ids: "ids_issued n s" and n: "n + 3 < 2 ^ 64"
  shows "templates_inv (snd (update_template meta i p s)) \<and>
    (\<exists>k \<le> 3. ids_issued (n + k) (snd (update_template meta i p s))) \<and> svc_keeps s (snd (update_template meta i p s))"
proof -
  obtain m s0 where m: "normalize_meta meta s = (m, s0)" by fastforce
  obtain k0 where k0: "k0 \<le> 1" "ids_issued (n + k0) s0"
    using normalize_meta_ids [OF ids, of meta] n m by auto
  have s0: "sv_templates s0 = sv_templates s" "sv_template_name_ids s0 = sv_template_name_ids s"
    using normalize_meta_other [of meta s] unfolding m by simp_all
  then have inv0: "templates_inv s0" using inv templates_inv_cong by metis
  have kept0: "svc_keeps s s0" using svc_keeps_meta [of s meta] m by simp
  then have base: "templates_inv s0 \<and> (\<exists>k \<le> 3. ids_issued (n + k) s0) \<and> svc_keeps s s0"
    using inv0 k0 by (intro conjI exI [where x = k0]) simp_all
  show ?thesis
  proof (cases "id_domain (rm_identity m) = DomainAdmin \<and> map_of (sv_templates s0) i \<noteq> None")
    case False
    with base m show ?thesis by (auto simp: update_template_def split: option.splits)
  next
    case True
    then obtain t where t: "map_of (sv_templates s0) i = Some t" and admin: "id_domain (rm_identity m) = DomainAdmin"
      by auto
    obtain err t1 where pt: "patch_template p t = (err, t1)" by fastforce
    have t_ok: "template_ok t" using inv0 t by (simp add: templates_inv_def)
    note keep = patch_template_keeps [OF pt t_ok]
    let ?s1 = "s0\<lparr>sv_templates := gupd i t1 (sv_templates s0)\<rparr>"
    have inv1: "templates_inv ?s1" using inv0 t keep by (intro templates_inv_put) simp_all
    have dom: "used_ids (s'\<lparr>sv_templates := gupd i u (sv_templates s')\<rparr>) = used_ids s'"
      if "map_of (sv_templates s') i \<noteq> None" for s' u
      using that by (auto simp: used_ids_def dom_update map_of_eq_None_iff simp flip: map_of_gupd)
    have ids1: "ids_issued (n + k0) ?s1" using k0 dom [of s0 t1] t by (simp add: ids_issued_def)
    show ?thesis
    proof (cases err)
      case (Some e)
      then have res: "snd (update_template meta i p s) = ?s1"
        using m admin t pt by (simp add: update_template_def Let_def)
      show ?thesis unfolding res using inv1 ids1 k0 kept0 by (intro conjI exI [where x = k0]) simp_all
    next
      case None
      let ?s2 = "snd (sv_now ?s1)" and ?t2 = "t1\<lparr>tpl_updated_at := fst (sv_now ?s1)\<rparr>"
      let ?s3 = "?s2\<lparr>sv_templates := gupd i ?t2 (sv_templates ?s2)\<rparr>"
      have inv2: "templates_inv ?s2" using inv1 by (subst templates_inv_cong [of _ ?s1]) simp_all
      have "map_of (sv_templates ?s2) i = Some t1" by simp
      moreover from keep have t2_ok: "template_ok ?t2" by (auto simp: template_ok_def)
      ultimately have inv3: "templates_inv ?s3"
        using inv2 t2_ok by (intro templates_inv_put [where t = t1]) simp_all
      have ids3: "ids_issued (n + k0) ?s3"
        using ids1 dom [of ?s2 ?t2] by (simp add: ids_issued_def)
      have "ids_issued (Suc (n + k0)) (template_audit m ?t2 ''updated'' ?s3)"
        using ids3 k0 n by (intro template_audit_ids) simp_all
      then have ids4: "ids_issued (n + Suc k0) (template_audit m ?t2 ''updated'' ?s3)" by simp
      have inv4: "templates_inv (template_audit m ?t2 ''updated'' ?s3)"
        using inv3 by (subst templates_inv_cong [of _ ?s3]) simp_all
      have res: "snd (update_template meta i p s) = template_audit m ?t2 ''updated'' ?s3"
        using m admin t pt None by (simp add: update_template_def Let_def case_prod_unfold)
      have room: "n + k0 + 1 < 2 ^ 64" using k0(1) n by linarith
      have "svc_keeps s ?s3" using kept0 by simp
      moreover have "svc_keeps ?s3 (template_audit m ?t2 ''updated'' ?s3)"
        using ids3 room by (rule template_audit_keeps)
      ultimately have "svc_keeps s (template_audit m ?t2 ''updated'' ?s3)" by (rule svc_keeps_trans)
      then show ?thesis unfolding res using inv4 ids4 k0 by (intro conjI exI [where x = "Suc k0"]) simp_all
    qed
  qed
qed

datatype template_op =
    OpCreate request_meta create_template_request
  | OpUpdate request_meta string update_template_request

fun run_template_ops :: "template_op list \<Rightarrow> service \<Rightarrow> service" where
  "run_template_ops [] s = s"
| "run_template_ops (OpCreate m r # ops) s = run_template_ops ops (snd (create_template m r s))"
| "run_template_ops (OpUpdate m i p # ops) s = run_template_ops ops (snd (update_template m i p s))"

lemma run_template_ops_inv:
  "templates_inv s \<Longrightarrow> ids_issued n s \<Longrightarrow> n + 3 * length ops + 3 < 2 ^ 64 \<Longrightarrow> templates_inv (run_template_ops ops s)"
proof (induction ops arbitrary: s n)
  case Nil
  then show ?case by simp
next
  case (Cons opn ops)
  have n: "n + 3 < 2 ^ 64" using Cons.prems(3) by simp
  obtain s' where s': "run_template_ops (opn # ops) s = run_template_ops ops s'"
    and inv': "templates_inv s' \<and> (\<exists>k \<le> 3. ids_issued (n + k) s')"
    using templates_inv_create [OF Cons.prems(1,2) n] templates_inv_update [OF Cons.prems(1,2) n]
    by (cases opn) auto
  then obtain k where "k \<le> 3" "ids_issued (n + k) s'" "templates_inv s'" by blast
  with Cons.IH [of s' "n + k"] Cons.prems(3) s' show ?case by simp
qed

section \<open>Properties of the operations\<close>


text \<open>Only an admin token changes templates: for any other caller creation and update are
  refused with 403 and leave all templates and names as they are.\<close>

theorem templates_admin_only:
  assumes "id_domain (rm_identity meta) \<noteq> DomainAdmin"
  shows "fst (create_template meta req s) = Inl admin_required \<and>
         fst (update_template meta i p s) = Inl admin_required \<and>
         sv_templates (snd (create_template meta req s)) = sv_templates s \<and>
         sv_templates (snd (update_template meta i p s)) = sv_templates s \<and>
         sv_template_name_ids (snd (create_template meta req s)) = sv_template_name_ids s"
proof -
  obtain m s0 where m: "normalize_meta meta s = (m, s0)" by fastforce
  have "rm_identity m = rm_identity meta" "sv_templates s0 = sv_templates s" "sv_template_name_ids s0 = sv_template_name_ids s"
    using normalize_meta_other [of meta s] unfolding m by simp_all
  with assms m show ?thesis by (simp add: create_template_def update_template_def)
qed

definition admin_meta :: request_meta where
  "admin_meta = \<lparr>rm_request_id = ''r'', rm_source = ''api'',
     rm_identity = \<lparr>id_domain = DomainAdmin, id_subject = ''admin_01'', id_fingerprint = ''f''\<rparr>\<rparr>"

definition client_meta :: request_meta where
  "client_meta = admin_meta\<lparr>rm_identity := \<lparr>id_domain = DomainClient, id_subject = ''client_01'', id_fingerprint = ''g''\<rparr>\<rparr>"

definition empty_patch :: update_template_request where
  "empty_patch = \<lparr>utr_description = None, utr_risk_level = None, utr_target_os = None, utr_params_schema = None,
     utr_default_timeout_sec = None, utr_max_timeout_sec = None, utr_max_output_bytes = None, utr_enabled = None\<rparr>"

definition toy_world :: world where
  "toy_world = \<lparr>w_clock = int, w_tick = 0, w_counter = 0\<rparr>"

definition sample_template :: command_template where
  "sample_template = \<lparr>tpl_id = ''t1'', tpl_name = ''disk'', tpl_description = [], tpl_risk_level = risk_readonly,
     tpl_target_os = [''linux''], tpl_executor = \<lparr>tx_type = ''process'', tx_command = ''/bin/df'', tx_args = []\<rparr>,
     tpl_params_schema = [(''type'', GStr ''object'')], tpl_default_timeout_sec = 10, tpl_max_timeout_sec = 30,
     tpl_max_output_bytes = 4096, tpl_enabled = True, tpl_created_by = ''admin_01'', tpl_created_at = 0, tpl_updated_at = 0\<rparr>"

definition sample_service :: service where
  "sample_service = (new_service toy_world)\<lparr>sv_templates := [(''t1'', sample_template)], sv_template_name_ids := [(''disk'', ''t1'')]\<rparr>"

definition sample_create :: create_template_request where
  "sample_create = \<lparr>ctr_name = ''disk'', ctr_description = [], ctr_risk_level = risk_readonly, ctr_target_os = [],
     ctr_executor = \<lparr>tx_type = ''process'', tx_command = ''/bin/df'', tx_args = []\<rparr>,
     ctr_params_schema = [(''type'', GStr ''object'')], ctr_default_timeout_sec = 10,
     ctr_max_timeout_sec = 30, ctr_max_output_bytes = 0\<rparr>"

lemma sample_create_accepted: "\<exists>t. fst (build_template m sample_create s) = Inr t"
proof -
  have ts: "trim_space ''disk'' = ''disk''"
    by (rule trim_space_visible) (simp_all add: visible_char_def)
  show ?thesis
    by (simp add: sample_create_def build_template_def ts validate_risk_def is_abs_def has_prefix_def validate_schema_def gidx_def
        schema_props_def as_map_def bad_timeouts_def Let_def case_prod_unfold)
qed


lemma templates_admin_only_witness:
  "fst (update_template client_meta ''t1'' (empty_patch\<lparr>utr_enabled := Some False\<rparr>) sample_service) = Inl admin_required"
  using templates_admin_only [of client_meta undefined sample_service "''t1''" "empty_patch\<lparr>utr_enabled := Some False\<rparr>"]
  by (simp add: client_meta_def)

text \<open>A rejected update is not rolled back: a patch with a new description and a default
  timeout of zero is answered 422, and afterwards the stored template has both.\<close>

theorem rejected_update_leaves_changes:
  "let (res, s) = update_template admin_meta ''t1''
         (empty_patch\<lparr>utr_description := Some ''new'', utr_default_timeout_sec := Some 0\<rparr>) sample_service
   in res = Inl timeout_error \<and>
      map_option (\<lambda>t. (tpl_description t, tpl_default_timeout_sec t)) (map_of (sv_templates s) ''t1'') = Some (''new'', 0)"
  by (simp add: update_template_def normalize_meta_def admin_meta_def sample_service_def sample_template_def
      patch_template_def patch_description_def patch_risk_def patch_schema_def patch_numbers_def empty_patch_def
      bad_timeouts_def Let_def)

end
