(* ===== verification/Tunnel_Msg.thy ===== *)
theory Tunnel_Msg
  imports Prelude
begin

text \<open>
  The messages of the tunnel, from \<open>api/proto/tunnel.proto\<close> and the Go types generated
  from it (\<open>api/tunnel/tunnel.pb.go\<close>): one datatype for the \<open>oneof\<close> envelope, a record per
  message with more than a few fields, and the generated getters the program calls.
  \<open>MNone\<close> is an envelope without a payload.
\<close>

datatype node_type = NODE_TYPE_UNSPECIFIED | NODE_TYPE_AGENT | NODE_TYPE_PROXY

record register_request =
  rq_hostname :: string
  rq_ip :: string
  rq_os :: string
  rq_agent_version :: string
  rq_node_type :: node_type
  rq_proxy_path :: "string list"
  rq_token :: string

record tool_request =
  tq_request_id :: string
  tq_tool_name :: string
  tq_args_json :: string
  tq_target_host :: string

record error_response =
  er_request_id :: string
  er_code :: string
  er_message :: string

datatype tunnel_msg =
    MNone
  | MRegisterRequest register_request
  | MRegisterAck (ack_success: bool) (ack_message: string)
  | MHeartbeat int
  | MHeartbeatAck int
  | MToolRequest tool_request
  | MToolResponse (resp_request_id: string) (resp_result_json: string)
  | MErrorResponse error_response
  | MCancelRequest (cancel_request_id: string)

definition get_register_request :: "tunnel_msg \<Rightarrow> register_request option" where
  "get_register_request m = (case m of MRegisterRequest r \<Rightarrow> Some r | _ \<Rightarrow> None)"

definition get_register_ack :: "tunnel_msg \<Rightarrow> (bool \<times> string) option" where
  "get_register_ack m = (case m of MRegisterAck ok t \<Rightarrow> Some (ok, t) | _ \<Rightarrow> None)"

definition get_tool_request :: "tunnel_msg \<Rightarrow> tool_request option" where
  "get_tool_request m = (case m of MToolRequest r \<Rightarrow> Some r | _ \<Rightarrow> None)"

definition get_tool_response :: "tunnel_msg \<Rightarrow> (string \<times> string) option" where
  "get_tool_response m = (case m of MToolResponse i r \<Rightarrow> Some (i, r) | _ \<Rightarrow> None)"

definition get_error_response :: "tunnel_msg \<Rightarrow> error_response option" where
  "get_error_response m = (case m of MErrorResponse e \<Rightarrow> Some e | _ \<Rightarrow> None)"

definition get_cancel_request :: "tunnel_msg \<Rightarrow> string option" where
  "get_cancel_request m = (case m of MCancelRequest i \<Rightarrow> Some i | _ \<Rightarrow> None)"

lemma getters_hit [simp]:
  "get_register_request (MRegisterRequest r) = Some r"
  "get_register_ack (MRegisterAck ok t) = Some (ok, t)"
  "get_tool_request (MToolRequest q) = Some q"
  "get_tool_response (MToolResponse i j) = Some (i, j)"
  "get_error_response (MErrorResponse e) = Some e"
  "get_cancel_request (MCancelRequest i) = Some i"
  by (simp_all add: get_register_request_def get_register_ack_def get_tool_request_def
      get_tool_response_def get_error_response_def get_cancel_request_def)

lemma get_register_request_Some [simp]:
  "get_register_request m = Some r \<longleftrightarrow> m = MRegisterRequest r"
  by (cases m) (auto simp: get_register_request_def)

lemma get_register_ack_Some [simp]:
  "get_register_ack m = Some (ok, t) \<longleftrightarrow> m = MRegisterAck ok t"
  by (cases m) (auto simp: get_register_ack_def)

lemma get_tool_request_Some [simp]:
  "get_tool_request m = Some r \<longleftrightarrow> m = MToolRequest r"
  by (cases m) (auto simp: get_tool_request_def)

lemma get_cancel_request_Some [simp]:
  "get_cancel_request m = Some i \<longleftrightarrow> m = MCancelRequest i"
  by (cases m) (auto simp: get_cancel_request_def)

text \<open>The dynamic type of a payload as \<open>%T\<close> prints it.\<close>

definition payload_type :: "tunnel_msg \<Rightarrow> string" where
  "payload_type m = (case m of
       MNone \<Rightarrow> ''<nil>''
     | MRegisterRequest _ \<Rightarrow> ''*tunnel.TunnelMessage_RegisterRequest''
     | MRegisterAck _ _ \<Rightarrow> ''*tunnel.TunnelMessage_RegisterAck''
     | MHeartbeat _ \<Rightarrow> ''*tunnel.TunnelMessage_Heartbeat''
     | MHeartbeatAck _ \<Rightarrow> ''*tunnel.TunnelMessage_HeartbeatAck''
     | MToolRequest _ \<Rightarrow> ''*tunnel.TunnelMessage_ToolRequest''
     | MToolResponse _ _ \<Rightarrow> ''*tunnel.TunnelMessage_ToolResponse''
     | MErrorResponse _ \<Rightarrow> ''*tunnel.TunnelMessage_ErrorResponse''
     | MCancelRequest _ \<Rightarrow> ''*tunnel.TunnelMessage_CancelRequest'')"

text \<open>
  A stream is known by the identifier its wrapper was given; two wrappers are the same
  Go value exactly when they were created by the same call.
\<close>

type_synonym stream_id = nat

end
