(* ===== verification/Registry.thy ===== *)
theory Registry
  imports Tunnel_Msg
begin

text \<open>
  The in-memory registries of nodes: \<open>internal/sysplane-center/registry/registry.go\<close> and its
  smaller sibling \<open>internal/sysplane-proxy/registry/registry.go\<close>.  A registry is a Go map from
  host names to records behind a mutex, so every operation is one atomic step.  The
  center's registry also writes the gauge \<open>AgentsOnline\<close> of \<open>metrics.go\<close>, which is a field
  here.  The readings of \<open>time.Now()\<close> are arguments.

  The interface the two tunnel servers use is the locale \<open>host_registry\<close>; both registries
  are interpretations of it.
\<close>

section \<open>Records\<close>

datatype status = StatusOnline | StatusOffline

definition status_str :: "status \<Rightarrow> string" where
  "status_str s = (case s of StatusOnline \<Rightarrow> ''online'' | StatusOffline \<Rightarrow> ''offline'')"

lemma status_str_inj [simp]: "status_str a = status_str b \<longleftrightarrow> a = b"
  by (cases a; cases b) (simp_all add: status_str_def)

record agent_record =
  ar_hostname :: string
  ar_ip :: string
  ar_os :: string
  ar_agent_version :: string
  ar_node_type :: string
  ar_proxy_path :: "string list"
  ar_registered_at :: int
  ar_last_heartbeat :: int
  ar_status :: status
  ar_route_stream :: stream_id

type_synonym records = "(string, agent_record) gomap"

definition count_online :: "records \<Rightarrow> int" where
  "count_online m = int (length (filter (\<lambda>(h, r). ar_status r = StatusOnline) m))"

section \<open>The center's registry\<close>

record center_registry =
  cr_records :: records
  cr_gauge :: int

definition registry_new :: center_registry where
  "registry_new = \<lparr>cr_records = [], cr_gauge = 0\<rparr>"

definition registry_register :: "agent_record \<Rightarrow> center_registry \<Rightarrow> center_registry" where
  "registry_register rec r =
     (let m = gupd (ar_hostname rec) rec (cr_records r)
      in r\<lparr>cr_records := m, cr_gauge := count_online m\<rparr>)"

definition registry_unregister :: "string \<Rightarrow> center_registry \<Rightarrow> center_registry" where
  "registry_unregister h r = r\<lparr>cr_records := gdel h (cr_records r)\<rparr>"

definition registry_unregister_by_stream ::
  "stream_id \<Rightarrow> center_registry \<Rightarrow> string list \<times> center_registry" where
  "registry_unregister_by_stream s r =
     (map fst (filter (\<lambda>(h, rec). ar_route_stream rec = s) (cr_records r)),
      r\<lparr>cr_records := filter (\<lambda>(h, rec). ar_route_stream rec \<noteq> s) (cr_records r)\<rparr>)"

definition registry_lookup :: "center_registry \<Rightarrow> string \<Rightarrow> agent_record option" where
  "registry_lookup r h = map_of (cr_records r) h"

definition registry_all :: "center_registry \<Rightarrow> agent_record list" where
  "registry_all r = map snd (cr_records r)"

definition registry_online_count :: "center_registry \<Rightarrow> int" where
  "registry_online_count r = count_online (cr_records r)"

definition registry_update_heartbeat :: "int \<Rightarrow> string \<Rightarrow> center_registry \<Rightarrow> center_registry" where
  "registry_update_heartbeat now h r =
     (case map_of (cr_records r) h of
        None \<Rightarrow> r
      | Some rec \<Rightarrow>
          r\<lparr>cr_records := gupd h (rec\<lparr>ar_last_heartbeat := now, ar_status := StatusOnline\<rparr>) (cr_records r)\<rparr>)"

definition expired :: "int \<Rightarrow> int \<Rightarrow> agent_record \<Rightarrow> bool" where
  "expired now timeout rec \<longleftrightarrow>
     ar_status rec = StatusOnline \<and> now - ar_last_heartbeat rec > timeout"

definition mark_offline :: "int \<Rightarrow> int \<Rightarrow> records \<Rightarrow> records" where
  "mark_offline now timeout m =
     map (\<lambda>(h, rec). (h, if expired now timeout rec then rec\<lparr>ar_status := StatusOffline\<rparr> else rec)) m"

definition just_offline :: "int \<Rightarrow> int \<Rightarrow> records \<Rightarrow> string list" where
  "just_offline now timeout m =
     map (\<lambda>(h, rec). ar_hostname rec) (filter (\<lambda>(h, rec). expired now timeout rec) m)"

text \<open>\<open>checkOffline\<close>: the locked part, and the callbacks run afterwards on the state \<open>'s\<close>
  outside, skipping nil functions.\<close>

definition registry_check_offline ::
  "int \<Rightarrow> int \<Rightarrow> center_registry \<Rightarrow> string list \<times> center_registry" where
  "registry_check_offline now timeout r =
     (let m = mark_offline now timeout (cr_records r)
      in (just_offline now timeout (cr_records r), r\<lparr>cr_records := m, cr_gauge := count_online m\<rparr>))"

definition run_offline_callbacks ::
  "(string \<Rightarrow> 's \<Rightarrow> 's) option list \<Rightarrow> string list \<Rightarrow> 's \<Rightarrow> 's" where
  "run_offline_callbacks onOffline hs s =
     fold (\<lambda>h. fold (\<lambda>fn. case fn of None \<Rightarrow> id | Some f \<Rightarrow> f h) onOffline) hs s"

text \<open>\<open>StartOfflineChecker\<close>: the background loop, over what its \<open>select\<close> sees.\<close>

datatype checker_event = CheckerTick int | CheckerDone

fun registry_offline_checker ::
  "int \<Rightarrow> (string \<Rightarrow> 's \<Rightarrow> 's) option list \<Rightarrow> checker_event list
   \<Rightarrow> center_registry \<times> 's \<Rightarrow> center_registry \<times> 's" where
  "registry_offline_checker timeout cbs [] rs = rs"
| "registry_offline_checker timeout cbs (CheckerDone # es) rs = rs"
| "registry_offline_checker timeout cbs (CheckerTick now # es) (r, s) =
     (let (hs, r') = registry_check_offline now timeout r
      in registry_offline_checker timeout cbs es (r', run_offline_callbacks cbs hs s))"

section \<open>The proxy's registry\<close>

type_synonym proxy_registry = records

definition proxy_registry_new :: proxy_registry where
  "proxy_registry_new = []"

definition proxy_register :: "agent_record \<Rightarrow> proxy_registry \<Rightarrow> proxy_registry" where
  "proxy_register rec r = gupd (ar_hostname rec) rec r"

definition proxy_unregister :: "string \<Rightarrow> proxy_registry \<Rightarrow> proxy_registry" where
  "proxy_unregister h r = gdel h r"

definition proxy_unregister_by_stream :: "stream_id \<Rightarrow> proxy_registry \<Rightarrow> string list \<times> proxy_registry" where
  "proxy_unregister_by_stream s r =
     (map fst (filter (\<lambda>(h, rec). ar_route_stream rec = s) r),
      filter (\<lambda>(h, rec). ar_route_stream rec \<noteq> s) r)"

definition proxy_lookup :: "proxy_registry \<Rightarrow> string \<Rightarrow> agent_record option" where
  "proxy_lookup r h = map_of r h"

definition proxy_all :: "proxy_registry \<Rightarrow> agent_record list" where
  "proxy_all r = map snd r"

definition proxy_update_heartbeat :: "int \<Rightarrow> string \<Rightarrow> proxy_registry \<Rightarrow> proxy_registry" where
  "proxy_update_heartbeat now h r =
     (case map_of r h of
        None \<Rightarrow> r
      | Some rec \<Rightarrow> gupd h (rec\<lparr>ar_last_heartbeat := now, ar_status := StatusOnline\<rparr>) r)"

definition proxy_check_offline :: "int \<Rightarrow> int \<Rightarrow> proxy_registry \<Rightarrow> proxy_registry" where
  "proxy_check_offline now timeout r = mark_offline now timeout r"

fun proxy_offline_checker :: "int \<Rightarrow> checker_event list \<Rightarrow> proxy_registry \<Rightarrow> proxy_registry" where
  "proxy_offline_checker timeout [] r = r"
| "proxy_offline_checker timeout (CheckerDone # es) r = r"
| "proxy_offline_checker timeout (CheckerTick now # es) r =
     proxy_offline_checker timeout es (proxy_check_offline now timeout r)"

section \<open>The invariant of a record map\<close>

text \<open>Keys are distinct and every record is filed under its own host name.\<close>

definition records_inv :: "records \<Rightarrow> bool" where
  "records_inv m \<longleftrightarrow> distinct (gkeys m) \<and> (\<forall>(h, rec) \<in> set m. ar_hostname rec = h)"

lemma records_invI:
  "distinct (gkeys m) \<Longrightarrow> (\<And>h rec. map_of m h = Some rec \<Longrightarrow> ar_hostname rec = h) \<Longrightarrow> records_inv m"
  by (auto simp: records_inv_def)

lemma records_inv_host: "records_inv m \<Longrightarrow> map_of m h = Some rec \<Longrightarrow> ar_hostname rec = h"
  by (auto simp: records_inv_def dest: map_of_SomeD)

lemma records_inv_distinct: "records_inv m \<Longrightarrow> distinct (gkeys m)"
  by (simp add: records_inv_def)

lemma records_inv_Nil [inv_intros, simp]: "records_inv []"
  by (simp add: records_inv_def)

lemma records_inv_gupd [inv_intros]:
  assumes "records_inv m" and "ar_hostname rec = h"
  shows "records_inv (gupd h rec m)"
proof (rule records_invI)
  fix h' rec' assume "map_of (gupd h rec m) h' = Some rec'"
  then have "(if h' = h then Some rec else map_of m h') = Some rec'"
    by (simp add: fun_upd_apply eq_commute)
  with assms records_inv_host show "ar_hostname rec' = h'"
    by (metis option.inject)
qed (use assms in \<open>simp add: records_inv_distinct\<close>)

lemma records_inv_gdel [inv_intros]:
  assumes "records_inv m"
  shows "records_inv (gdel h m)"
proof (rule records_invI)
  fix h' rec' assume "map_of (gdel h m) h' = Some rec'"
  then have "map_of m h' = Some rec'"
    by (metis fun_upd_apply map_of_gdel option.distinct(1))
  with assms show "ar_hostname rec' = h'" by (rule records_inv_host)
qed (use assms in \<open>simp add: records_inv_distinct\<close>)

lemma records_inv_filter [inv_intros]: "records_inv m \<Longrightarrow> records_inv (filter P m)"
  by (auto simp: records_inv_def)

lemma records_inv_mark [inv_intros]:
  assumes "records_inv m"
  shows "records_inv (mark_offline now t m)"
proof -
  have "\<forall>(h, rec) \<in> set (mark_offline now t m). ar_hostname rec = h"
    using assms by (auto simp: mark_offline_def records_inv_def)
  moreover have "gkeys (mark_offline now t m) = gkeys m"
    unfolding mark_offline_def by (rule gkeys_map_snd)
  ultimately show ?thesis using assms by (simp add: records_inv_def)
qed

lemma records_inv_beat [inv_intros]:
  assumes "records_inv m" and "map_of m h = Some rec"
  shows "records_inv (gupd h (rec\<lparr>ar_last_heartbeat := now, ar_status := StatusOnline\<rparr>) m)"
  using assms records_inv_host [OF assms] by (intro records_inv_gupd) simp_all

lemma map_of_drop_stream:
  assumes "records_inv m"
  shows "map_of (filter (\<lambda>(h, rec). ar_route_stream rec \<noteq> s) m) h =
    (case map_of m h of None \<Rightarrow> None
     | Some rec \<Rightarrow> if ar_route_stream rec = s then None else Some rec)"
  using map_of_filter_snd [OF records_inv_distinct [OF assms], of "\<lambda>h rec. ar_route_stream rec \<noteq> s" h]
  by (cases "map_of m h") simp_all

lemma keys_on_stream:
  assumes "records_inv m"
  shows "h \<in> set (map fst (filter (\<lambda>(h, rec). ar_route_stream rec = s) m)) \<longleftrightarrow>
    (\<exists>rec. map_of m h = Some rec \<and> ar_route_stream rec = s)" (is "?l \<longleftrightarrow> ?r")
proof
  assume ?l
  then obtain rec where "(h, rec) \<in> set m" "ar_route_stream rec = s" by auto
  with records_inv_distinct [OF assms] mem_map_of_Some show ?r by fast
next
  assume ?r
  then obtain rec where "(h, rec) \<in> set m" "ar_route_stream rec = s" by (blast dest: map_of_SomeD)
  then show ?l by (auto intro!: rev_image_eqI [where x = "(h, rec)"])
qed

lemma map_of_mark_offline:
  "map_of (mark_offline now t m) h =
     map_option (\<lambda>rec. if expired now t rec then rec\<lparr>ar_status := StatusOffline\<rparr> else rec) (map_of m h)"
  unfolding mark_offline_def
  by (rule map_of_map_snd)

section \<open>The interface\<close>

text \<open>
  What the tunnel servers rely on: a registry maps host names to records, registration
  stores the record under its host name, closing a stream removes exactly the records
  routed through it and reports their names, a heartbeat touches nothing but the time and
  the status of one known host.
\<close>

locale host_registry =
  fixes lookup :: "'r \<Rightarrow> string \<Rightarrow> agent_record option"
    and reg :: "agent_record \<Rightarrow> 'r \<Rightarrow> 'r"
    and unreg :: "string \<Rightarrow> 'r \<Rightarrow> 'r"
    and drop_stream :: "stream_id \<Rightarrow> 'r \<Rightarrow> string list \<times> 'r"
    and beat :: "int \<Rightarrow> string \<Rightarrow> 'r \<Rightarrow> 'r"
    and inv :: "'r \<Rightarrow> bool"
  assumes lookup_reg: "inv r \<Longrightarrow> lookup (reg rec r) h = (if h = ar_hostname rec then Some rec else lookup r h)"
    and lookup_unreg: "inv r \<Longrightarrow> lookup (unreg g r) h = (if h = g then None else lookup r h)"
    and lookup_drop_stream: "inv r \<Longrightarrow> lookup (snd (drop_stream s r)) h =
          (case lookup r h of None \<Rightarrow> None
           | Some rec \<Rightarrow> if ar_route_stream rec = s then None else Some rec)"
    and dropped_hosts: "inv r \<Longrightarrow> h \<in> set (fst (drop_stream s r)) \<longleftrightarrow>
          (\<exists>rec. lookup r h = Some rec \<and> ar_route_stream rec = s)"
    and lookup_beat: "inv r \<Longrightarrow> lookup (beat now g r) h =
          (if h = g then map_option (\<lambda>rec. rec\<lparr>ar_last_heartbeat := now, ar_status := StatusOnline\<rparr>) (lookup r h)
           else lookup r h)"
    and lookup_host: "inv r \<Longrightarrow> lookup r h = Some rec \<Longrightarrow> ar_hostname rec = h"
    and inv_reg: "inv r \<Longrightarrow> inv (reg rec r)"
    and inv_unreg: "inv r \<Longrightarrow> inv (unreg g r)"
    and inv_drop_stream: "inv r \<Longrightarrow> inv (snd (drop_stream s r))"
    and inv_beat: "inv r \<Longrightarrow> inv (beat now g r)"
begin

text \<open>A stream that is closed late does not take a newer registration of the host with it.\<close>

lemma late_close_keeps_new_route:
  assumes "inv r" and "ar_route_stream rec \<noteq> s"
  shows "lookup (snd (drop_stream s (reg rec r))) (ar_hostname rec) = Some rec"
    and "ar_hostname rec \<notin> set (fst (drop_stream s (reg rec r)))"
  using assms by (simp_all add: lookup_drop_stream dropped_hosts inv_reg lookup_reg)

lemma closed_stream_has_no_routes:
  assumes "inv r" and "lookup (snd (drop_stream s r)) h = Some rec"
  shows "ar_route_stream rec \<noteq> s"
  using assms by (auto simp: lookup_drop_stream split: option.splits if_splits)

lemma beat_keeps_route:
  assumes "inv r" and "lookup (beat now g r) h = Some rec"
  obtains old where "lookup r h = Some old" and "ar_route_stream rec = ar_route_stream old"
    and "ar_registered_at rec = ar_registered_at old" and "ar_node_type rec = ar_node_type old"
  using assms by (auto simp: lookup_beat split: if_splits)

text \<open>Routes that lead only to streams of a set do so after each operation.\<close>

definition routes_in :: "stream_id set \<Rightarrow> 'r \<Rightarrow> bool" where
  "routes_in S r \<longleftrightarrow> (\<forall>h rec. lookup r h = Some rec \<longrightarrow> ar_route_stream rec \<in> S)"

lemma routes_in_reg:
  "inv r \<Longrightarrow> routes_in S r \<Longrightarrow> ar_route_stream rec \<in> S \<Longrightarrow> routes_in S (reg rec r)"
  by (auto simp: routes_in_def lookup_reg)

lemma routes_in_unreg: "inv r \<Longrightarrow> routes_in S r \<Longrightarrow> routes_in S (unreg g r)"
  by (auto simp: routes_in_def lookup_unreg)

lemma routes_in_drop:
  "inv r \<Longrightarrow> routes_in S r \<Longrightarrow> routes_in (S - {s}) (snd (drop_stream s r))"
  by (fastforce simp: routes_in_def lookup_drop_stream split: option.splits if_splits)

lemma routes_in_beat: "inv r \<Longrightarrow> routes_in S r \<Longrightarrow> routes_in S (beat now g r)"
  by (fastforce simp: routes_in_def lookup_beat split: if_splits)

lemma routes_in_mono: "routes_in S r \<Longrightarrow> S \<subseteq> T \<Longrightarrow> routes_in T r"
  by (auto simp: routes_in_def)

end

definition registry_inv :: "center_registry \<Rightarrow> bool" where
  "registry_inv r \<longleftrightarrow> records_inv (cr_records r)"

interpretation center_reg: host_registry registry_lookup registry_register registry_unregister
  registry_unregister_by_stream registry_update_heartbeat registry_inv
proof unfold_locales
  fix r :: center_registry and s h rec
  assume inv: "registry_inv r"
  then show "registry_lookup (snd (registry_unregister_by_stream s r)) h =
      (case registry_lookup r h of None \<Rightarrow> None
       | Some rec \<Rightarrow> if ar_route_stream rec = s then None else Some rec)"
    by (simp add: registry_lookup_def registry_unregister_by_stream_def registry_inv_def map_of_drop_stream)
  from inv show "h \<in> set (fst (registry_unregister_by_stream s r)) \<longleftrightarrow>
      (\<exists>rec. registry_lookup r h = Some rec \<and> ar_route_stream rec = s)"
    by (simp only: registry_lookup_def registry_unregister_by_stream_def registry_inv_def fst_conv keys_on_stream)
  show "registry_inv (snd (registry_unregister_by_stream s r))"
    using inv by (simp add: registry_inv_def registry_unregister_by_stream_def records_inv_filter)
qed (auto simp: registry_lookup_def registry_register_def registry_unregister_def registry_inv_def
    registry_update_heartbeat_def Let_def records_inv_host intro: inv_intros split: option.splits)

interpretation proxy_reg: host_registry proxy_lookup proxy_register proxy_unregister
  proxy_unregister_by_stream proxy_update_heartbeat records_inv
proof unfold_locales
  fix r :: proxy_registry and s h
  assume inv: "records_inv r"
  then show "proxy_lookup (snd (proxy_unregister_by_stream s r)) h =
      (case proxy_lookup r h of None \<Rightarrow> None
       | Some rec \<Rightarrow> if ar_route_stream rec = s then None else Some rec)"
    by (simp add: proxy_lookup_def proxy_unregister_by_stream_def map_of_drop_stream)
  from inv show "h \<in> set (fst (proxy_unregister_by_stream s r)) \<longleftrightarrow>
      (\<exists>rec. proxy_lookup r h = Some rec \<and> ar_route_stream rec = s)"
    by (simp only: proxy_lookup_def proxy_unregister_by_stream_def fst_conv keys_on_stream)
  show "records_inv (snd (proxy_unregister_by_stream s r))"
    using inv by (simp add: proxy_unregister_by_stream_def records_inv_filter)
qed (auto simp: proxy_lookup_def proxy_register_def proxy_unregister_def proxy_update_heartbeat_def
    records_inv_host intro: inv_intros split: option.splits)

section \<open>Properties\<close>

lemma in_just_offline:
  assumes "records_inv m"
  shows "h \<in> set (just_offline now t m) \<longleftrightarrow> (\<exists>rec. map_of m h = Some rec \<and> expired now t rec)"
    (is "?l \<longleftrightarrow> ?r")
proof
  assume ?l
  then obtain g rec where m: "(g, rec) \<in> set m" and e: "expired now t rec" and h: "h = ar_hostname rec"
    by (auto simp: just_offline_def)
  from m h assms have "g = h" by (auto simp: records_inv_def)
  with m e records_inv_distinct [OF assms] mem_map_of_Some show ?r by fast
next
  assume ?r
  then obtain rec where r: "map_of m h = Some rec" and e: "expired now t rec" by blast
  from records_inv_host [OF assms r] have "ar_hostname rec = h" .
  with e map_of_SomeD [OF r] show ?l
    by (auto simp: just_offline_def intro!: rev_image_eqI [where x = "(h, rec)"])
qed

text \<open>The offline check of the center marks exactly the nodes that were online and whose
  last heartbeat is older than the timeout, leaves every other field of every record alone,
  reports exactly those nodes to the callbacks, and reports nobody a second time.\<close>

theorem offline_check_exact:
  assumes "registry_inv r" and "registry_check_offline now t r = (hs, r')"
  shows "registry_lookup r' h =
           map_option (\<lambda>rec. if expired now t rec then rec\<lparr>ar_status := StatusOffline\<rparr> else rec)
             (registry_lookup r h) \<and>
         (h \<in> set hs \<longleftrightarrow> (\<exists>rec. registry_lookup r h = Some rec \<and> expired now t rec)) \<and>
         fst (registry_check_offline now' t r') =
           just_offline now' t (cr_records r') \<and>
         fst (registry_check_offline now t r') = [] \<and>
         cr_gauge r' = registry_online_count r' \<and> registry_inv r'"
proof -
  let ?m = "cr_records r"
  from assms(2) have hs: "hs = just_offline now t ?m"
    and r': "cr_records r' = mark_offline now t ?m" "cr_gauge r' = count_online (mark_offline now t ?m)"
    by (auto simp: registry_check_offline_def Let_def)
  have inv: "records_inv ?m" using assms(1) by (simp add: registry_inv_def)
  have once: "just_offline now t (mark_offline now t ?m) = []"
    by (auto simp: just_offline_def mark_offline_def expired_def filter_empty_conv split: if_splits)
  show ?thesis
    using in_just_offline [OF inv] records_inv_mark [OF inv] once
    by (simp add: registry_lookup_def r' hs map_of_mark_offline registry_check_offline_def Let_def
        registry_online_count_def registry_inv_def)
qed

definition sample_agent :: agent_record where
  "sample_agent = \<lparr>ar_hostname = ''n1'', ar_ip = ''10.0.0.1'', ar_os = ''linux'',
     ar_agent_version = ''dev'', ar_node_type = ''agent'', ar_proxy_path = [], ar_registered_at = 0,
     ar_last_heartbeat = 0, ar_status = StatusOnline, ar_route_stream = 1\<rparr>"

lemma offline_check_exact_witness:
  "registry_lookup (snd (registry_check_offline 100 90
      (registry_register sample_agent registry_new))) ''n1'' =
     Some (sample_agent\<lparr>ar_status := StatusOffline\<rparr>)"
proof -
  let ?r = "registry_register sample_agent registry_new"
  have "registry_inv ?r"
    by (simp add: registry_inv_def registry_register_def registry_new_def records_inv_def Let_def)
  from offline_check_exact [OF this, of 100 90 "fst (registry_check_offline 100 90 ?r)"
      "snd (registry_check_offline 100 90 ?r)" "''n1''" 0]
  show ?thesis
    by (simp add: registry_lookup_def registry_register_def registry_new_def sample_agent_def
        expired_def Let_def)
qed

text \<open>When the stream of a node closes after the node has registered again on another
  stream, in the center or in a proxy, the new registration stays and its host is not
  reported as gone.\<close>

theorem stale_close_keeps_registration:
  assumes "ar_route_stream rec \<noteq> s" and "registry_inv r" and "records_inv p"
  shows "registry_lookup (snd (registry_unregister_by_stream s (registry_register rec r)))
         (ar_hostname rec) = Some rec \<and>
       ar_hostname rec \<notin> set (fst (registry_unregister_by_stream s (registry_register rec r))) \<and>
       proxy_lookup (snd (proxy_unregister_by_stream s (proxy_register rec p)))
         (ar_hostname rec) = Some rec \<and>
       ar_hostname rec \<notin> set (fst (proxy_unregister_by_stream s (proxy_register rec p)))"
  using center_reg.late_close_keeps_new_route [OF assms(2,1)]
    proxy_reg.late_close_keeps_new_route [OF assms(3,1)] by blast

lemma stale_close_keeps_registration_witness:
  "registry_lookup (snd (registry_unregister_by_stream 7
      (registry_register sample_agent registry_new))) ''n1'' = Some sample_agent"
  using stale_close_keeps_registration [of sample_agent 7 registry_new "[]"]
  by (simp add: registry_inv_def registry_new_def sample_agent_def)

text \<open>The gauge of online agents is written by registration and by the offline check
  only: after the only stream of the only agent has closed, no agent is registered and the
  gauge still says one.\<close>

theorem gauge_stale_after_close:
  "let r = snd (registry_unregister_by_stream 1 (registry_register sample_agent registry_new))
   in registry_online_count r = 0 \<and> cr_gauge r = 1 \<and> registry_all r = []"
  by (simp add: registry_unregister_by_stream_def registry_register_def registry_new_def Let_def
      sample_agent_def registry_online_count_def count_online_def registry_all_def)

end
