(* ===== verification/Step_Systems.thy ===== *)
theory Step_Systems
  imports Prelude
begin

text \<open>
  What the state machines of the development share.  A machine is a partial step function over
  events and a first state; \<open>run_steps\<close> runs a list of events, \<open>reached\<close> is the inductive set of
  the states it can be in, each with the events that led there.

  The locale \<open>step_system\<close> is the interface between a machine and the proofs about all its
  interleavings: an invariant (of the state and of the events so far) that the first state has and
  every step keeps.  \<open>simulation\<close> extends it with a specification: an abstraction of the states
  under which every step is a step of the specification, as long as the states fit.  The router, the
  center, the proxy, the agent and the admin service interpret them in their own theories.
\<close>

section \<open>Runs\<close>

fun run_steps :: "('e \<Rightarrow> 's \<Rightarrow> 's option) \<Rightarrow> 'e list \<Rightarrow> 's \<Rightarrow> 's option" where
  "run_steps step [] s = Some s"
| "run_steps step (e # es) s = (case step e s of None \<Rightarrow> None | Some s' \<Rightarrow> run_steps step es s')"

lemma run_steps_append:
  "run_steps step (es @ fs) s = (case run_steps step es s of None \<Rightarrow> None | Some s' \<Rightarrow> run_steps step fs s')"
  by (induction es arbitrary: s) (auto split: option.splits)

inductive reached :: "('e \<Rightarrow> 's \<Rightarrow> 's option) \<Rightarrow> 's \<Rightarrow> 'e list \<Rightarrow> 's \<Rightarrow> bool" for step init where
  reached_init: "reached step init [] init"
| reached_step: "reached step init es s \<Longrightarrow> step e s = Some s' \<Longrightarrow> reached step init (es @ [e]) s'"

lemma reached_run: "reached step init es s \<longleftrightarrow> run_steps step es init = Some s"
proof
  show "reached step init es s \<Longrightarrow> run_steps step es init = Some s"
    by (induction rule: reached.induct) (simp_all add: run_steps_append)
next
  show "run_steps step es init = Some s \<Longrightarrow> reached step init es s"
  proof (induction es arbitrary: s rule: rev_induct)
    case Nil
    then show ?case by (auto intro: reached_init)
  next
    case (snoc e es)
    then obtain s0 where "run_steps step es init = Some s0" "step e s0 = Some s"
      by (auto simp: run_steps_append split: option.splits)
    with snoc.IH show ?case by (blast intro: reached_step)
  qed
qed

lemma reached_one: "step e init = Some s \<Longrightarrow> reached step init [e] s"
  by (simp add: reached_run)

section \<open>Invariants\<close>

locale step_system =
  fixes step :: "'e \<Rightarrow> 's \<Rightarrow> 's option" and init :: 's and inv :: "'e list \<Rightarrow> 's \<Rightarrow> bool"
  assumes inv_init: "inv [] init"
    and inv_step: "inv es s \<Longrightarrow> step e s = Some s' \<Longrightarrow> inv (es @ [e]) s'"
begin

lemma inv_reached: "reached step init es s \<Longrightarrow> inv es s"
  by (induction rule: reached.induct) (simp_all add: inv_init inv_step)

lemma inv_run: "run_steps step es init = Some s \<Longrightarrow> inv es s"
  by (simp add: inv_reached reached_run)

end

section \<open>Simulations\<close>

locale simulation = step_system step init inv
  for step :: "'e \<Rightarrow> 's \<Rightarrow> 's option" and init :: 's and inv :: "'e list \<Rightarrow> 's \<Rightarrow> bool" +
  fixes astep :: "'e \<Rightarrow> 'a \<Rightarrow> 'a" and ainit :: 'a and abs :: "'s \<Rightarrow> 'a" and fits :: "'s \<Rightarrow> bool"
  assumes abs_init: "abs init = ainit"
    and fits_back: "step e s = Some s' \<Longrightarrow> fits s' \<Longrightarrow> fits s"
    and abs_step: "inv es s \<Longrightarrow> fits s \<Longrightarrow> step e s = Some s' \<Longrightarrow> fits s' \<Longrightarrow> abs s' = astep e (abs s)"
begin

lemma abs_reached: "reached step init es s \<Longrightarrow> fits s \<Longrightarrow> abs s = fold astep es ainit"
proof (induction rule: reached.induct)
  case reached_init
  then show ?case by (simp add: abs_init)
next
  case (reached_step es s e s')
  from fits_back [OF reached_step.hyps(2) reached_step.prems] have "fits s" .
  with reached_step abs_step [OF inv_reached [OF reached_step.hyps(1)]] show ?case by simp
qed

end

end
