(* ===== verification/Router.thy ===== *)
theory Router
  imports Registry Step_Systems
begin

text \<open>
  \<open>internal/sysplane-center/router/router.go\<close>: the correlation of tool requests with their
  responses.

  A call of \<open>Send\<close> runs through the phases of \<open>phase\<close>; its slot (the Go channel with a buffer
  of one) is the field \<open>cl_buf\<close> of the call itself, and \<open>rt_pending\<close> maps request ids to the
  number of the call whose slot is filed there, as \<open>sync.Map\<close> holds pointers to slots.  An
  event is one step that the Go runtime can interleave with the steps of other calls: the
  store into the map, the send on the stream, the arrival of a response, the two branches of
  the \<open>select\<close>, and the deferred delete.  \<open>router_step\<close> executes an event where it is possible
  and answers \<open>None\<close> where it is not, so every theorem over event lists is a theorem over all
  interleavings.
\<close>

section \<open>Errors\<close>

text \<open>What \<open>errors.Is\<close> finds in the chain of a wrapped error, and the text.\<close>

datatype sentinel = SNone | STimeout | SCanceled | SCtxCanceled | SCtxDeadline | SNodeNotFound | SNodeOffline

datatype go_err = GoErr (err_is: sentinel) (err_text: string)

section \<open>State\<close>

datatype ctx_end = CtxDeadline | CtxCanceled

type_synonym outcome = "string \<times> (go_err + string)"

datatype phase =
    Stored                 \<comment> \<open>the slot is filed, nothing sent yet\<close>
  | Waiting                \<comment> \<open>in the select\<close>
  | Leaving outcome        \<comment> \<open>result known, deferred delete still to run\<close>
  | Returned outcome

record call =
  cl_rid :: string
  cl_host :: string
  cl_stream :: stream_id
  cl_tool :: string
  cl_args :: string
  cl_buf :: "tunnel_msg option"
  cl_phase :: phase

record router =
  rt_timeout :: int
  rt_pending :: "(string, nat) gomap"
  rt_calls :: "call list"
  rt_sent :: "(stream_id \<times> tunnel_msg) list"

definition router_new :: "int \<Rightarrow> router" where
  "router_new timeout_sec =
     \<lparr>rt_timeout = (if timeout_sec \<le> 0 then 5 else timeout_sec), rt_pending = [], rt_calls = [], rt_sent = []\<rparr>"

section \<open>Results of \<open>Send\<close>\<close>

definition tool_request_msg :: "call \<Rightarrow> tunnel_msg" where
  "tool_request_msg c = MToolRequest
     \<lparr>tq_request_id = cl_rid c, tq_tool_name = cl_tool c, tq_args_json = cl_args c, tq_target_host = cl_host c\<rparr>"

definition send_failed :: "call \<Rightarrow> string \<Rightarrow> outcome" where
  "send_failed c e = (''error'', Inl (GoErr SNone (''router: send to agent '' @ cl_host c @ '': '' @ e)))"

definition ctx_outcome :: "call \<Rightarrow> ctx_end \<Rightarrow> outcome" where
  "ctx_outcome c d = (case d of
       CtxCanceled \<Rightarrow> (''canceled'', Inl (GoErr SCanceled (''router: canceled waiting for response from ''
          @ cl_host c @ '' (request '' @ cl_rid c @ ''): canceled'')))
     | CtxDeadline \<Rightarrow> (''timeout'', Inl (GoErr STimeout (''router: timeout waiting for response from ''
          @ cl_host c @ '' (request '' @ cl_rid c @ ''): timeout''))))"

definition reply_outcome :: "tunnel_msg \<Rightarrow> outcome" where
  "reply_outcome msg = (case msg of
       MToolResponse rid json \<Rightarrow> (''success'', Inr json)
     | MErrorResponse e \<Rightarrow>
         (''error'', Inl (GoErr SNone (''agent error ['' @ er_code e @ '']: '' @ er_message e)))
     | _ \<Rightarrow> (''error'', Inl (GoErr SNone (''router: unexpected response type '' @ payload_type msg))))"

section \<open>Steps\<close>

definition send_store :: "string \<Rightarrow> agent_record \<Rightarrow> string \<Rightarrow> string \<Rightarrow> router \<Rightarrow> router" where
  "send_store rid rec tool args r =
     r\<lparr>rt_pending := gupd rid (length (rt_calls r)) (rt_pending r),
       rt_calls := rt_calls r @ [\<lparr>cl_rid = rid, cl_host = ar_hostname rec, cl_stream = ar_route_stream rec,
         cl_tool = tool, cl_args = args, cl_buf = None, cl_phase = Stored\<rparr>]\<rparr>"

definition set_phase :: "nat \<Rightarrow> phase \<Rightarrow> router \<Rightarrow> router" where
  "set_phase i p r = r\<lparr>rt_calls := (rt_calls r)[i := (rt_calls r ! i)\<lparr>cl_phase := p\<rparr>]\<rparr>"

definition emit :: "stream_id \<Rightarrow> tunnel_msg \<Rightarrow> router \<Rightarrow> router" where
  "emit s m r = r\<lparr>rt_sent := rt_sent r @ [(s, m)]\<rparr>"

text \<open>\<open>Deliver\<close> and \<open>DeliverFromMessage\<close>.\<close>

definition deliver :: "string \<Rightarrow> tunnel_msg \<Rightarrow> router \<Rightarrow> router" where
  "deliver rid msg r =
     (case map_of (rt_pending r) rid of
        None \<Rightarrow> r
      | Some i \<Rightarrow>
          (case cl_buf (rt_calls r ! i) of
             Some _ \<Rightarrow> r
           | None \<Rightarrow> r\<lparr>rt_calls := (rt_calls r)[i := (rt_calls r ! i)\<lparr>cl_buf := Some msg\<rparr>]\<rparr>))"

definition response_id :: "tunnel_msg \<Rightarrow> string option" where
  "response_id msg = (case msg of
       MToolResponse rid _ \<Rightarrow> Some rid
     | MErrorResponse e \<Rightarrow> Some (er_request_id e)
     | _ \<Rightarrow> None)"

definition deliver_from_message :: "tunnel_msg \<Rightarrow> router \<Rightarrow> router" where
  "deliver_from_message msg r = (case response_id msg of None \<Rightarrow> r | Some rid \<Rightarrow> deliver rid msg r)"

datatype router_event =
    EvStart string agent_record string string
  | EvSent nat "string option"       \<comment> \<open>the error of the stream, if any\<close>
  | EvDeliver tunnel_msg
  | EvReceive nat
  | EvCtxDone nat ctx_end
  | EvReturn nat

fun router_step :: "router_event \<Rightarrow> router \<Rightarrow> router option" where
  "router_step (EvStart rid rec tool args) r = Some (send_store rid rec tool args r)"
| "router_step (EvSent i err) r =
     (if i < length (rt_calls r) \<and> cl_phase (rt_calls r ! i) = Stored
      then Some (let c = rt_calls r ! i in
        (case err of
           Some e \<Rightarrow> set_phase i (Leaving (send_failed c e)) r
         | None \<Rightarrow> emit (cl_stream c) (tool_request_msg c) (set_phase i Waiting r)))
      else None)"
| "router_step (EvDeliver msg) r = Some (deliver_from_message msg r)"
| "router_step (EvReceive i) r =
     (if i < length (rt_calls r) \<and> cl_phase (rt_calls r ! i) = Waiting
      then (case cl_buf (rt_calls r ! i) of
              None \<Rightarrow> None
            | Some msg \<Rightarrow> Some (r\<lparr>rt_calls := (rt_calls r)[i := (rt_calls r ! i)
                \<lparr>cl_buf := None, cl_phase := Leaving (reply_outcome msg)\<rparr>]\<rparr>))
      else None)"
| "router_step (EvCtxDone i d) r =
     (if i < length (rt_calls r) \<and> cl_phase (rt_calls r ! i) = Waiting
      then Some (let c = rt_calls r ! i in
        emit (cl_stream c) (MCancelRequest (cl_rid c)) (set_phase i (Leaving (ctx_outcome c d)) r))
      else None)"
| "router_step (EvReturn i) r =
     (if i < length (rt_calls r)
      then (case cl_phase (rt_calls r ! i) of
              Leaving out \<Rightarrow> Some ((set_phase i (Returned out) r)\<lparr>rt_pending := gdel (cl_rid (rt_calls r ! i)) (rt_pending r)\<rparr>)
            | _ \<Rightarrow> None)
      else None)"

abbreviation router_run :: "router_event list \<Rightarrow> router \<Rightarrow> router option" where
  "router_run \<equiv> run_steps router_step"

text \<open>The states a router can be in, with the events that led there.\<close>

abbreviation reach :: "int \<Rightarrow> router_event list \<Rightarrow> router \<Rightarrow> bool" where
  "reach t \<equiv> reached router_step (router_new t)"

lemmas reach_run = reached_run [of router_step "router_new t"] for t

section \<open>The invariant\<close>

definition live :: "phase \<Rightarrow> bool" where
  "live p = (case p of Returned _ \<Rightarrow> False | _ \<Rightarrow> True)"

lemma live_simps [simp]: "live Stored" "live Waiting" "live (Leaving out)" "\<not> live (Returned out)"
  by (simp_all add: live_def)

text \<open>Every entry of the map names a call that has not returned and bears its own id; a slot
  holds only a response to its own id that has arrived, and so does the result.\<close>

definition delivered :: "router_event list \<Rightarrow> string \<Rightarrow> tunnel_msg \<Rightarrow> bool" where
  "delivered es rid msg \<longleftrightarrow> EvDeliver msg \<in> set es \<and> response_id msg = Some rid"

definition phase_ok :: "router_event list \<Rightarrow> call \<Rightarrow> bool" where
  "phase_ok es c = (case cl_phase c of
       Leaving (st, Inr json) \<Rightarrow> delivered es (cl_rid c) (MToolResponse (cl_rid c) json)
     | Returned (st, Inr json) \<Rightarrow> delivered es (cl_rid c) (MToolResponse (cl_rid c) json)
     | _ \<Rightarrow> True)"

definition call_ok :: "router_event list \<Rightarrow> call \<Rightarrow> bool" where
  "call_ok es c \<longleftrightarrow> (\<forall>msg. cl_buf c = Some msg \<longrightarrow> delivered es (cl_rid c) msg) \<and> phase_ok es c"

definition pending_ok :: "router \<Rightarrow> bool" where
  "pending_ok r \<longleftrightarrow> (\<forall>rid i. map_of (rt_pending r) rid = Some i \<longrightarrow>
     i < length (rt_calls r) \<and> cl_rid (rt_calls r ! i) = rid \<and> live (cl_phase (rt_calls r ! i)))"

definition router_inv :: "router_event list \<Rightarrow> router \<Rightarrow> bool" where
  "router_inv es r \<longleftrightarrow> pending_ok r \<and> (\<forall>c \<in> set (rt_calls r). call_ok es c)"

lemma delivered_mono: "delivered es rid msg \<Longrightarrow> delivered (es @ [e]) rid msg"
  by (simp add: delivered_def)

lemma call_ok_mono: "call_ok es c \<Longrightarrow> call_ok (es @ [e]) c"
  by (auto simp: call_ok_def phase_ok_def split: phase.splits prod.splits sum.splits intro: delivered_mono)

lemma reply_outcome_Inr:
  "reply_outcome msg = (st, Inr json) \<Longrightarrow> \<exists>rid. msg = MToolResponse rid json"
  by (cases msg) (simp_all add: reply_outcome_def)

lemma call_ok_received:
  assumes "call_ok es c" and "cl_buf c = Some msg"
  shows "call_ok es (c\<lparr>cl_buf := None, cl_phase := Leaving (reply_outcome msg)\<rparr>)"
proof -
  have d: "delivered es (cl_rid c) msg" using assms by (simp add: call_ok_def)
  have "delivered es (cl_rid c) (MToolResponse (cl_rid c) json)" if "reply_outcome msg = (st, Inr json)" for st json
    using reply_outcome_Inr [OF that] d by (auto simp: delivered_def response_id_def)
  then show ?thesis
    by (auto simp: call_ok_def phase_ok_def split: sum.splits)
qed

lemma set_list_update_ok:
  "(\<forall>x \<in> set xs. P x) \<Longrightarrow> P y \<Longrightarrow> \<forall>x \<in> set (xs[i := y]). P x"
  using set_update_subset_insert [of xs i y] by (metis insertE subsetD)

lemma pending_ok_update:
  assumes "pending_ok r" and "cl_rid c = cl_rid (rt_calls r ! i)"
    and "live (cl_phase (rt_calls r ! i)) \<Longrightarrow> live (cl_phase c)"
  shows "pending_ok (r\<lparr>rt_calls := (rt_calls r)[i := c]\<rparr>)"
  unfolding pending_ok_def
proof (intro allI impI)
  fix rid j assume "map_of (rt_pending (r\<lparr>rt_calls := (rt_calls r)[i := c]\<rparr>)) rid = Some j"
  then have j: "j < length (rt_calls r)" "cl_rid (rt_calls r ! j) = rid" "live (cl_phase (rt_calls r ! j))"
    using assms(1) by (simp_all add: pending_ok_def)
  with assms(2,3) show "j < length (rt_calls (r\<lparr>rt_calls := (rt_calls r)[i := c]\<rparr>)) \<and>
      cl_rid (rt_calls (r\<lparr>rt_calls := (rt_calls r)[i := c]\<rparr>) ! j) = rid \<and>
      live (cl_phase (rt_calls (r\<lparr>rt_calls := (rt_calls r)[i := c]\<rparr>) ! j))"
    by (cases "i = j") simp_all
qed

lemma inv_update:
  assumes "router_inv es r" and "cl_rid c = cl_rid (rt_calls r ! i)"
    and "live (cl_phase (rt_calls r ! i)) \<Longrightarrow> live (cl_phase c)" and "call_ok es c"
  shows "router_inv es (r\<lparr>rt_calls := (rt_calls r)[i := c]\<rparr>)"
  using assms pending_ok_update [of r c i] set_list_update_ok [of "rt_calls r" "call_ok es" c i]
  by (simp add: router_inv_def)

lemma router_inv_mono: "router_inv es r \<Longrightarrow> router_inv (es @ [e]) r"
  by (simp add: router_inv_def call_ok_mono)

lemma router_inv_emit [simp]: "router_inv es (emit s m r) = router_inv es r"
  by (simp add: router_inv_def emit_def pending_ok_def)

lemma router_inv_call: "router_inv es r \<Longrightarrow> i < length (rt_calls r) \<Longrightarrow> call_ok es (rt_calls r ! i)"
  by (simp add: router_inv_def)

lemma call_ok_phase:
  "call_ok es c \<Longrightarrow> (\<And>st json. p = Leaving (st, Inr json) \<or> p = Returned (st, Inr json) \<Longrightarrow>
     delivered es (cl_rid c) (MToolResponse (cl_rid c) json)) \<Longrightarrow> call_ok es (c\<lparr>cl_phase := p\<rparr>)"
  by (auto simp: call_ok_def phase_ok_def split: phase.splits sum.splits)

lemma router_inv_set_phase:
  assumes "router_inv es r" and "i < length (rt_calls r)" and "live p"
    and "\<And>st json. p = Leaving (st, Inr json) \<Longrightarrow> False"
  shows "router_inv es (set_phase i p r)"
  unfolding set_phase_def
  using assms router_inv_call [OF assms(1,2)]
  by (intro inv_update call_ok_phase) auto

lemma router_inv_deliver:
  assumes inv: "router_inv es r" and rid: "response_id msg = Some rid"
  shows "router_inv (es @ [EvDeliver msg]) (deliver rid msg r)"
proof (cases "map_of (rt_pending r) rid")
  case None
  then show ?thesis using inv by (simp add: deliver_def router_inv_mono)
next
  case (Some i)
  with inv have i: "i < length (rt_calls r)" and id: "cl_rid (rt_calls r ! i) = rid"
    by (auto simp: router_inv_def pending_ok_def)
  let ?c = "(rt_calls r ! i)\<lparr>cl_buf := Some msg\<rparr>"
  have "call_ok (es @ [EvDeliver msg]) ?c"
    using call_ok_mono [OF router_inv_call [OF inv i], of "EvDeliver msg"] id rid
    by (auto simp: call_ok_def phase_ok_def delivered_def split: phase.splits sum.splits)
  then have "router_inv (es @ [EvDeliver msg]) (r\<lparr>rt_calls := (rt_calls r)[i := ?c]\<rparr>)"
    using inv by (intro inv_update) (simp_all add: router_inv_mono)
  then show ?thesis
    using Some inv by (simp add: deliver_def router_inv_mono split: option.splits)
qed

lemma router_inv_store:
  assumes "router_inv es r"
  shows "router_inv es (send_store rid rec tool args r)"
  using assms
  by (auto simp: router_inv_def pending_ok_def send_store_def call_ok_def phase_ok_def nth_append less_Suc_eq)

lemma router_inv_return:
  assumes inv: "router_inv es r" and i: "i < length (rt_calls r)"
    and ph: "cl_phase (rt_calls r ! i) = Leaving out"
  shows "router_inv es ((set_phase i (Returned out) r)\<lparr>rt_pending := gdel (cl_rid (rt_calls r ! i)) (rt_pending r)\<rparr>)"
proof -
  let ?c = "(rt_calls r ! i)\<lparr>cl_phase := Returned out\<rparr>"
  have "call_ok es ?c"
    using router_inv_call [OF inv i] ph
    by (intro call_ok_phase) (auto simp: call_ok_def phase_ok_def)
  moreover have "\<forall>c \<in> set (rt_calls r). call_ok es c" using inv by (simp add: router_inv_def)
  ultimately have "\<forall>c \<in> set ((rt_calls r)[i := ?c]). call_ok es c" by (rule set_list_update_ok [rotated])
  moreover have "pending_ok ((set_phase i (Returned out) r)\<lparr>rt_pending := gdel (cl_rid (rt_calls r ! i)) (rt_pending r)\<rparr>)"
    unfolding pending_ok_def
  proof (intro allI impI)
    fix rid j
    let ?r = "(set_phase i (Returned out) r)\<lparr>rt_pending := gdel (cl_rid (rt_calls r ! i)) (rt_pending r)\<rparr>"
    assume "map_of (rt_pending ?r) rid = Some j"
    then have ne: "rid \<noteq> cl_rid (rt_calls r ! i)" and m: "map_of (rt_pending r) rid = Some j"
      by (auto split: if_splits)
    from m inv have j: "j < length (rt_calls r)" "cl_rid (rt_calls r ! j) = rid" "live (cl_phase (rt_calls r ! j))"
      by (simp_all add: router_inv_def pending_ok_def)
    with ne have "i \<noteq> j" by auto
    with j show "j < length (rt_calls ?r) \<and> cl_rid (rt_calls ?r ! j) = rid \<and> live (cl_phase (rt_calls ?r ! j))"
      by (simp add: set_phase_def)
  qed
  ultimately show ?thesis by (simp add: router_inv_def set_phase_def)
qed

lemma router_inv_step:
  assumes inv: "router_inv es r" and st: "router_step e r = Some r'"
  shows "router_inv (es @ [e]) r'"
proof (cases e)
  case (EvStart rid rec tool args)
  then show ?thesis using st router_inv_store [OF inv] router_inv_mono by auto
next
  case (EvSent i err)
  then show ?thesis using st inv
    by (auto simp: Let_def send_failed_def router_inv_mono split: if_splits option.splits
        intro!: router_inv_set_phase)
next
  case (EvDeliver msg)
  then show ?thesis using st inv
    by (auto simp: deliver_from_message_def router_inv_deliver router_inv_mono split: option.splits)
next
  case (EvReceive i)
  then obtain msg where i: "i < length (rt_calls r)" and ph: "cl_phase (rt_calls r ! i) = Waiting"
    and b: "cl_buf (rt_calls r ! i) = Some msg"
    and r': "r' = r\<lparr>rt_calls := (rt_calls r)[i := (rt_calls r ! i)
                \<lparr>cl_buf := None, cl_phase := Leaving (reply_outcome msg)\<rparr>]\<rparr>"
    using st by (auto split: if_splits option.splits)
  show ?thesis unfolding r'
    using router_inv_mono [OF inv] i b
    by (intro inv_update call_ok_received router_inv_call) simp_all
next
  case (EvCtxDone i d)
  then show ?thesis using st inv
    by (cases d) (auto simp: Let_def ctx_outcome_def router_inv_mono split: if_splits intro!: router_inv_set_phase)
next
  case (EvReturn i)
  then show ?thesis using st inv
    by (auto simp: router_inv_mono router_inv_return split: if_splits phase.splits)
qed

interpretation router_sys: step_system router_step "router_new t" router_inv for t
proof
  show "router_inv [] (router_new t)" by (simp add: router_inv_def router_new_def pending_ok_def)
qed (rule router_inv_step)

lemmas reach_inv = router_sys.inv_reached

section \<open>Calls with ids of their own\<close>

text \<open>While no two calls share a request id, every live call is filed under its id.\<close>

definition all_filed :: "router \<Rightarrow> bool" where
  "all_filed r \<longleftrightarrow> (\<forall>i < length (rt_calls r). live (cl_phase (rt_calls r ! i)) \<longrightarrow>
     map_of (rt_pending r) (cl_rid (rt_calls r ! i)) = Some i)"

definition call_ids :: "router \<Rightarrow> string list" where
  "call_ids r = map cl_rid (rt_calls r)"

lemma call_ids_update:
  "cl_rid c = cl_rid (rt_calls r ! i) \<Longrightarrow> call_ids (r\<lparr>rt_calls := (rt_calls r)[i := c]\<rparr>) = call_ids r"
  by (cases "i < length (rt_calls r)") (simp_all add: call_ids_def map_update list_update_same_conv list_update_beyond)

lemma call_ids_set_phase [simp]: "call_ids (set_phase i p r) = call_ids r"
  unfolding set_phase_def by (rule call_ids_update) simp

lemma call_ids_emit [simp]: "call_ids (emit s m r) = call_ids r"
  by (simp add: call_ids_def emit_def)

lemma call_ids_deliver [simp]: "call_ids (deliver rid msg r) = call_ids r"
  by (auto simp: deliver_def call_ids_update split: option.splits)

lemma call_ids_pending [simp]: "call_ids (r\<lparr>rt_pending := m\<rparr>) = call_ids r"
  by (simp add: call_ids_def)

lemma call_ids_store [simp]: "call_ids (send_store rid rec tool args r) = call_ids r @ [rid]"
  by (simp add: call_ids_def send_store_def)

lemma call_ids_step:
  assumes "router_step e r = Some r'"
  shows "call_ids r' = call_ids r @ (case e of EvStart rid _ _ _ \<Rightarrow> [rid] | _ \<Rightarrow> [])"
  using assms
  by (cases e) (auto simp: Let_def call_ids_update deliver_from_message_def
      split: if_splits option.splits phase.splits)

lemma all_filed_update:
  assumes "all_filed r" and "cl_rid c = cl_rid (rt_calls r ! i)"
    and "live (cl_phase c) \<Longrightarrow> live (cl_phase (rt_calls r ! i))"
  shows "all_filed (r\<lparr>rt_calls := (rt_calls r)[i := c]\<rparr>)"
  unfolding all_filed_def
proof (intro allI impI)
  fix j
  let ?r = "r\<lparr>rt_calls := (rt_calls r)[i := c]\<rparr>"
  assume j: "j < length (rt_calls ?r)" and l: "live (cl_phase (rt_calls ?r ! j))"
  with assms(2,3) have "live (cl_phase (rt_calls r ! j))" and "cl_rid (rt_calls ?r ! j) = cl_rid (rt_calls r ! j)"
    by (cases "i = j"; simp)+
  with assms(1) j show "map_of (rt_pending ?r) (cl_rid (rt_calls ?r ! j)) = Some j"
    by (simp add: all_filed_def)
qed

lemma all_filed_emit [simp]: "all_filed (emit s m r) = all_filed r"
  by (simp add: all_filed_def emit_def)

lemma all_filed_set_phase:
  "all_filed r \<Longrightarrow> (live p \<Longrightarrow> live (cl_phase (rt_calls r ! i))) \<Longrightarrow> all_filed (set_phase i p r)"
  unfolding set_phase_def by (intro all_filed_update) simp_all

lemma all_filed_deliver: "all_filed r \<Longrightarrow> all_filed (deliver rid msg r)"
  by (auto simp: deliver_def intro: all_filed_update split: option.splits)

lemma all_filed_store:
  assumes "all_filed r" and "rid \<notin> set (call_ids r)"
  shows "all_filed (send_store rid rec tool args r)"
  using assms
  by (auto simp: all_filed_def send_store_def nth_append less_Suc_eq call_ids_def)

lemma all_filed_return:
  assumes f: "all_filed r" and d: "distinct (call_ids r)" and i: "i < length (rt_calls r)"
  shows "all_filed ((set_phase i (Returned out) r)\<lparr>rt_pending := gdel (cl_rid (rt_calls r ! i)) (rt_pending r)\<rparr>)"
  unfolding all_filed_def
proof (intro allI impI)
  fix j
  let ?r = "(set_phase i (Returned out) r)\<lparr>rt_pending := gdel (cl_rid (rt_calls r ! i)) (rt_pending r)\<rparr>"
  assume j: "j < length (rt_calls ?r)" and l: "live (cl_phase (rt_calls ?r ! j))"
  then have ne: "i \<noteq> j" using i by (auto simp: set_phase_def)
  with j l have j': "j < length (rt_calls r)" "live (cl_phase (rt_calls r ! j))"
    and c: "rt_calls ?r ! j = rt_calls r ! j" by (simp_all add: set_phase_def)
  from d i j'(1) ne have "cl_rid (rt_calls r ! j) \<noteq> cl_rid (rt_calls r ! i)"
    by (auto simp: call_ids_def distinct_conv_nth)
  with f j' show "map_of (rt_pending ?r) (cl_rid (rt_calls ?r ! j)) = Some j"
    unfolding c by (simp add: all_filed_def)
qed

lemma all_filed_step:
  assumes "all_filed r" and "router_step e r = Some r'" and "distinct (call_ids r')"
  shows "all_filed r'"
proof (cases e)
  case (EvStart rid rec tool args)
  with assms call_ids_step [OF assms(2)] show ?thesis by (auto intro: all_filed_store)
next
  case (EvSent i err)
  with assms show ?thesis
    by (auto simp: Let_def split: if_splits option.splits intro!: all_filed_set_phase)
next
  case (EvDeliver msg)
  with assms show ?thesis
    by (auto simp: deliver_from_message_def all_filed_deliver split: option.splits)
next
  case (EvReceive i)
  with assms show ?thesis
    by (auto split: if_splits option.splits intro!: all_filed_update)
next
  case (EvCtxDone i d)
  with assms show ?thesis
    by (auto simp: Let_def split: if_splits intro!: all_filed_set_phase)
next
  case (EvReturn i)
  with assms call_ids_step [OF assms(2)] show ?thesis
    by (auto split: if_splits phase.splits intro!: all_filed_return)
qed

interpretation filed_sys: step_system router_step "router_new t"
  "\<lambda>_ r. distinct (call_ids r) \<longrightarrow> all_filed r" for t
proof
  show "distinct (call_ids (router_new t)) \<longrightarrow> all_filed (router_new t)"
    by (simp add: all_filed_def router_new_def)
next
  fix es :: "router_event list" and e r r'
  assume "distinct (call_ids r) \<longrightarrow> all_filed r" and "router_step e r = Some r'"
  then show "distinct (call_ids r') \<longrightarrow> all_filed r'"
    using all_filed_step call_ids_step by fastforce
qed

lemma reach_all_filed: "reach t es r \<Longrightarrow> distinct (call_ids r) \<Longrightarrow> all_filed r"
  using filed_sys.inv_reached by blast

section \<open>Properties\<close>

text \<open>C11: A call that returns a result returns the result of a response that has arrived and
  bears the call's own request id, whatever the interleaving and even if ids are reused.\<close>

theorem reply_correlated:
  assumes "reach t es r" and "c \<in> set (rt_calls r)" and "cl_phase c = Returned (st, Inr json)"
  shows "EvDeliver (MToolResponse (cl_rid c) json) \<in> set es"
  using reach_inv [OF assms(1)] assms(2,3)
  by (auto simp: router_inv_def call_ok_def phase_ok_def delivered_def)

definition two_agents :: "agent_record \<times> agent_record" where
  "two_agents = (sample_agent, sample_agent\<lparr>ar_hostname := ''n2'', ar_route_stream := 2\<rparr>)"

definition one_call :: "router_event list" where
  "one_call = [EvStart ''q'' (fst two_agents) ''stat_file'' ''{}'', EvSent 0 None,
     EvDeliver (MToolResponse ''q'' ''42''), EvReceive 0, EvReturn 0]"

lemmas run_simps = send_store_def set_phase_def emit_def deliver_from_message_def deliver_def
  response_id_def reply_outcome_def tool_request_msg_def router_new_def two_agents_def sample_agent_def

lemma reply_correlated_witness: "EvDeliver (MToolResponse ''q'' ''42'') \<in> set one_call"
proof -
  obtain r where r: "router_run one_call (router_new 5) = Some r"
    and c: "map (\<lambda>c. (cl_rid c, cl_phase c)) (rt_calls r) = [(''q'', Returned (''success'', Inr ''42''))]"
    by (simp add: one_call_def run_simps)
  from c obtain c0 where c0: "c0 \<in> set (rt_calls r)" "cl_rid c0 = ''q''"
    "cl_phase c0 = Returned (''success'', Inr ''42'')" by auto
  from r have "reach 5 one_call r" by (simp add: reach_run)
  from reply_correlated [OF this c0(1) c0(3)] c0(2) show ?thesis by simp
qed



text \<open>As long as no two calls use the same request id, the first response to a waiting
  call is the one it returns: a second response under the same id changes nothing, no other
  call is touched, and after the return the id is free.\<close>

theorem first_reply_wins:
  assumes "reach t es r" and "distinct (call_ids r)" and "i < length (rt_calls r)"
    and "cl_phase (rt_calls r ! i) = Waiting" and "cl_buf (rt_calls r ! i) = None"
    and "c = rt_calls r ! i"
  shows "\<exists>r'. router_run [EvDeliver (MToolResponse (cl_rid c) json), EvDeliver (MToolResponse (cl_rid c) json2),
                 EvReceive i, EvReturn i] r = Some r' \<and>
              rt_calls r' = (rt_calls r)[i := c\<lparr>cl_buf := None, cl_phase := Returned (''success'', Inr json)\<rparr>] \<and>
              map_of (rt_pending r') (cl_rid c) = None \<and> rt_sent r' = rt_sent r"
proof -
  have "map_of (rt_pending r) (cl_rid c) = Some i"
    using reach_all_filed [OF assms(1,2)] assms(3,4,6) by (simp add: all_filed_def)
  then show ?thesis using assms(3-6)
    by (simp add: deliver_from_message_def response_id_def deliver_def reply_outcome_def set_phase_def)
qed

lemma first_reply_wins_witness:
  "\<exists>r r'. router_run (take 2 one_call) (router_new 5) = Some r \<and>
     router_run [EvDeliver (MToolResponse ''q'' ''1''), EvDeliver (MToolResponse ''q'' ''2''),
       EvReceive 0, EvReturn 0] r = Some r' \<and>
     map cl_phase (rt_calls r') = [Returned (''success'', Inr ''1'')]"
proof -
  obtain r where r: "router_run (take 2 one_call) (router_new 5) = Some r"
    and c: "map (\<lambda>c. (cl_rid c, cl_phase c, cl_buf c)) (rt_calls r) = [(''q'', Waiting, None)]"
    by (simp add: one_call_def run_simps)
  from c obtain c0 where c0: "rt_calls r = [c0]" "cl_rid c0 = ''q''" "cl_phase c0 = Waiting" "cl_buf c0 = None"
    by auto
  from r have "reach 5 (take 2 one_call) r" by (simp add: reach_run)
  from first_reply_wins [OF this, of 0 c0 "''1''" "''2''"] c0 r show ?thesis
    by (fastforce simp: call_ids_def)
qed



text \<open>Two concurrent calls that do share a request id are not told apart: the second takes
  the first one's place in the table, so the answer of host \<open>n1\<close> is returned as the result of
  the call to host \<open>n2\<close>, and the call to \<open>n1\<close> can only time out.\<close>

theorem shared_id_cross_delivery:
  "\<exists>r. router_run [EvStart ''q'' (fst two_agents) ''t'' ''{}'', EvSent 0 None,
                   EvStart ''q'' (snd two_agents) ''t'' ''{}'', EvSent 1 None,
                   EvDeliver (MToolResponse ''q'' ''from n1''), EvReceive 1, EvReturn 1,
                   EvDeliver (MToolResponse ''q'' ''from n2'')] (router_new 5) = Some r \<and>
     map (\<lambda>c. (cl_host c, cl_phase c, cl_buf c)) (rt_calls r) =
       [(''n1'', Waiting, None), (''n2'', Returned (''success'', Inr ''from n1''), None)] \<and>
     rt_pending r = []"
  by (simp add: run_simps)

section \<open>\<open>SendMulti\<close>\<close>

record multi_result =
  mr_hostname :: string
  mr_result :: "go_err + string"

definition send_multi_id :: "string \<Rightarrow> agent_record \<Rightarrow> string" where
  "send_multi_id base rec = base @ ''_'' @ ar_hostname rec"

text \<open>The goroutines write disjoint slots of the result slice; \<open>run\<close> is what each \<open>Send\<close> returns.\<close>

definition send_multi :: "(agent_record \<Rightarrow> string \<Rightarrow> go_err + string) \<Rightarrow> agent_record list \<Rightarrow> string \<Rightarrow> multi_result list" where
  "send_multi run recs base =
     map (\<lambda>rec. \<lparr>mr_hostname = ar_hostname rec, mr_result = run rec (send_multi_id base rec)\<rparr>) recs"

lemma send_multi_ids_distinct:
  "distinct (map ar_hostname recs) \<Longrightarrow> distinct (map (send_multi_id base) recs)"
  by (induction recs) (auto simp: send_multi_id_def)

end
