(* ===== verification/Store.thy ===== *)
theory Store
  imports Registry
begin

text \<open>
  \<open>internal/sysplane-center/store/store.go\<close> with \<open>schema.sql\<close>: the three tables and the
  statement each method runs.  A table is an association list from its primary key (or its
  \<open>UNIQUE\<close> column) to the row.  PostgreSQL itself is the argument \<open>fault\<close>: \<open>None\<close> when the
  statement runs, \<open>Some e\<close> when the connection, the context or the server fails with \<open>e\<close>,
  in which case no row changes.  \<open>now()\<close> of the database is an argument.
\<close>

definition err_not_found :: string where
  "err_not_found = ''store: not found''"

record agent_row =
  aw_hostname :: string
  aw_ip :: string
  aw_os :: string
  aw_agent_version :: string
  aw_node_type :: string
  aw_proxy_path :: "string list"
  aw_center_id :: string
  aw_status :: string
  aw_registered_at :: int
  aw_last_heartbeat :: int

record center_row =
  cw_internal_address :: string
  cw_last_heartbeat :: int

record log_row =
  lw_center_id :: string
  lw_target_host :: string
  lw_tool_name :: string
  lw_args_json :: string
  lw_result_json :: "string option"
  lw_error_msg :: "string option"
  lw_completed_at :: "int option"

record store =
  st_agents :: "(string, agent_row) gomap"
  st_centers :: "(string, center_row) gomap"
  st_logs :: "(string, log_row) gomap"

definition empty_store :: store where
  "empty_store = \<lparr>st_agents = [], st_centers = [], st_logs = []\<rparr>"

text \<open>The result of \<open>pool.Exec\<close>: the error, if any, and the store afterwards.\<close>

definition exec :: "string option \<Rightarrow> (store \<Rightarrow> string option \<times> store) \<Rightarrow> store \<Rightarrow> string option \<times> store" where
  "exec fault stmt s = (case fault of Some e \<Rightarrow> (Some e, s) | None \<Rightarrow> stmt s)"

section \<open>\<open>agent_instances\<close>\<close>

definition status_check :: "string \<Rightarrow> bool" where
  "status_check x \<longleftrightarrow> x = ''online'' \<or> x = ''offline''"

definition check_violation :: string where
  "check_violation = ''new row for relation agent_instances violates check constraint''"

definition upsert_agent :: "string option \<Rightarrow> agent_row \<Rightarrow> store \<Rightarrow> string option \<times> store" where
  "upsert_agent fault r =
     exec fault (\<lambda>s. if \<not> status_check (aw_status r) then (Some check_violation, s)
                     else (None, s\<lparr>st_agents := gupd (aw_hostname r) r (st_agents s)\<rparr>))"

definition update_agent_row ::
  "string \<Rightarrow> (agent_row \<Rightarrow> agent_row) \<Rightarrow> store \<Rightarrow> string option \<times> store" where
  "update_agent_row h f s =
     (None, case map_of (st_agents s) h of
              None \<Rightarrow> s
            | Some r \<Rightarrow> s\<lparr>st_agents := gupd h (f r) (st_agents s)\<rparr>)"

definition update_agent_heartbeat ::
  "string option \<Rightarrow> int \<Rightarrow> string \<Rightarrow> store \<Rightarrow> string option \<times> store" where
  "update_agent_heartbeat fault now h =
     exec fault (update_agent_row h (\<lambda>r. r\<lparr>aw_last_heartbeat := now, aw_status := ''online''\<rparr>))"

definition set_agent_offline :: "string option \<Rightarrow> string \<Rightarrow> store \<Rightarrow> string option \<times> store" where
  "set_agent_offline fault h =
     exec fault (update_agent_row h (\<lambda>r. r\<lparr>aw_status := ''offline''\<rparr>))"

definition delete_agent :: "string option \<Rightarrow> string \<Rightarrow> store \<Rightarrow> string option \<times> store" where
  "delete_agent fault h = exec fault (\<lambda>s. (None, s\<lparr>st_agents := gdel h (st_agents s)\<rparr>))"

definition get_agent :: "string option \<Rightarrow> string \<Rightarrow> store \<Rightarrow> agent_row go_result" where
  "get_agent fault h s =
     (case fault of
        Some e \<Rightarrow> Inl e
      | None \<Rightarrow> (case map_of (st_agents s) h of None \<Rightarrow> Inl err_not_found | Some r \<Rightarrow> Inr r))"

section \<open>\<open>center_instances\<close>\<close>

definition upsert_center :: "string option \<Rightarrow> int \<Rightarrow> string \<Rightarrow> string \<Rightarrow> store \<Rightarrow> string option \<times> store" where
  "upsert_center fault now inst addr =
     exec fault (\<lambda>s. (None, s\<lparr>st_centers :=
       gupd inst \<lparr>cw_internal_address = addr, cw_last_heartbeat = now\<rparr> (st_centers s)\<rparr>))"

definition delete_center :: "string option \<Rightarrow> string \<Rightarrow> store \<Rightarrow> string option \<times> store" where
  "delete_center fault inst = exec fault (\<lambda>s. (None, s\<lparr>st_centers := gdel inst (st_centers s)\<rparr>))"

definition get_center_address :: "string option \<Rightarrow> string \<Rightarrow> store \<Rightarrow> string go_result" where
  "get_center_address fault inst s =
     (case fault of
        Some e \<Rightarrow> Inl e
      | None \<Rightarrow> (case map_of (st_centers s) inst of
                   None \<Rightarrow> Inl err_not_found
                 | Some c \<Rightarrow> Inr (cw_internal_address c)))"

section \<open>\<open>tool_call_logs\<close>\<close>

definition insert_tool_call_log ::
  "string option \<Rightarrow> string \<Rightarrow> string \<Rightarrow> string \<Rightarrow> string \<Rightarrow> string \<Rightarrow> store \<Rightarrow> string option \<times> store" where
  "insert_tool_call_log fault rid cid target tool args =
     exec fault (\<lambda>s.
       (None, case map_of (st_logs s) rid of
                Some _ \<Rightarrow> s
              | None \<Rightarrow> s\<lparr>st_logs := gupd rid \<lparr>lw_center_id = cid, lw_target_host = target,
                  lw_tool_name = tool, lw_args_json = args, lw_result_json = None,
                  lw_error_msg = None, lw_completed_at = None\<rparr> (st_logs s)\<rparr>))"

definition complete_tool_call_log ::
  "string option \<Rightarrow> int \<Rightarrow> string \<Rightarrow> string \<Rightarrow> string \<Rightarrow> store \<Rightarrow> string option \<times> store" where
  "complete_tool_call_log fault now rid res err =
     exec fault (\<lambda>s.
       (None, case map_of (st_logs s) rid of
                None \<Rightarrow> s
              | Some l \<Rightarrow> s\<lparr>st_logs := gupd rid (l\<lparr>lw_result_json := Some res,
                  lw_error_msg := Some err, lw_completed_at := Some now\<rparr>) (st_logs s)\<rparr>))"

section \<open>The contract of the agent table\<close>

text \<open>What \<open>TunnelService\<close> uses through its interface \<open>AgentPersister\<close> and what
  \<open>ha.RouterBridge\<close> reads back, for statements that run.\<close>

locale agent_persister =
  fixes row :: "'s \<Rightarrow> string \<Rightarrow> agent_row option"
    and upsert :: "agent_row \<Rightarrow> 's \<Rightarrow> 's"
    and heartbeat :: "int \<Rightarrow> string \<Rightarrow> 's \<Rightarrow> 's"
    and offline :: "string \<Rightarrow> 's \<Rightarrow> 's"
  assumes row_upsert: "status_check (aw_status r) \<Longrightarrow>
      row (upsert r s) h = (if h = aw_hostname r then Some r else row s h)"
    and row_heartbeat: "row (heartbeat now g s) h =
      (if h = g then map_option (\<lambda>r. r\<lparr>aw_last_heartbeat := now, aw_status := ''online''\<rparr>) (row s h) else row s h)"
    and row_offline: "row (offline g s) h =
      (if h = g then map_option (\<lambda>r. r\<lparr>aw_status := ''offline''\<rparr>) (row s h) else row s h)"
begin

text \<open>The two status writes do not commute: the later one wins.\<close>

lemma late_heartbeat_revives:
  "row s h = Some r \<Longrightarrow> map_option aw_status (row (heartbeat now h (offline h s)) h) = Some ''online''"
  by (simp add: row_heartbeat row_offline)

lemma status_writes_keep_owner:
  "map_option aw_center_id (row (heartbeat now g s) h) = map_option aw_center_id (row s h)"
  "map_option aw_center_id (row (offline g s) h) = map_option aw_center_id (row s h)"
  by (simp_all add: row_heartbeat row_offline option.map_comp o_def)

lemma upsert_claims:
  "status_check (aw_status r) \<Longrightarrow>
   map_option aw_center_id (row (upsert r s) (aw_hostname r)) = Some (aw_center_id r)"
  by (simp add: row_upsert)

end

definition agent_row_of :: "store \<Rightarrow> string \<Rightarrow> agent_row option" where
  "agent_row_of s h = map_of (st_agents s) h"

lemma get_agent_row: "get_agent None h s =
    (case agent_row_of s h of None \<Rightarrow> Inl err_not_found | Some r \<Rightarrow> Inr r)"
  by (simp add: get_agent_def agent_row_of_def)

lemma agent_row_of_update:
  "agent_row_of (snd (update_agent_row g f s)) h =
     (if h = g then map_option f (agent_row_of s h) else agent_row_of s h)"
  by (auto simp: agent_row_of_def update_agent_row_def split: option.splits)

interpretation agent_table: agent_persister agent_row_of
  "\<lambda>r s. snd (upsert_agent None r s)" "\<lambda>now h s. snd (update_agent_heartbeat None now h s)"
  "\<lambda>h s. snd (set_agent_offline None h s)"
  by unfold_locales
    (simp_all add: agent_row_of_def upsert_agent_def update_agent_heartbeat_def set_agent_offline_def
      exec_def agent_row_of_update [unfolded agent_row_of_def])

text \<open>A statement that fails changes nothing.\<close>

lemma faulty_statements_change_nothing [simp]:
  "upsert_agent (Some e) r s = (Some e, s)"
  "update_agent_heartbeat (Some e) now h s = (Some e, s)"
  "set_agent_offline (Some e) h s = (Some e, s)"
  "insert_tool_call_log (Some e) rid cid target tool args s = (Some e, s)"
  "complete_tool_call_log (Some e) now rid res err s = (Some e, s)"
  by (simp_all add: upsert_agent_def update_agent_heartbeat_def set_agent_offline_def
      insert_tool_call_log_def complete_tool_call_log_def exec_def)

text \<open>The log row of a tool call is written once: whatever later calls insert under the
  same request id, the call that came first stays, and completing the request fills in its
  result and error without touching what was called, by whom, and on which host.\<close>

theorem call_log_first_insert_wins:
  assumes "map_of (st_logs s) rid = None"
  shows "map_of (st_logs (snd (complete_tool_call_log None now rid res err
           (snd (insert_tool_call_log None rid cid' target' tool' args'
             (snd (insert_tool_call_log None rid cid target tool args s))))))) rid =
         Some \<lparr>lw_center_id = cid, lw_target_host = target, lw_tool_name = tool, lw_args_json = args,
               lw_result_json = Some res, lw_error_msg = Some err, lw_completed_at = Some now\<rparr>"
  using assms by (simp add: insert_tool_call_log_def complete_tool_call_log_def exec_def)

lemma call_log_first_insert_wins_witness:
  "map_option lw_target_host (map_of (st_logs (snd (complete_tool_call_log None 5 ''r'' ''{}'' ''''
     (snd (insert_tool_call_log None ''r'' ''c2'' ''h2'' ''t'' ''{}''
       (snd (insert_tool_call_log None ''r'' ''c1'' ''h1'' ''t'' ''{}'' empty_store))))))) ''r'') = Some ''h1''"
  using call_log_first_insert_wins [of empty_store "''r''" 5 "''{}''" "''''" "''c2''" "''h2''" "''t''" "''{}''"
      "''c1''" "''h1''" "''t''" "''{}''"]
  by (simp add: empty_store_def)

end
