(* ===== verification/Ha_Bridge.thy ===== *)
theory Ha_Bridge
  imports Router Store Go_Strings
begin

text \<open>
  High availability: \<open>internal/sysplane-center/ha/{registration,router_bridge,forwarder}.go\<close>
  and the handler of \<open>/internal/forward\<close> in \<open>run.go\<close>.  A center that does not hold a host
  asks the database which center does, and posts the request to that center's internal
  address.

  Parameters: JSON (\<open>encoding/json\<close>), the HTTP transport, and, for the handler, the outcome
  of \<open>Router.Send\<close>, which theory \<open>Router\<close> models.
\<close>

section \<open>Registration of center instances\<close>

record registrar =
  rg_instance :: string
  rg_address :: string

datatype registrar_event = RegTick "string option" int | RegDone "string option"

text \<open>\<open>Start\<close>: the first write, whose failure is returned, and the background loop.\<close>

definition registrar_start :: "registrar \<Rightarrow> string option \<Rightarrow> int \<Rightarrow> store \<Rightarrow> string option \<times> store" where
  "registrar_start g fault now s =
     (let (err, s') = upsert_center fault now (rg_instance g) (rg_address g) s
      in (map_option (\<lambda>e. ''ha: register center: '' @ e) err, s'))"

fun registrar_loop :: "registrar \<Rightarrow> registrar_event list \<Rightarrow> store \<Rightarrow> store" where
  "registrar_loop g [] s = s"
| "registrar_loop g (RegDone fault # es) s = snd (delete_center fault (rg_instance g) s)"
| "registrar_loop g (RegTick fault now # es) s =
     registrar_loop g es (snd (upsert_center fault now (rg_instance g) (rg_address g) s))"

section \<open>Forwarding\<close>

record forward_req =
  fw_request_id :: string
  fw_tool_name :: string
  fw_args_json :: string
  fw_target_host :: string

record forward_resp =
  fr_result_json :: string
  fr_error :: string

record json_codec =
  jc_encode_req :: "forward_req \<Rightarrow> string"
  jc_decode_req :: "string \<Rightarrow> forward_req go_result"
  jc_encode_resp :: "forward_resp \<Rightarrow> string"
  jc_decode_resp :: "string \<Rightarrow> forward_resp go_result"

record http_call =
  hc_url :: string
  hc_content_type :: string
  hc_auth :: "string option"
  hc_body :: string
  hc_skip_verify :: bool

record transport =
  tr_url_error :: "string \<Rightarrow> string option"
  tr_do :: "http_call \<Rightarrow> go_err + (int \<times> string)"

text \<open>\<open>fmt.Errorf\<close> with \<open>%w\<close>: the text grows, what \<open>errors.Is\<close> finds stays.\<close>

definition wrap_err :: "string \<Rightarrow> go_err \<Rightarrow> go_err" where
  "wrap_err pre e = GoErr (err_is e) (pre @ err_text e)"

definition plain_err :: "string \<Rightarrow> go_err" where
  "plain_err t = GoErr SNone t"

definition body_limit :: nat where "body_limit = 32 * 2 ^ 20"

definition forward_call :: "json_codec \<Rightarrow> string \<Rightarrow> string \<Rightarrow> forward_req \<Rightarrow> bool \<Rightarrow> bool \<Rightarrow> http_call" where
  "forward_call jc addr secret req use_tls skip_verify =
     \<lparr>hc_url = (if use_tls then ''https'' else ''http'') @ ''://'' @ addr @ ''/internal/forward'',
      hc_content_type = ''application/json'',
      hc_auth = (if secret \<noteq> [] then Some secret else None),
      hc_body = jc_encode_req jc req, hc_skip_verify = use_tls \<and> skip_verify\<rparr>"

definition forward_to_center ::
  "json_codec \<Rightarrow> transport \<Rightarrow> string \<Rightarrow> string \<Rightarrow> forward_req \<Rightarrow> bool \<Rightarrow> bool \<Rightarrow> go_err + string" where
  "forward_to_center jc tr addr secret req use_tls skip_verify =
     (let call = forward_call jc addr secret req use_tls skip_verify in
      case tr_url_error tr (hc_url call) of
        Some e \<Rightarrow> Inl (plain_err (''ha: build forward request: '' @ e))
      | None \<Rightarrow>
     (case tr_do tr call of
        Inl e \<Rightarrow> Inl (wrap_err ''ha: forward request: '' e)
      | Inr (code, body) \<Rightarrow>
          if code = 401
          then Inl (plain_err ''ha: /internal/forward rejected (401 Unauthorized) - check ha.internal_secret config'')
          else (case jc_decode_resp jc (take body_limit body) of
                  Inl e \<Rightarrow> Inl (plain_err (''ha: decode response: '' @ e))
                | Inr resp \<Rightarrow>
                    if fr_error resp \<noteq> [] then Inl (plain_err (''ha: remote error: '' @ fr_error resp))
                    else Inr (fr_result_json resp))))"

record router_bridge =
  rb_instance :: string
  rb_secret :: string
  rb_use_tls :: bool
  rb_skip_verify :: bool

text \<open>\<open>ForwardIfNeeded\<close>: result, whether the request was forwarded, error.\<close>

definition forward_if_needed ::
  "json_codec \<Rightarrow> transport \<Rightarrow> router_bridge \<Rightarrow> go_err option \<Rightarrow> go_err option \<Rightarrow> store
   \<Rightarrow> string \<Rightarrow> string \<Rightarrow> string \<Rightarrow> string \<Rightarrow> string \<times> bool \<times> go_err option" where
  "forward_if_needed jc tr b fault1 fault2 st rid host tool args =
     (case get_agent (map_option err_text fault1) host st of
        Inl _ \<Rightarrow>
          (case fault1 of
             None \<Rightarrow> ([], False, None)
           | Some e \<Rightarrow> ([], True, Some (wrap_err (''ha: query agent '' @ host @ '': '') e)))
      | Inr row \<Rightarrow>
          if aw_center_id row = rb_instance b then ([], False, None)
          else
            (case get_center_address (map_option err_text fault2) (aw_center_id row) st of
               Inl t \<Rightarrow> ([], False, Some (wrap_err (''ha: center instance '' @ aw_center_id row @ '' address not found: '')
                          (case fault2 of Some e \<Rightarrow> e | None \<Rightarrow> plain_err t)))
             | Inr addr \<Rightarrow>
                 (case forward_to_center jc tr addr (rb_secret b)
                         \<lparr>fw_request_id = rid, fw_tool_name = tool, fw_args_json = args, fw_target_host = host\<rparr>
                         (rb_use_tls b) (rb_skip_verify b) of
                    Inl e \<Rightarrow> ([], True, Some e)
                  | Inr res \<Rightarrow> (res, True, None))))"

section \<open>The receiving handler\<close>

record internal_request =
  ir_method :: string
  ir_auth :: string
  ir_body :: string

definition forward_answer :: "go_err + string \<Rightarrow> forward_resp" where
  "forward_answer outcome = (case outcome of
       Inl e \<Rightarrow> \<lparr>fr_result_json = [], fr_error = err_text e\<rparr>
     | Inr j \<Rightarrow> \<lparr>fr_result_json = j, fr_error = []\<rparr>)"

text \<open>The answer is the status and the body; \<open>logs\<close> is the store when call logging is on.
  The faults are those of the two log statements, whose errors the code discards.\<close>

definition internal_forward ::
  "json_codec \<Rightarrow> string \<Rightarrow> string \<Rightarrow> (agent_record \<Rightarrow> string \<Rightarrow> string \<Rightarrow> string \<Rightarrow> go_err + string)
   \<Rightarrow> string option \<Rightarrow> string option \<Rightarrow> int \<Rightarrow> center_registry \<Rightarrow> internal_request \<Rightarrow> store option
   \<Rightarrow> (int \<times> string) \<times> store option" where
  "internal_forward jc secret inst send fault1 fault2 now reg r logs =
     (if ir_method r \<noteq> ''POST'' then ((405, ''method not allowed''), logs)
      else if secret \<noteq> [] \<and> ir_auth r \<noteq> secret then ((401, ''unauthorized''), logs)
      else case jc_decode_req jc (ir_body r) of
        Inl _ \<Rightarrow> ((400, ''invalid request body''), logs)
      | Inr req \<Rightarrow>
          (case registry_lookup reg (fw_target_host req) of
             None \<Rightarrow>
               ((200, jc_encode_resp jc \<lparr>fr_result_json = [],
                        fr_error = ''agent '' @ go_quote (fw_target_host req) @ '' not found''\<rparr>), logs)
           | Some rec \<Rightarrow>
               let logs1 = map_option (\<lambda>st. snd (insert_tool_call_log fault1 (fw_request_id req) inst
                     (fw_target_host req) (fw_tool_name req) (fw_args_json req) st)) logs;
                   outcome = send rec (fw_request_id req) (fw_tool_name req) (fw_args_json req);
                   res = (case outcome of Inl _ \<Rightarrow> [] | Inr j \<Rightarrow> j);
                   msg = (case outcome of Inl e \<Rightarrow> err_text e | Inr _ \<Rightarrow> []);
                   logs2 = map_option (\<lambda>st. snd (complete_tool_call_log fault2 now (fw_request_id req) res msg st)) logs1
               in ((200, jc_encode_resp jc (forward_answer outcome)), logs2)))"

text \<open>What the sending side has to rely on about JSON: decoding undoes encoding.\<close>

definition json_ok :: "json_codec \<Rightarrow> bool" where
  "json_ok jc \<longleftrightarrow> (\<forall>r. jc_decode_req jc (jc_encode_req jc r) = Inr r) \<and>
                 (\<forall>r. jc_decode_resp jc (jc_encode_resp jc r) = Inr r)"

text \<open>A transport that carries the call to the handler of the other center.\<close>

definition wire :: "(internal_request \<Rightarrow> int \<times> string) \<Rightarrow> transport" where
  "wire handler = \<lparr>tr_url_error = (\<lambda>_. None),
     tr_do = (\<lambda>call. Inr (handler \<lparr>ir_method = ''POST'', ir_auth = (case hc_auth call of None \<Rightarrow> [] | Some a \<Rightarrow> a),
                               ir_body = hc_body call\<rparr>))\<rparr>"

section \<open>Properties\<close>


text \<open>A request without the configured secret reaches no agent and writes no log: it is
  answered 401 whatever the rest of it says.\<close>

theorem internal_forward_needs_secret:
  assumes "secret \<noteq> []" and "ir_auth r \<noteq> secret" and "ir_method r = ''POST''"
  shows "internal_forward jc secret inst send f1 f2 now reg r logs = ((401, ''unauthorized''), logs)"
  using assms by (simp add: internal_forward_def)

text \<open>When the other center's row is missing or cannot be read, \<open>ForwardIfNeeded\<close> reports an
  error together with \<open>forwarded = false\<close>, unlike the failure to read the agent's own row.\<close>

theorem missing_owner_reports_not_forwarded:
  assumes "map_of (st_agents st) host = Some row" and "aw_center_id row \<noteq> rb_instance b"
    and "map_of (st_centers st) (aw_center_id row) = None \<or> fault2 \<noteq> None"
  shows "(\<exists>e. forward_if_needed jc tr b None fault2 st rid host tool args = ([], False, Some e)) \<and>
         (\<exists>e. forward_if_needed jc tr b (Some f) fault2 st rid host tool args = ([], True, Some e))"
  using assms
  by (cases fault2) (simp_all add: forward_if_needed_def get_agent_def get_center_address_def)

lemma registrar_ticks_address:
  "list_all (\<lambda>e. \<exists>f now. e = RegTick f now) es \<Longrightarrow>
   get_center_address None (rg_instance g) s = Inr (rg_address g) \<Longrightarrow>
   get_center_address None (rg_instance g) (registrar_loop g es s) = Inr (rg_address g)"
proof (induction es arbitrary: s)
  case Nil
  then show ?case by simp
next
  case (Cons e es)
  then obtain f now where e: "e = RegTick f now" by auto
  have "get_center_address None (rg_instance g) (snd (upsert_center f now (rg_instance g) (rg_address g) s)) = Inr (rg_address g)"
    using Cons.prems(2) by (simp add: upsert_center_def exec_def get_center_address_def split: option.splits)
  with Cons e show ?case by simp
qed

lemma registrar_loop_append:
  "list_all (\<lambda>e. \<exists>f now. e = RegTick f now) es \<Longrightarrow>
   registrar_loop g (es @ fs) s = registrar_loop g fs (registrar_loop g es s)"
  by (induction es arbitrary: s) auto

text \<open>Once its first registration is written, a center's row holds its own internal address
  through every sequence of heartbeats, including failed ones; the shutdown removes it and
  nothing that would follow brings it back.\<close>

theorem registrar_row:
  assumes "list_all (\<lambda>e. \<exists>f now. e = RegTick f now) es"
    and "s1 = snd (registrar_start g None now s)"
  shows "fst (registrar_start g None now s) = None \<and>
         get_center_address None (rg_instance g) (registrar_loop g es s1) = Inr (rg_address g) \<and>
         get_center_address None (rg_instance g) (registrar_loop g (es @ RegDone None # fs) s1) = Inl err_not_found"
proof -
  have s1: "get_center_address None (rg_instance g) s1 = Inr (rg_address g)"
    by (simp add: assms(2) registrar_start_def upsert_center_def exec_def get_center_address_def)
  show ?thesis
    using registrar_ticks_address [OF assms(1) s1] registrar_loop_append [OF assms(1), of g "RegDone None # fs" s1]
    by (simp add: registrar_start_def upsert_center_def exec_def delete_center_def get_center_address_def)
qed

section \<open>Concrete inputs\<close>

text \<open>A codec that meets the hypothesis: each string preceded by its length in unary.\<close>

definition enc_str :: "string \<Rightarrow> string" where
  "enc_str a = replicate (length a) (CHR ''1'') @ CHR ''0'' # a"

definition dec_str :: "string \<Rightarrow> string \<times> string" where
  "dec_str s = (let n = length (takeWhile (\<lambda>c. c = CHR ''1'') s); r = drop (Suc n) s in (take n r, drop n r))"

lemma dec_enc_str [simp]: "dec_str (enc_str a @ r) = (a, r)"
proof -
  have "takeWhile (\<lambda>c. c = CHR ''1'') (replicate n (CHR ''1'') @ CHR ''0'' # t) = replicate n (CHR ''1'')" for n t
    by (induction n) auto
  then show ?thesis by (simp add: dec_str_def enc_str_def Let_def)
qed

definition toy_codec :: json_codec where
  "toy_codec =
     \<lparr>jc_encode_req = (\<lambda>r. enc_str (fw_request_id r) @ enc_str (fw_tool_name r) @ enc_str (fw_args_json r) @ enc_str (fw_target_host r) @ []),
      jc_decode_req = (\<lambda>s. let (a, s1) = dec_str s; (b, s2) = dec_str s1; (c, s3) = dec_str s2; (d, s4) = dec_str s3
                           in Inr \<lparr>fw_request_id = a, fw_tool_name = b, fw_args_json = c, fw_target_host = d\<rparr>),
      jc_encode_resp = (\<lambda>r. enc_str (fr_result_json r) @ enc_str (fr_error r) @ []),
      jc_decode_resp = (\<lambda>s. let (a, s1) = dec_str s; (b, s2) = dec_str s1 in Inr \<lparr>fr_result_json = a, fr_error = b\<rparr>)\<rparr>"

lemma toy_codec_ok: "json_ok toy_codec"
  by (simp add: json_ok_def toy_codec_def del: append_Nil2)

definition sample_row :: agent_row where
  "sample_row = \<lparr>aw_hostname = ''n1'', aw_ip = [], aw_os = ''linux'', aw_agent_version = ''dev'', aw_node_type = ''agent'',
     aw_proxy_path = [], aw_center_id = ''center-b'', aw_status = ''online'', aw_registered_at = 0, aw_last_heartbeat = 0\<rparr>"

definition sample_store :: store where
  "sample_store = \<lparr>st_agents = [(''n1'', sample_row)],
     st_centers = [(''center-b'', \<lparr>cw_internal_address = ''10.0.0.2:80'', cw_last_heartbeat = 0\<rparr>)], st_logs = []\<rparr>"

definition sample_bridge :: router_bridge where
  "sample_bridge = \<lparr>rb_instance = ''center-a'', rb_secret = ''s3'', rb_use_tls = False, rb_skip_verify = False\<rparr>"


lemma internal_forward_needs_secret_witness:
  "internal_forward toy_codec ''s3'' ''center-b'' (\<lambda>rec rid tool args. Inr ''42'') None None 7 registry_new
     \<lparr>ir_method = ''POST'', ir_auth = ''guess'', ir_body = ''x''\<rparr> None = ((401, ''unauthorized''), None)"
  by (rule internal_forward_needs_secret) simp_all

lemma missing_owner_reports_not_forwarded_witness:
  "\<exists>e. forward_if_needed toy_codec (wire (\<lambda>_. (200, []))) sample_bridge None None
     (sample_store\<lparr>st_centers := []\<rparr>) ''q'' ''n1'' ''t'' ''{}'' = ([], False, Some e)"
  using missing_owner_reports_not_forwarded [of "sample_store\<lparr>st_centers := []\<rparr>" "''n1''" sample_row sample_bridge
      None toy_codec "wire (\<lambda>_. (200, []))" "''q''" "''t''" "''{}''" "plain_err ''f''"]
  by (simp add: sample_store_def sample_row_def sample_bridge_def)

lemma registrar_row_witness:
  "get_center_address None ''center-a'' (registrar_loop \<lparr>rg_instance = ''center-a'', rg_address = ''10.0.0.1:80''\<rparr>
     [RegTick (Some ''timeout'') 5, RegTick None 6]
     (snd (registrar_start \<lparr>rg_instance = ''center-a'', rg_address = ''10.0.0.1:80''\<rparr> None 0 empty_store))) = Inr ''10.0.0.1:80''"
  using registrar_row [of "[RegTick (Some ''timeout'') 5, RegTick None 6]" _
      "\<lparr>rg_instance = ''center-a'', rg_address = ''10.0.0.1:80''\<rparr>" 0 empty_store]
  by simp

end
