(* ===== verification/Admin_Exec.thy ===== *)
theory Admin_Exec
  imports Admin_Templates Ha_Bridge
begin

text \<open>
  How the admin service runs one tool on one node (\<open>admin/service.go\<close>): the table of builtin
  actions with their argument and result mappings, \<open>invokeToolWithRequest\<close> with its choice
  between the local router and the other centers, the classification of errors, and
  \<open>ExecTemplate\<close>.  Parameters, gathered in \<open>exec_env\<close>: the registry as it is at that moment,
  the outcome of \<open>Router.Send\<close> and of \<open>ForwardIfNeeded\<close> (modelled in \<open>Router\<close> and \<open>Ha_Bridge\<close>),
  JSON, \<open>text/template\<close> and \<open>%v\<close>.  The calls of the call logger are returned as a list.
\<close>

section \<open>Environment\<close>

record exec_env =
  en_reg :: center_registry
  en_send :: "agent_record \<Rightarrow> string \<Rightarrow> string \<Rightarrow> string \<Rightarrow> go_err + string"
  en_forward :: "(string \<Rightarrow> string \<Rightarrow> string \<Rightarrow> string \<Rightarrow> string \<times> bool \<times> go_err option) option"
  en_logging :: bool
  en_instance :: string
  en_marshal :: "gany \<Rightarrow> string"
  en_unmarshal :: "string \<Rightarrow> gany option"
  en_render :: template_engine
  en_sprint :: "gany \<Rightarrow> string"

datatype log_op =
    LogInsert string string string string string
  | LogComplete string string string

section \<open>Builtin actions\<close>

record builtin_spec =
  bs_risk_level :: string
  bs_marshal :: "(gany \<Rightarrow> string) \<Rightarrow> params \<Rightarrow> string \<times> string"
  bs_transform :: "gany \<Rightarrow> gany"

definition marshal_tool_args :: "string \<Rightarrow> params \<Rightarrow> (gany \<Rightarrow> string) \<Rightarrow> string \<times> string" where
  "marshal_tool_args tool payload marshal = (tool, marshal (GMap payload))"

definition gint :: "int \<Rightarrow> gany" where
  "gint n = GNum (of_int n)"

definition keep_data :: "gany \<Rightarrow> gany" where "keep_data d = d"

definition transform_fs_list :: "gany \<Rightarrow> gany" where
  "transform_fs_list d = (case as_map d of None \<Rightarrow> d
     | Some obj \<Rightarrow> GMap [(''entries'', gidx obj ''items'')])"

definition transform_fs_read :: "gany \<Rightarrow> gany" where
  "transform_fs_read d = (case as_map d of None \<Rightarrow> d
     | Some obj \<Rightarrow> GMap [(''content'', gidx obj ''content''),
         (''encoding'', value_or (gidx obj ''encoding'') (GStr ''utf-8'')),
         (''truncated'', gidx obj ''truncated'')])"

definition transform_fs_stat :: "gany \<Rightarrow> gany" where
  "transform_fs_stat d = (case as_map d of None \<Rightarrow> d
     | Some obj \<Rightarrow> GMap [(''name'', gidx obj ''name''), (''type'', gidx obj ''type''), (''size'', gidx obj ''size''),
         (''mode'', first_non_nil [gidx obj ''mode'', gidx obj ''permissions'']),
         (''modified_at'', gidx obj ''modified_at'')])"

definition transform_sys_info :: "gany \<Rightarrow> gany" where
  "transform_sys_info d = (case as_map d of None \<Rightarrow> d
     | Some obj \<Rightarrow>
         let sys = (case as_map (gidx obj ''system'') of None \<Rightarrow> [] | Some m \<Rightarrow> m) in
         GMap [(''hostname'', gidx sys ''hostname''), (''os'', gidx sys ''os''), (''arch'', guess_arch sys obj),
           (''kernel'', gidx sys ''kernel_version''), (''uptime_sec'', gidx sys ''uptime_seconds'')])"

definition builtin_spec_for :: "string \<Rightarrow> builtin_spec svc_result" where
  "builtin_spec_for action =
     (let a = normalize_action action in
      if a = ''fs.list'' then
        Inr \<lparr>bs_risk_level = risk_readonly,
          bs_marshal = (\<lambda>m ps. marshal_tool_args ''list_directory''
            [(''path'', GStr (as_string (gidx ps ''path''))), (''show_hidden'', GBool (as_bool (gidx ps ''show_hidden''))),
             (''limit'', gint (as_int (gidx ps ''limit'')))] m),
          bs_transform = transform_fs_list\<rparr>
      else if a = ''fs.read'' then
        Inr \<lparr>bs_risk_level = risk_readonly,
          bs_marshal = (\<lambda>m ps. marshal_tool_args ''read_file''
            [(''path'', GStr (as_string (gidx ps ''path''))), (''offset'', gint (as_int64 (gidx ps ''offset''))),
             (''length'', gint (as_int64 (gidx ps ''length'')))] m),
          bs_transform = transform_fs_read\<rparr>
      else if a = ''fs.stat'' then
        Inr \<lparr>bs_risk_level = risk_readonly,
          bs_marshal = (\<lambda>m ps. marshal_tool_args ''stat_file'' [(''path'', GStr (as_string (gidx ps ''path'')))] m),
          bs_transform = transform_fs_stat\<rparr>
      else if a = ''fs.write'' then
        Inr \<lparr>bs_risk_level = risk_mutating,
          bs_marshal = (\<lambda>m ps. marshal_tool_args ''write_file''
            [(''path'', GStr (as_string (gidx ps ''path''))), (''content'', GStr (as_string (gidx ps ''content''))),
             (''overwrite'', GBool (as_bool (gidx ps ''overwrite'')))] m),
          bs_transform = keep_data\<rparr>
      else if a = ''sys.hardware'' then
        Inr \<lparr>bs_risk_level = risk_readonly, bs_marshal = (\<lambda>m ps. (''get_hardware_info'', ''{}'')), bs_transform = keep_data\<rparr>
      else if a = ''sys.info'' then
        Inr \<lparr>bs_risk_level = risk_readonly, bs_marshal = (\<lambda>m ps. (''get_hardware_info'', ''{}'')), bs_transform = transform_sys_info\<rparr>
      else if a = ''config.get'' then
        Inr \<lparr>bs_risk_level = risk_readonly, bs_marshal = (\<lambda>m ps. (''get_agent_config'', ''{}'')), bs_transform = keep_data\<rparr>
      else if a = ''config.set'' then
        Inr \<lparr>bs_risk_level = risk_mutating, bs_marshal = (\<lambda>m ps. (''set_agent_config'', m (GMap ps))), bs_transform = keep_data\<rparr>
      else Inl (invalid_arg 400 (''unsupported action '' @ go_quote action)))"

section \<open>Calling a tool\<close>

definition err_node_not_found :: go_err where "err_node_not_found = GoErr SNodeNotFound ''node not found''"
definition err_node_offline :: go_err where "err_node_offline = GoErr SNodeOffline ''node offline''"

definition decode_result :: "exec_env \<Rightarrow> string \<Rightarrow> gany" where
  "decode_result env json = (case en_unmarshal env json of Some v \<Rightarrow> v | None \<Rightarrow> GStr json)"

definition log_begin :: "exec_env \<Rightarrow> string \<Rightarrow> string \<Rightarrow> string \<Rightarrow> string \<Rightarrow> log_op list" where
  "log_begin env rid node tool args = (if en_logging env then [LogInsert rid (en_instance env) node tool args] else [])"

definition log_end :: "exec_env \<Rightarrow> string \<Rightarrow> string \<Rightarrow> go_err option \<Rightarrow> log_op list" where
  "log_end env rid json err =
     (if en_logging env then [LogComplete rid json (case err of None \<Rightarrow> [] | Some e \<Rightarrow> err_text e)] else [])"

definition invoke_tool :: "exec_env \<Rightarrow> string \<Rightarrow> string \<Rightarrow> string \<Rightarrow> string \<Rightarrow> (go_err + gany) \<times> log_op list" where
  "invoke_tool env rid node tool args =
     (case registry_lookup (en_reg env) node of
        None \<Rightarrow>
          (case en_forward env of
             None \<Rightarrow> (Inl err_node_not_found, [])
           | Some fwd \<Rightarrow>
               let (json, forwarded, err) = fwd rid node tool args;
                   logs = log_begin env rid node tool args @ log_end env rid json err
               in if forwarded
                  then (case err of Some e \<Rightarrow> (Inl e, logs) | None \<Rightarrow> (Inr (decode_result env json), logs))
                  else (Inl err_node_not_found, logs))
      | Some rec \<Rightarrow>
          if ar_node_type rec \<noteq> ''agent'' then (Inl err_node_not_found, [])
          else if ar_status rec \<noteq> StatusOnline then (Inl err_node_offline, [])
          else
            (case en_send env rec rid tool args of
               Inl e \<Rightarrow> (Inl e, log_begin env rid node tool args @ log_end env rid [] (Some e))
             | Inr json \<Rightarrow> (Inr (decode_result env json), log_begin env rid node tool args @ log_end env rid json None)))"

definition inv_err :: "string \<Rightarrow> string \<Rightarrow> params \<Rightarrow> invocation_error" where
  "inv_err code msg details = \<lparr>ie_code = code, ie_message = msg, ie_details = details\<rparr>"

definition classify_invoke_error :: "string \<Rightarrow> go_err \<Rightarrow> invocation_error" where
  "classify_invoke_error node err =
     (let details = [(''node_id'', GStr node)]; msg = err_text err in
      case err_is err of
        SNodeNotFound \<Rightarrow> inv_err ''NODE_NOT_FOUND'' ''target node was not found'' details
      | SNodeOffline \<Rightarrow> inv_err ''NODE_OFFLINE'' ''target node is offline'' details
      | SCanceled \<Rightarrow> inv_err ''CANCELED'' ''invocation was canceled'' details
      | SCtxCanceled \<Rightarrow> inv_err ''CANCELED'' ''invocation was canceled'' details
      | STimeout \<Rightarrow> inv_err ''TIMEOUT'' ''upstream execution timed out'' details
      | SCtxDeadline \<Rightarrow> inv_err ''TIMEOUT'' ''upstream execution timed out'' details
      | SNone \<Rightarrow>
          if str_contains msg ''HOST_NOT_FOUND'' \<or> str_contains msg ''agent not found''
          then inv_err ''NODE_NOT_FOUND'' ''target node was not found'' details
          else if str_contains (to_lower msg) ''denied'' \<or> str_contains msg ''exceeds limit''
          then inv_err ''POLICY_DENIED'' msg details
          else inv_err ''INTERNAL_ERROR'' msg details)"

definition status_from_error_code :: "string \<Rightarrow> string" where
  "status_from_error_code code = (if code = ''CANCELED'' then st_canceled else st_failed)"

section \<open>Executing an action on a node\<close>

definition execute_builtin ::
  "exec_env \<Rightarrow> string \<Rightarrow> string \<Rightarrow> execution_plan \<Rightarrow> (invocation_error + gany) \<times> log_op list" where
  "execute_builtin env rid node plan =
     (case builtin_spec_for (ep_action plan) of
        Inl e \<Rightarrow> (Inl (inv_err ''INVALID_ARGUMENT'' (se_message e) []), [])
      | Inr spec \<Rightarrow>
          let (tool, args) = bs_marshal spec (en_marshal env) (ep_params plan);
              (res, logs) = invoke_tool env rid node tool args
          in (case res of
                Inl e \<Rightarrow> (Inl (classify_invoke_error node e), logs)
              | Inr d \<Rightarrow> (Inr (bs_transform spec d), logs)))"

definition node_os :: "agent_record option \<Rightarrow> string" where
  "node_os rec = (case rec of None \<Rightarrow> [] | Some r \<Rightarrow> if ar_os r = [] then [] else hd (split_char slash (ar_os r)))"

text \<open>\<open>%.0f\<close>: nearest integer, ties to even, with the sign of the number.\<close>

definition round_even :: "rat \<Rightarrow> int" where
  "round_even x = (let f = \<lfloor>x\<rfloor>; d = x - of_int f in
     if d < 1 / 2 then f else if d > 1 / 2 then f + 1 else if even f then f else f + 1)"

definition fmt_f0 :: "rat \<Rightarrow> string" where
  "fmt_f0 x = (if x < 0 then ''-'' @ dec_of_int (round_even (- x)) else dec_of_int (round_even x))"

definition gstrs :: "string list \<Rightarrow> gany" where
  "gstrs xs = GArr (map GStr xs)"

definition process_payload :: "string \<Rightarrow> string list \<Rightarrow> int \<Rightarrow> int \<Rightarrow> gany" where
  "process_payload command args timeout max_out =
     GMap [(''command'', GStr command), (''args'', gstrs args), (''timeout_sec'', gint timeout), (''max_output_bytes'', gint max_out)]"

definition command_failed :: "params \<Rightarrow> invocation_error" where
  "command_failed obj =
     (let code = (case gidx obj ''exit_code'' of GNum x \<Rightarrow> x | _ \<Rightarrow> 0) in
      inv_err ''COMMAND_FAILED'' (''process exited with code '' @ fmt_f0 code)
        [(''stdout'', gidx obj ''stdout''), (''stderr'', gidx obj ''stderr''), (''exit_code'', gidx obj ''exit_code'')])"

text \<open>A plan without a template would be a nil dereference in the source; \<open>prepare_plan\<close> never
  makes one.\<close>

definition execute_template ::
  "exec_env \<Rightarrow> string \<Rightarrow> string \<Rightarrow> execution_plan \<Rightarrow> (invocation_error + gany) \<times> log_op list" where
  "execute_template env rid node plan =
     (case ep_template plan of
        None \<Rightarrow> (Inl (inv_err ''PANIC'' ''nil template'' []), [])
      | Some tpl \<Rightarrow>
          if \<not> matches_target_os (tpl_target_os tpl) (node_os (registry_lookup (en_reg env) node))
          then (Inl (inv_err ''CAPABILITY_DISABLED'' ''template is not enabled for target node platform'' []), [])
          else
            (case render_template_command (en_render env) tpl (ep_params plan) of
               Inl e \<Rightarrow> (Inl (inv_err ''INVALID_ARGUMENT'' e []), [])
             | Inr (command, args) \<Rightarrow>
                 let raw = en_marshal env (process_payload command args (ep_timeout_sec plan) (tpl_max_output_bytes tpl));
                     (res, logs) = invoke_tool env (rid @ ''-'' @ node) node ''run_process'' raw
                 in (case res of
                       Inl e \<Rightarrow> (Inl (classify_invoke_error node e), logs)
                     | Inr d \<Rightarrow>
                         (case as_map d of
                            None \<Rightarrow> (Inr d, logs)
                          | Some obj \<Rightarrow>
                              if \<not> as_bool (gidx obj ''success'') then (Inl (command_failed obj), logs)
                              else (Inr d, logs)))))"

definition execute_target ::
  "exec_env \<Rightarrow> int \<Rightarrow> int \<Rightarrow> string \<Rightarrow> string \<Rightarrow> execution_plan \<Rightarrow> invocation_result \<times> log_op list" where
  "execute_target env started finished rid node plan =
     (let (res, logs) = (if ep_action_type plan = action_builtin then execute_builtin env rid node plan
                         else execute_template env rid node plan);
          r0 = \<lparr>res_node_id = node, res_hostname = node, res_status = st_failed, res_started_at = started,
                res_finished_at = finished, res_data = GNil, res_error = None\<rparr>
      in (case res of
            Inl e \<Rightarrow> r0\<lparr>res_status := status_from_error_code (ie_code e), res_error := Some e\<rparr>
          | Inr d \<Rightarrow> r0\<lparr>res_status := st_succeeded, res_data := d\<rparr>, logs))"

section \<open>\<open>ExecTemplate\<close>\<close>

record exec_result =
  xr_stdout :: string
  xr_stderr :: string
  xr_exit_code :: int

definition exec_err_http_status :: "string \<Rightarrow> int" where
  "exec_err_http_status code =
     (if code = ''NODE_NOT_FOUND'' then 404
      else if code = ''NODE_OFFLINE'' then 503
      else if code = ''TIMEOUT'' then 504
      else if code = ''CANCELED'' then 409
      else if code = ''POLICY_DENIED'' \<or> code = ''FORBIDDEN'' then 403
      else 500)"

definition panic_error :: svc_error where
  "panic_error = svc_err 0 ''PANIC'' ''interface conversion''"

definition exec_template ::
  "exec_env \<Rightarrow> request_meta \<Rightarrow> string \<Rightarrow> string \<Rightarrow> params \<Rightarrow> int \<Rightarrow> service
   \<Rightarrow> exec_result svc_result \<times> log_op list \<times> service" where
  "exec_template env meta0 node ref ps timeout_sec s0 =
     (let (meta, s) = normalize_meta meta0 s0 in
      case resolve_template ref s of Inl e \<Rightarrow> (Inl e, [], s) | Inr tpl \<Rightarrow>
      if \<not> tpl_enabled tpl
      then (Inl (svc_err 422 ''COMMAND_TEMPLATE_DISABLED'' ''command template is disabled''), [], s)
      else case allow_risk (id_domain (rm_identity meta)) (tpl_risk_level tpl) of Some e \<Rightarrow> (Inl e, [], s) | None \<Rightarrow>
      case validate_params (tpl_params_schema tpl) ps of
        CheckErr e \<Rightarrow> (Inl e, [], s)
      | CheckPanic \<Rightarrow> (Inl panic_error, [], s)
      | CheckOk \<Rightarrow>
      if \<not> matches_target_os (tpl_target_os tpl) (node_os (registry_lookup (en_reg env) node))
      then (Inl (svc_err 422 ''CAPABILITY_DISABLED'' ''template is not enabled for target node platform''), [], s)
      else case render_template_command (en_render env) tpl ps of
        Inl e \<Rightarrow> (Inl (invalid_arg 422 e), [], s)
      | Inr (command, args) \<Rightarrow>
          let timeout = normalize_timeout timeout_sec (tpl_default_timeout_sec tpl) (tpl_max_timeout_sec tpl);
              raw = en_marshal env (process_payload command args timeout (tpl_max_output_bytes tpl));
              (res, logs) = invoke_tool env (rm_request_id meta) node ''run_process'' raw
          in (case res of
                Inl e \<Rightarrow>
                  let i = classify_invoke_error node e in
                  (Inl \<lparr>se_status = exec_err_http_status (ie_code i), se_code = ie_code i,
                        se_message = ie_message i, se_details = ie_details i\<rparr>, logs, s)
              | Inr d \<Rightarrow>
                  (case as_map d of
                     None \<Rightarrow> (Inr \<lparr>xr_stdout = en_sprint env d, xr_stderr = [], xr_exit_code = 0\<rparr>, logs, s)
                   | Some obj \<Rightarrow>
                       (Inr \<lparr>xr_stdout = as_string (gidx obj ''stdout''), xr_stderr = as_string (gidx obj ''stderr''),
                             xr_exit_code = as_int (gidx obj ''exit_code'')\<rparr>, logs, s))))"

section \<open>Properties\<close>

definition reading_tools :: "string list" where
  "reading_tools = [''list_directory'', ''read_file'', ''stat_file'', ''get_hardware_info'', ''get_agent_config'']"


lemma normalize_fs_stat: "normalize_action ''fs:stat'' = ''fs.stat''"
proof -
  have "trim_space ''fs:stat'' = ''fs:stat''"
    by (rule trim_space_visible) (simp_all add: visible_char_def)
  then show ?thesis by (simp add: normalize_action_def replace_char_def)
qed


text \<open>With call logging on, every call that leaves the center is logged, before and after,
  under its own request id and for its own node; a call that is refused because the node is
  unknown to a center without peers, is a proxy, or is offline reaches neither the network nor
  the log.\<close>

theorem calls_logged_in_pairs:
  assumes "en_logging env"
  shows "(case registry_lookup (en_reg env) node of
            None \<Rightarrow> (en_forward env = None \<longrightarrow> invoke_tool env rid node tool args = (Inl err_node_not_found, [])) \<and>
                    (en_forward env \<noteq> None \<longrightarrow> (\<exists>json msg. snd (invoke_tool env rid node tool args) =
                       [LogInsert rid (en_instance env) node tool args, LogComplete rid json msg]))
          | Some rec \<Rightarrow>
              if ar_node_type rec = ''agent'' \<and> ar_status rec = StatusOnline
              then \<exists>json msg. snd (invoke_tool env rid node tool args) =
                     [LogInsert rid (en_instance env) node tool args, LogComplete rid json msg]
              else \<exists>e. invoke_tool env rid node tool args = (Inl e, []) \<and> e \<in> {err_node_not_found, err_node_offline})"
  using assms
  by (auto simp: invoke_tool_def log_begin_def log_end_def Let_def split: option.splits sum.splits prod.splits)

definition toy_env :: exec_env where
  "toy_env = \<lparr>en_reg = registry_register sample_agent registry_new, en_send = (\<lambda>rec rid tool args. Inr ''42''),
     en_forward = None, en_logging = True, en_instance = ''center-a'', en_marshal = (\<lambda>_. ''{}''),
     en_unmarshal = (\<lambda>s. Some (GStr s)), en_render = (\<lambda>src ps. Rendered src), en_sprint = as_string\<rparr>"

lemma toy_env_lookup: "registry_lookup (en_reg toy_env) ''n1'' = Some sample_agent"
  by (simp add: toy_env_def registry_lookup_def registry_register_def registry_new_def sample_agent_def Let_def)

lemma calls_logged_in_pairs_witness:
  "\<exists>json msg. snd (invoke_tool toy_env ''q'' ''n1'' ''stat_file'' ''{}'') =
     [LogInsert ''q'' ''center-a'' ''n1'' ''stat_file'' ''{}'', LogComplete ''q'' json msg]"
proof -
  have "en_logging toy_env" by (simp add: toy_env_def)
  moreover have "ar_node_type sample_agent = ''agent''" "ar_status sample_agent = StatusOnline"
    by (simp_all add: sample_agent_def)
  moreover have "en_instance toy_env = ''center-a''" by (simp add: toy_env_def)
  ultimately show ?thesis
    using calls_logged_in_pairs [of toy_env "''q''" "''n1''" "''stat_file''" "''{}''"] by (simp add: toy_env_lookup)
qed

lemma execute_target_node [simp]: "res_node_id (fst (execute_target env t0 t1 rid node plan)) = node"
  by (auto simp: execute_target_def Let_def case_prod_unfold split: sum.splits)

lemma execute_target_status:
  "res_status (fst (execute_target env t0 t1 rid node plan)) \<in> {st_succeeded, st_failed, st_canceled}"
  by (auto simp: execute_target_def Let_def case_prod_unfold status_from_error_code_def split: sum.splits)

end
