(* ===== verification/Admin_Invocations.thy ===== *)
theory Admin_Invocations
  imports Admin_Exec Step_Systems "HOL-Library.List_Lexorder" "HOL-Library.Char_ord" "HOL-Library.Multiset"
begin

text \<open>
  Invocations in \<open>internal/sysplane-center/admin/service.go\<close>: the plan made from a request,
  the life of an invocation from \<open>CreateInvocation\<close> over \<open>executeInvocation\<close> to its final
  status, cancellation, the audit event of each invocation, and the listings.

  An invocation runs in a goroutine, and so does each of its targets.  The steps that other
  goroutines can see are the locked sections: creation, the change to \<open>running\<close>, the change to
  the final status; \<open>admin_step\<close> interleaves them for any number of invocations, together with
  cancellation, clients that go away and changes of templates.  The targets report in any
  order (\<open>AeFinish\<close>); their goroutines are in \<open>Fan_Out\<close>.
\<close>

section \<open>Plans\<close>

definition prepare_plan :: "request_meta \<Rightarrow> create_invocation_request \<Rightarrow> service \<Rightarrow> execution_plan svc_result" where
  "prepare_plan meta req s =
     (let action_type = trim_space (cir_action_type req); action = normalize_action (cir_action req) in
      if action = [] then Inl (invalid_arg 400 ''action is required'')
      else if action_type \<noteq> action_builtin \<and> action_type \<noteq> action_template
      then Inl (invalid_arg 400 ''action_type must be builtin or command_template'')
      else if cir_targets req = [] then Inl (invalid_arg 400 ''targets.node_ids must not be empty'')
      else case to_map (cir_params req) of
        None \<Rightarrow> Inl (invalid_arg 400 ''params must be an object'')
      | Some ps \<Rightarrow>
      let plan = \<lparr>ep_action = action, ep_action_type = action_type, ep_targets = dedupe (cir_targets req),
                  ep_params = ps, ep_timeout_sec = 0, ep_risk_level = [], ep_template = None\<rparr>;
          d = id_domain (rm_identity meta) in
      if action_type = action_builtin then
        (case builtin_spec_for action of Inl e \<Rightarrow> Inl e | Inr spec \<Rightarrow>
         case allow_risk d (bs_risk_level spec) of Some e \<Rightarrow> Inl e | None \<Rightarrow>
           Inr (plan\<lparr>ep_timeout_sec := normalize_timeout (cir_timeout_sec req) 10 30, ep_risk_level := bs_risk_level spec\<rparr>))
      else
        (case resolve_template action s of Inl e \<Rightarrow> Inl e | Inr tpl \<Rightarrow>
         if \<not> tpl_enabled tpl then Inl (svc_err 422 ''COMMAND_TEMPLATE_DISABLED'' ''command template is disabled'')
         else case allow_risk d (tpl_risk_level tpl) of Some e \<Rightarrow> Inl e | None \<Rightarrow>
         case validate_params (tpl_params_schema tpl) ps of
           CheckErr e \<Rightarrow> Inl e
         | CheckPanic \<Rightarrow> Inl panic_error
         | CheckOk \<Rightarrow>
             Inr (plan\<lparr>ep_action := tpl_name tpl, ep_template := Some tpl,
                ep_timeout_sec := normalize_timeout (cir_timeout_sec req) (tpl_default_timeout_sec tpl) (tpl_max_timeout_sec tpl),
                ep_risk_level := tpl_risk_level tpl\<rparr>)))"

section \<open>Audit events of invocations\<close>

definition record_audit_start :: "request_meta \<Rightarrow> invocation \<Rightarrow> string \<Rightarrow> service \<Rightarrow> service" where
  "record_audit_start meta iv risk s =
     (let (eid, s1) = sv_fresh_id ''evt'' s; (now, s2) = sv_now s1 in
      s2\<lparr>sv_audits := gupd eid \<lparr>ae_id = eid, ae_request_id = rm_request_id meta, ae_invocation_id = inv_id iv,
           ae_subject_id = id_subject (rm_identity meta), ae_token_type = domain_str (id_domain (rm_identity meta)),
           ae_source = rm_source meta, ae_action = inv_action iv, ae_action_type = inv_action_type iv,
           ae_target_node_ids = inv_targets iv, ae_risk_level = risk, ae_decision = ''accepted'',
           ae_decision_reason = [], ae_created_at = now, ae_finished_at = None\<rparr> (sv_audits s2),
         sv_audit_by_invoke := gupd (inv_id iv) eid (sv_audit_by_invoke s2)\<rparr>)"

definition finish_audit :: "string \<Rightarrow> string \<Rightarrow> int \<Rightarrow> service \<Rightarrow> service" where
  "finish_audit i decision finished s =
     (case map_of (sv_audit_by_invoke s) i of
        None \<Rightarrow> s
      | Some eid \<Rightarrow>
          if eid = [] then s
          else (case map_of (sv_audits s) eid of
                  None \<Rightarrow> s
                | Some e \<Rightarrow> s\<lparr>sv_audits := gupd eid (e\<lparr>ae_decision := decision, ae_finished_at := Some finished\<rparr>) (sv_audits s)\<rparr>))"

section \<open>The life of an invocation\<close>

definition summarize_invocation_status :: "invocation_result list \<Rightarrow> bool \<Rightarrow> string" where
  "summarize_invocation_status results ctx_canceled =
     (if ctx_canceled then st_canceled
      else
        let success = length (filter (\<lambda>r. res_status r = st_succeeded) results);
            canceled = length (filter (\<lambda>r. res_status r = st_canceled) results);
            n = length results
        in if canceled = n \<and> n > 0 then st_canceled
           else if success = n \<and> n > 0 then st_succeeded
           else if success = 0 then st_failed
           else st_partial)"

definition new_invocation :: "string \<Rightarrow> execution_plan \<Rightarrow> request_meta \<Rightarrow> bool \<Rightarrow> int \<Rightarrow> invocation" where
  "new_invocation i plan meta async now =
     \<lparr>inv_id = i, inv_action = ep_action plan, inv_action_type = ep_action_type plan, inv_status = st_pending,
      inv_async = async, inv_targets = ep_targets plan, inv_params = clone_any (GMap (ep_params plan)),
      inv_subject_id = id_subject (rm_identity meta), inv_source = rm_source meta, inv_timeout_sec = ep_timeout_sec plan,
      inv_created_at = now, inv_started_at = None, inv_finished_at = None\<rparr>"

text \<open>\<open>CreateInvocation\<close> up to the point where the invocation runs: in a goroutine with a
  cancelable context of its own, or here with the context of the request.\<close>

definition open_invocation ::
  "request_meta \<Rightarrow> create_invocation_request \<Rightarrow> service \<Rightarrow> (invocation \<times> execution_plan) svc_result \<times> service" where
  "open_invocation meta0 req s0 =
     (let (meta, s) = normalize_meta meta0 s0 in
      case prepare_plan meta req s of
        Inl e \<Rightarrow> (Inl e, s)
      | Inr plan \<Rightarrow>
          let (now, s1) = sv_now s; (i, s2) = sv_fresh_id ''inv'' s1;
              iv = new_invocation i plan meta (cir_async req) now;
              s3 = s2\<lparr>sv_invocations := gupd i (clone_invocation iv) (sv_invocations s2), sv_results := gupd i [] (sv_results s2)\<rparr>;
              s4 = record_audit_start meta iv (ep_risk_level plan) s3;
              s5 = (if cir_async req then s4\<lparr>sv_cancel_fns := gupd i () (sv_cancel_fns s4)\<rparr> else s4)
          in (Inr (iv, plan), s5))"

definition update_invocation :: "string \<Rightarrow> (invocation \<Rightarrow> invocation) \<Rightarrow> service \<Rightarrow> service" where
  "update_invocation i f s =
     (case map_of (sv_invocations s) i of
        None \<Rightarrow> s
      | Some iv \<Rightarrow> s\<lparr>sv_invocations := gupd i (f iv) (sv_invocations s)\<rparr>)"

text \<open>\<open>executeInvocation\<close>, first and last locked section.  \<open>reported\<close> are the results in the
  order in which the targets' goroutines append them.\<close>

definition begin_invocation :: "string \<Rightarrow> service \<Rightarrow> int \<times> service" where
  "begin_invocation i s =
     (let (started, s1) = sv_now s
      in (started, update_invocation i (\<lambda>iv. iv\<lparr>inv_status := st_running, inv_started_at := Some started\<rparr>) s1))"

definition sort_results :: "invocation_result list \<Rightarrow> invocation_result list" where
  "sort_results rs = sort_key res_node_id rs"

definition finish_invocation ::
  "string \<Rightarrow> int \<Rightarrow> invocation_result list \<Rightarrow> bool \<Rightarrow> service \<Rightarrow> invocation_result list \<times> service" where
  "finish_invocation i started reported ctx_canceled s =
     (let results = sort_results reported; (finished, s1) = sv_now s;
          final = summarize_invocation_status results ctx_canceled;
          s2 = update_invocation i (\<lambda>iv. iv\<lparr>inv_status := final,
                 inv_started_at := (case inv_started_at iv of None \<Rightarrow> Some started | Some t \<Rightarrow> Some t),
                 inv_finished_at := Some finished\<rparr>) s1;
          s3 = s2\<lparr>sv_results := gupd i (clone_results results) (sv_results s2)\<rparr>;
          s4 = finish_audit i final finished s3
      in (clone_results results, s4\<lparr>sv_cancel_fns := gdel i (sv_cancel_fns s4)\<rparr>))"

definition invocation_not_found :: svc_error where
  "invocation_not_found = svc_err 404 ''INVOCATION_NOT_FOUND'' ''invocation not found''"

definition get_invocation :: "string \<Rightarrow> service \<Rightarrow> invocation svc_result" where
  "get_invocation i s = (case map_of (sv_invocations s) i of None \<Rightarrow> Inl invocation_not_found | Some iv \<Rightarrow> Inr (clone_invocation iv))"

definition get_invocation_results :: "string \<Rightarrow> service \<Rightarrow> invocation_result list svc_result" where
  "get_invocation_results i s =
     (case map_of (sv_results s) i of None \<Rightarrow> Inl invocation_not_found | Some rs \<Rightarrow> Inr (map clone_result rs))"

definition terminal :: "string \<Rightarrow> bool" where
  "terminal st \<longleftrightarrow> st = st_succeeded \<or> st = st_failed \<or> st = st_partial \<or> st = st_canceled"

definition cancel_invocation :: "string \<Rightarrow> service \<Rightarrow> invocation svc_result \<times> service" where
  "cancel_invocation i s =
     (case map_of (sv_invocations s) i of
        None \<Rightarrow> (Inl invocation_not_found, s)
      | Some iv \<Rightarrow>
          if terminal (inv_status iv) then (Inr (clone_invocation iv), s)
          else
            let s1 = (case map_of (sv_cancel_fns s) i of
                        None \<Rightarrow> s | Some _ \<Rightarrow> s\<lparr>sv_canceled := i # sv_canceled s\<rparr>)
            in (get_invocation i s1, s1))"

text \<open>A synchronous invocation, run without interruption: \<open>run\<close> executes a target, \<open>order\<close> is
  the order of completion, \<open>gone\<close> whether the request's context was canceled.\<close>

definition create_invocation_sync ::
  "(string \<Rightarrow> execution_plan \<Rightarrow> string \<Rightarrow> invocation_result) \<Rightarrow> (string list \<Rightarrow> string list) \<Rightarrow> bool
   \<Rightarrow> request_meta \<Rightarrow> create_invocation_request \<Rightarrow> service
   \<Rightarrow> (invocation option \<times> invocation_result list) svc_result \<times> service" where
  "create_invocation_sync run order gone meta req s =
     (case open_invocation meta req s of
        (Inl e, s1) \<Rightarrow> (Inl e, s1)
      | (Inr (iv, plan), s1) \<Rightarrow>
          let (started, s2) = begin_invocation (inv_id iv) s1;
              (results, s3) = finish_invocation (inv_id iv) started
                 (map (run (inv_id iv) plan) (order (ep_targets plan))) gone s2
          in (Inr (case get_invocation (inv_id iv) s3 of Inl _ \<Rightarrow> None | Inr x \<Rightarrow> Some x, results), s3))"

definition direct_invoke_builtin ::
  "(string \<Rightarrow> execution_plan \<Rightarrow> string \<Rightarrow> invocation_result) \<Rightarrow> bool \<Rightarrow> request_meta \<Rightarrow> string \<Rightarrow> string \<Rightarrow> params
   \<Rightarrow> service \<Rightarrow> (invocation option \<times> invocation_result option) svc_result \<times> service" where
  "direct_invoke_builtin run gone meta node action ps s =
     (case create_invocation_sync run id gone meta
        \<lparr>cir_action = normalize_action action, cir_action_type = action_builtin, cir_targets = [node],
         cir_params = GMap ps, cir_timeout_sec = 0, cir_async = False\<rparr> s of
        (Inl e, s1) \<Rightarrow> (Inl e, s1)
      | (Inr (iv, results), s1) \<Rightarrow> (Inr (iv, case results of [] \<Rightarrow> None | r # _ \<Rightarrow> Some r), s1))"

definition invoke_template_request :: "string \<Rightarrow> create_invocation_request \<Rightarrow> create_invocation_request" where
  "invoke_template_request template_id body = body\<lparr>cir_action_type := action_template, cir_action := template_id\<rparr>"

section \<open>Listings\<close>

definition list_invocations :: "invocation_filter \<Rightarrow> service \<Rightarrow> invocation list_page" where
  "list_invocations f s =
     paginate (newest_first inv_created_at (map clone_invocation (filter (\<lambda>iv.
         (if_status f = [] \<or> inv_status iv = if_status f) \<and>
         (if_action f = [] \<or> inv_action iv = if_action f) \<and>
         (if_action_type f = [] \<or> inv_action_type iv = if_action_type f)) (map snd (sv_invocations s)))))
       (if_cursor f) (normalize_limit (if_limit f)) inv_id"

definition list_audit_events :: "audit_filter \<Rightarrow> service \<Rightarrow> audit_event list_page" where
  "list_audit_events f s =
     paginate (newest_first ae_created_at (map clone_audit (filter (\<lambda>e.
         (af_action f = [] \<or> ae_action e = af_action f) \<and>
         (af_decision f = [] \<or> ae_decision e = af_decision f) \<and>
         (af_subject_id f = [] \<or> ae_subject_id e = af_subject_id f) \<and>
         (af_node_id f = [] \<or> af_node_id f \<in> set (ae_target_node_ids e))) (map snd (sv_audits s)))))
       (af_cursor f) (normalize_limit (af_limit f)) ae_id"

definition get_audit_event :: "string \<Rightarrow> service \<Rightarrow> audit_event svc_result" where
  "get_audit_event i s =
     (case map_of (sv_audits s) i of
        None \<Rightarrow> Inl (svc_err 404 ''AUDIT_EVENT_NOT_FOUND'' ''audit event not found'')
      | Some e \<Rightarrow> Inr (clone_audit e))"

section \<open>Interleavings\<close>

record invocation_run =
  ru_plan :: execution_plan
  ru_started :: "int option"

record admin_state =
  ad_svc :: service
  ad_runs :: "(string, invocation_run) gomap"

datatype admin_event =
    AeCreate request_meta create_invocation_request
  | AeBegin string
  | AeFinish string "invocation_result list"
  | AeCancel string
  | AeClientGone string
  | AeTemplate template_op

definition targets_reported :: "execution_plan \<Rightarrow> invocation_result list \<Rightarrow> bool" where
  "targets_reported plan rs \<longleftrightarrow> distinct (map res_node_id rs) \<and> set (map res_node_id rs) = set (ep_targets plan)"

fun admin_step :: "admin_event \<Rightarrow> admin_state \<Rightarrow> admin_state option" where
  "admin_step (AeCreate meta req) a =
     (case open_invocation meta req (ad_svc a) of
        (Inl e, s) \<Rightarrow> Some (a\<lparr>ad_svc := s\<rparr>)
      | (Inr (iv, plan), s) \<Rightarrow>
          Some (a\<lparr>ad_svc := s, ad_runs := gupd (inv_id iv) \<lparr>ru_plan = plan, ru_started = None\<rparr> (ad_runs a)\<rparr>))"
| "admin_step (AeBegin i) a =
     (case map_of (ad_runs a) i of
        Some r \<Rightarrow> (case ru_started r of
            None \<Rightarrow> (let (t, s) = begin_invocation i (ad_svc a)
                     in Some (a\<lparr>ad_svc := s, ad_runs := gupd i (r\<lparr>ru_started := Some t\<rparr>) (ad_runs a)\<rparr>))
          | Some _ \<Rightarrow> None)
      | None \<Rightarrow> None)"
| "admin_step (AeFinish i rs) a =
     (case map_of (ad_runs a) i of
        Some r \<Rightarrow> (case ru_started r of
            Some t \<Rightarrow>
              (if targets_reported (ru_plan r) rs
               then Some (a\<lparr>ad_svc := snd (finish_invocation i t rs (i \<in> set (sv_canceled (ad_svc a))) (ad_svc a)),
                            ad_runs := gdel i (ad_runs a)\<rparr>)
               else None)
          | None \<Rightarrow> None)
      | None \<Rightarrow> None)"
| "admin_step (AeCancel i) a = Some (a\<lparr>ad_svc := snd (cancel_invocation i (ad_svc a))\<rparr>)"
| "admin_step (AeClientGone i) a =
     (case map_of (sv_invocations (ad_svc a)) i of
        Some iv \<Rightarrow> (if inv_async iv then None
                     else Some (a\<lparr>ad_svc := (ad_svc a)\<lparr>sv_canceled := i # sv_canceled (ad_svc a)\<rparr>\<rparr>))
      | None \<Rightarrow> None)"
| "admin_step (AeTemplate opn) a = Some (a\<lparr>ad_svc := run_template_ops [opn] (ad_svc a)\<rparr>)"

abbreviation admin_run :: "admin_event list \<Rightarrow> admin_state \<Rightarrow> admin_state option" where
  "admin_run \<equiv> run_steps admin_step"

section \<open>Results do not depend on the order of completion\<close>

lemma sort_key_order_irrelevant:
  fixes f :: "'a \<Rightarrow> 'b::linorder"
  assumes "mset xs = mset ys" and "distinct (map f xs)"
  shows "sort_key f xs = sort_key f ys"
  using assms by (intro sort_key_eq_sort_key) (simp_all add: distinct_map)

lemma sort_results_nodes:
  assumes "targets_reported plan rs"
  shows "map res_node_id (sort_results rs) = sorted_list_of_set (set (ep_targets plan))"
proof -
  have "sorted (map res_node_id (sort_results rs))" by (simp add: sort_results_def)
  moreover have "set (map res_node_id (sort_results rs)) = set (ep_targets plan)"
    using assms by (simp add: sort_results_def targets_reported_def)
  moreover have "distinct (map res_node_id (sort_results rs))"
    using assms by (simp add: sort_results_def targets_reported_def distinct_map)
  ultimately show ?thesis
    by (metis sorted_list_of_set.idem_if_sorted_distinct)
qed

text \<open>The outcome of an invocation does not depend on the order in which its targets finish:
  the same results reported in another order give the same stored results, the same final
  status and the same state.\<close>

theorem completion_order_irrelevant:
  assumes "targets_reported plan rs" and "mset rs' = mset rs"
  shows "finish_invocation i t rs' c s = finish_invocation i t rs c s"
proof -
  have "sort_results rs' = sort_results rs"
    unfolding sort_results_def
  proof (rule sort_key_order_irrelevant)
    show "mset rs' = mset rs" by (rule assms(2))
    have "distinct (map res_node_id rs)" using assms(1) by (simp add: targets_reported_def)
    then show "distinct (map res_node_id rs')" using assms(2)
      by (metis mset_eq_imp_distinct_iff mset_map)
  qed
  then show ?thesis by (simp add: finish_invocation_def)
qed

definition ok_result :: "string \<Rightarrow> invocation_result" where
  "ok_result node = \<lparr>res_node_id = node, res_hostname = node, res_status = st_succeeded, res_started_at = 0,
     res_finished_at = 1, res_data = GNil, res_error = None\<rparr>"

definition two_node_plan :: execution_plan where
  "two_node_plan = \<lparr>ep_action = ''sys.info'', ep_action_type = action_builtin, ep_targets = [''n1'', ''n2''],
     ep_params = [], ep_timeout_sec = 10, ep_risk_level = risk_readonly, ep_template = None\<rparr>"

lemma completion_order_irrelevant_witness:
  "finish_invocation ''i'' 0 [ok_result ''n2'', ok_result ''n1''] False (new_service toy_world) =
   finish_invocation ''i'' 0 [ok_result ''n1'', ok_result ''n2''] False (new_service toy_world)"
  by (rule completion_order_irrelevant [where plan = two_node_plan])
    (simp_all add: targets_reported_def ok_result_def two_node_plan_def)

section \<open>The invariant\<close>

lemma summarize_terminal: "terminal (summarize_invocation_status rs c)"
  by (simp add: summarize_invocation_status_def terminal_def Let_def)

lemma not_terminal [simp]: "\<not> terminal st_pending" "\<not> terminal st_running"
  by (simp_all add: terminal_def status_defs)

definition audited :: "service \<Rightarrow> string \<Rightarrow> string \<Rightarrow> bool" where
  "audited s i decision \<longleftrightarrow> (\<exists>eid e. map_of (sv_audit_by_invoke s) i = Some eid \<and> eid \<noteq> [] \<and>
     map_of (sv_audits s) eid = Some e \<and> ae_invocation_id e = i \<and> ae_decision e = decision)"

definition inv_ok :: "admin_state \<Rightarrow> string \<Rightarrow> invocation \<Rightarrow> bool" where
  "inv_ok a i iv \<longleftrightarrow> inv_id iv = i \<and>
     (case map_of (ad_runs a) i of
        None \<Rightarrow>
          terminal (inv_status iv) \<and> inv_started_at iv \<noteq> None \<and> inv_finished_at iv \<noteq> None \<and>
          map_of (sv_cancel_fns (ad_svc a)) i = None \<and> audited (ad_svc a) i (inv_status iv) \<and>
          (\<exists>rs c. map_of (sv_results (ad_svc a)) i = Some rs \<and> inv_status iv = summarize_invocation_status rs c \<and>
             map res_node_id rs = sorted_list_of_set (set (inv_targets iv)))
      | Some r \<Rightarrow>
          ep_targets (ru_plan r) = inv_targets iv \<and> inv_finished_at iv = None \<and>
          map_of (sv_results (ad_svc a)) i = Some [] \<and> audited (ad_svc a) i ''accepted'' \<and>
          (inv_async iv \<longrightarrow> map_of (sv_cancel_fns (ad_svc a)) i \<noteq> None) \<and>
          inv_status iv = (if ru_started r = None then st_pending else st_running) \<and>
          inv_started_at iv = ru_started r)"

definition admin_inv :: "nat \<Rightarrow> admin_state \<Rightarrow> bool" where
  "admin_inv n a \<longleftrightarrow> templates_inv (ad_svc a) \<and> ids_issued n (ad_svc a) \<and>
     (\<forall>i iv. map_of (sv_invocations (ad_svc a)) i = Some iv \<longrightarrow> inv_ok a i iv) \<and>
     (\<forall>i r. map_of (ad_runs a) i = Some r \<longrightarrow> map_of (sv_invocations (ad_svc a)) i \<noteq> None)"

lemma admin_invD:
  assumes "admin_inv n a"
  shows "templates_inv (ad_svc a)" and "ids_issued n (ad_svc a)"
    and "map_of (sv_invocations (ad_svc a)) i = Some iv \<Longrightarrow> inv_ok a i iv"
    and "map_of (ad_runs a) i = Some r \<Longrightarrow> \<exists>iv. map_of (sv_invocations (ad_svc a)) i = Some iv"
  using assms unfolding admin_inv_def by blast+

text \<open>A step that leaves everything about \<open>i\<close> alone.\<close>

definition same_for :: "string \<Rightarrow> admin_state \<Rightarrow> admin_state \<Rightarrow> bool" where
  "same_for i a a' \<longleftrightarrow> map_of (ad_runs a') i = map_of (ad_runs a) i \<and>
     map_of (sv_results (ad_svc a')) i = map_of (sv_results (ad_svc a)) i \<and>
     map_of (sv_cancel_fns (ad_svc a')) i = map_of (sv_cancel_fns (ad_svc a)) i \<and>
     map_of (sv_audit_by_invoke (ad_svc a')) i = map_of (sv_audit_by_invoke (ad_svc a)) i \<and>
     (\<forall>eid e. map_of (sv_audits (ad_svc a)) eid = Some e \<and> ae_invocation_id e = i \<longrightarrow>
        map_of (sv_audits (ad_svc a')) eid = Some e)"

lemma audited_same: "same_for i a a' \<Longrightarrow> audited (ad_svc a) i d \<Longrightarrow> audited (ad_svc a') i d"
  unfolding same_for_def audited_def by metis

lemma inv_ok_same: "same_for i a a' \<Longrightarrow> inv_ok a i iv \<Longrightarrow> inv_ok a' i iv"
  using audited_same [of i a a'] unfolding inv_ok_def same_for_def by (auto split: option.splits)

subsection \<open>What the operations write\<close>

lemma open_invocation_writes:
  assumes r: "open_invocation meta req s = (Inr (iv, plan), s')" and ids: "ids_issued n s" and n: "n + 3 < 2 ^ 64"
  shows "\<exists>m now eid e k. iv = new_invocation (inv_id iv) plan m (cir_async req) now \<and>
    inv_id iv \<notin> used_ids s \<and> k \<le> 3 \<and> ids_issued (n + k) s' \<and>
    sv_templates s' = sv_templates s \<and> sv_template_name_ids s' = sv_template_name_ids s \<and> sv_canceled s' = sv_canceled s \<and>
    sv_invocations s' = gupd (inv_id iv) iv (sv_invocations s) \<and> sv_results s' = gupd (inv_id iv) [] (sv_results s) \<and>
    sv_cancel_fns s' = (if cir_async req then gupd (inv_id iv) () (sv_cancel_fns s) else sv_cancel_fns s) \<and>
    sv_audit_by_invoke s' = gupd (inv_id iv) eid (sv_audit_by_invoke s) \<and> eid \<noteq> [] \<and>
    sv_audits s' = gupd eid e (sv_audits s) \<and> map_of (sv_audits s) eid = None \<and>
    ae_invocation_id e = inv_id iv \<and> ae_decision e = ''accepted''"
proof -
  obtain m s0 where m: "normalize_meta meta s = (m, s0)" by fastforce
  obtain k0 where k0: "k0 \<le> 1" "ids_issued (n + k0) s0"
    using normalize_meta_ids [OF ids, of meta] n m by auto
  note s0 = normalize_meta_other [of meta s, unfolded m, simplified]
  let ?s1 = "snd (sv_now s0)"
  let ?i = "fst (sv_fresh_id ''inv'' ?s1)" and ?s2 = "snd (sv_fresh_id ''inv'' ?s1)"
  have p: "prepare_plan m req s0 = Inr plan"
    and iv: "iv = new_invocation ?i plan m (cir_async req) (fst (sv_now s0))"
    using r m by (auto simp: open_invocation_def Let_def case_prod_unfold split: sum.splits)
  let ?s3 = "?s2\<lparr>sv_invocations := gupd ?i iv (sv_invocations ?s2), sv_results := gupd ?i [] (sv_results ?s2)\<rparr>"
  let ?s4 = "record_audit_start m iv (ep_risk_level plan) ?s3"
  have s': "s' = (if cir_async req then ?s4\<lparr>sv_cancel_fns := gupd ?i () (sv_cancel_fns ?s4)\<rparr> else ?s4)"
    using r m p iv by (cases "cir_async req") (auto simp: open_invocation_def Let_def case_prod_unfold)
  have id: "inv_id iv = ?i" by (simp add: iv new_invocation_def)
  have i1: "ids_issued (n + k0) ?s1" using k0 by simp
  have n1: "n + k0 + 1 < 2 ^ 64" and n2: "Suc (n + k0) + 1 < 2 ^ 64" using k0(1) n by linarith+
  have unused: "?i \<notin> used_ids s"
    using fresh_unused [OF i1 n1, of "''inv''"] s0 by (simp add: used_ids_def)
  have i3: "ids_issued (Suc (n + k0)) ?s3"
    using fresh_counter(1) [OF i1 n1, of "''inv''"]
    by (intro ids_issued_store [OF ids_issued_fresh [OF i1 n1, of "''inv''"], where i = ?i and k = "Suc (n + k0)"])
      (auto simp: used_ids_def dom_update simp flip: map_of_gupd)
  let ?e = "fst (sv_fresh_id ''evt'' ?s3)" and ?s3' = "snd (sv_now (snd (sv_fresh_id ''evt'' ?s3)))"
  have i3': "ids_issued (Suc (Suc (n + k0))) ?s3'" using ids_issued_fresh [OF i3 n2] by simp
  have "ids_issued (Suc (Suc (n + k0))) s'"
    using fresh_counter(1) [OF i3 n2, of "''evt''"]
    by (intro ids_issued_store [OF i3', where i = ?e and k = "Suc (Suc (n + k0))"])
      (auto simp: s' record_audit_start_def Let_def case_prod_unfold used_ids_def dom_update simp flip: map_of_gupd)
  then have i4: "ids_issued (n + (k0 + 2)) s'" by simp
  have fresh_e: "map_of (sv_audits s) ?e = None"
    using fresh_unused [OF i3 n2, of "''evt''"] s0 by (simp add: used_ids_def map_of_eq_None_iff)
  show ?thesis
  proof (intro exI conjI)
    show "iv = new_invocation (inv_id iv) plan m (cir_async req) (fst (sv_now s0))" unfolding id by (rule iv)
    show "inv_id iv \<notin> used_ids s" unfolding id by (rule unused)
    show "k0 + 2 \<le> 3" using k0 by simp
    show "ids_issued (n + (k0 + 2)) s'" by (rule i4)
    show "map_of (sv_audits s) ?e = None" by (rule fresh_e)
    show "sv_audits s' = gupd ?e \<lparr>ae_id = ?e, ae_request_id = rm_request_id m, ae_invocation_id = inv_id iv,
           ae_subject_id = id_subject (rm_identity m), ae_token_type = domain_str (id_domain (rm_identity m)),
           ae_source = rm_source m, ae_action = inv_action iv, ae_action_type = inv_action_type iv,
           ae_target_node_ids = inv_targets iv, ae_risk_level = ep_risk_level plan, ae_decision = ''accepted'',
           ae_decision_reason = [], ae_created_at = fst (sv_now (snd (sv_fresh_id ''evt'' ?s3))), ae_finished_at = None\<rparr> (sv_audits s)"
      using s0 by (simp add: s' record_audit_start_def Let_def case_prod_unfold)
    show "?e \<noteq> []" by (simp add: sv_fresh_id_def split: prod.split) (metis fst_conv new_request_id_nonempty)
  qed (use s0 id in \<open>simp_all add: s' record_audit_start_def Let_def case_prod_unfold\<close>)
qed

lemma open_invocation_fails:
  assumes "open_invocation meta req s = (Inl e, s')" and "ids_issued n s" and "n + 1 < 2 ^ 64"
  shows "svc_keeps s s' \<and> sv_templates s' = sv_templates s \<and> sv_template_name_ids s' = sv_template_name_ids s \<and>
    (\<exists>k \<le> 1. ids_issued (n + k) s')"
proof -
  obtain m s0 where m: "normalize_meta meta s = (m, s0)" by fastforce
  have "s' = s0" using assms(1) m by (auto simp: open_invocation_def Let_def case_prod_unfold split: sum.splits)
  with normalize_meta_ids [OF assms(2,3), of meta] svc_keeps_meta [of s meta] normalize_meta_other [of meta s] m
  show ?thesis by simp
qed

lemma update_invocation_other [simp]:
  "sv_templates (update_invocation i f s) = sv_templates s"
  "sv_template_name_ids (update_invocation i f s) = sv_template_name_ids s"
  "sv_results (update_invocation i f s) = sv_results s" "sv_audits (update_invocation i f s) = sv_audits s"
  "sv_audit_by_invoke (update_invocation i f s) = sv_audit_by_invoke s"
  "sv_cancel_fns (update_invocation i f s) = sv_cancel_fns s" "sv_canceled (update_invocation i f s) = sv_canceled s"
  "sv_world (update_invocation i f s) = sv_world s"
  by (simp_all add: update_invocation_def split: option.split)

lemma map_of_update_invocation:
  "map_of (sv_invocations (update_invocation i f s)) j =
     (if j = i then map_option f (map_of (sv_invocations s) i) else map_of (sv_invocations s) j)"
  by (auto simp: update_invocation_def split: option.splits)

lemma keys_update_invocation [simp]:
  "set (gkeys (sv_invocations (update_invocation i f s))) = set (gkeys (sv_invocations s))"
proof -
  have "map_of (sv_invocations s) i = Some v \<Longrightarrow> i \<in> set (gkeys (sv_invocations s))" for v
    by (force dest: map_of_SomeD)
  then show ?thesis by (auto simp: update_invocation_def dom_update split: option.splits)
qed

lemma finish_audit_other [simp]:
  "sv_templates (finish_audit i d t s) = sv_templates s"
  "sv_template_name_ids (finish_audit i d t s) = sv_template_name_ids s"
  "sv_results (finish_audit i d t s) = sv_results s" "sv_invocations (finish_audit i d t s) = sv_invocations s"
  "sv_audit_by_invoke (finish_audit i d t s) = sv_audit_by_invoke s"
  "sv_cancel_fns (finish_audit i d t s) = sv_cancel_fns s" "sv_canceled (finish_audit i d t s) = sv_canceled s"
  "sv_world (finish_audit i d t s) = sv_world s"
  by (simp_all add: finish_audit_def split: option.split)

lemma keys_finish_audit [simp]: "set (gkeys (sv_audits (finish_audit i d t s))) = set (gkeys (sv_audits s))"
proof -
  have "map_of (sv_audits s) k = Some v \<Longrightarrow> k \<in> set (gkeys (sv_audits s))" for k v
    by (force dest: map_of_SomeD)
  then show ?thesis by (auto simp: finish_audit_def dom_update split: option.splits)
qed

lemma finish_audit_own:
  assumes "audited s i ''accepted''"
  shows "audited (finish_audit i d t s) i d"
  using assms by (auto simp: audited_def finish_audit_def)

lemma finish_audit_foreign:
  assumes "audited s i ''accepted''" and "map_of (sv_audits s) eid = Some e" and "ae_invocation_id e \<noteq> i"
  shows "map_of (sv_audits (finish_audit i d t s)) eid = Some e"
  using assms by (auto simp: audited_def finish_audit_def)

lemma used_ids_other [simp]:
  "used_ids (s\<lparr>sv_results := m1\<rparr>) = used_ids s" "used_ids (s\<lparr>sv_cancel_fns := m2\<rparr>) = used_ids s"
  "used_ids (s\<lparr>sv_canceled := m3\<rparr>) = used_ids s"
  by (simp_all add: used_ids_def)

lemma used_ids_update [simp]:
  "used_ids (update_invocation i f s) = used_ids s" "used_ids (finish_audit i d t s) = used_ids s"
  unfolding used_ids_def by (simp_all only: keys_update_invocation keys_finish_audit update_invocation_other
      finish_audit_other)

lemma ids_issued_same:
  "ids_issued n s \<Longrightarrow> used_ids s' = used_ids s \<Longrightarrow> w_counter (sv_world s') = w_counter (sv_world s) \<Longrightarrow> ids_issued n s'"
  by (simp add: ids_issued_def)

subsection \<open>Preservation\<close>

text \<open>A step that concerns the invocation \<open>i\<close> only.\<close>

lemma admin_inv_frame:
  assumes inv: "admin_inv n a" and t: "templates_inv (ad_svc a')" and ids: "ids_issued m (ad_svc a')"
    and others: "\<And>j. j \<noteq> i \<Longrightarrow> same_for j a a' \<and> map_of (sv_invocations (ad_svc a')) j = map_of (sv_invocations (ad_svc a)) j"
    and own: "\<And>iv. map_of (sv_invocations (ad_svc a')) i = Some iv \<Longrightarrow> inv_ok a' i iv"
    and run: "map_of (ad_runs a') i \<noteq> None \<Longrightarrow> map_of (sv_invocations (ad_svc a')) i \<noteq> None"
  shows "admin_inv m a'"
  unfolding admin_inv_def
proof (intro conjI allI impI t ids)
  fix j iv assume "map_of (sv_invocations (ad_svc a')) j = Some iv"
  then show "inv_ok a' j iv"
    using others [of j] own admin_invD(3) [OF inv, of j iv] inv_ok_same [of j a a' iv] by (cases "j = i") simp_all
next
  fix j r assume "map_of (ad_runs a') j = Some r"
  then show "map_of (sv_invocations (ad_svc a')) j \<noteq> None"
    using others [of j] run admin_invD(4) [OF inv, of j r] by (cases "j = i") (auto simp: same_for_def)
qed

text \<open>A step that concerns no invocation.\<close>

lemma admin_inv_same:
  assumes inv: "admin_inv n a" and t: "templates_inv (ad_svc a')" and ids: "ids_issued m (ad_svc a')"
    and all: "\<And>j. same_for j a a'" and invs: "sv_invocations (ad_svc a') = sv_invocations (ad_svc a)"
  shows "admin_inv m a'"
  unfolding admin_inv_def
proof (intro conjI allI impI t ids)
  fix j iv assume "map_of (sv_invocations (ad_svc a')) j = Some iv"
  then have "inv_ok a j iv" unfolding invs by (rule admin_invD(3) [OF inv])
  with all show "inv_ok a' j iv" by (rule inv_ok_same)
next
  fix j r assume "map_of (ad_runs a') j = Some r"
  then have "map_of (ad_runs a) j = Some r" using all [of j] by (simp add: same_for_def)
  from admin_invD(4) [OF inv this] show "map_of (sv_invocations (ad_svc a')) j \<noteq> None" by (auto simp: invs)
qed

lemma admin_inv_create:
  assumes inv: "admin_inv n a" and n: "n + 3 < 2 ^ 64" and st: "admin_step (AeCreate meta req) a = Some a'"
  shows "\<exists>k \<le> 3. admin_inv (n + k) a'"
proof -
  have t: "templates_inv (ad_svc a)" and ids: "ids_issued n (ad_svc a)"
    using admin_invD [OF inv] by blast+
  obtain r s where r: "open_invocation meta req (ad_svc a) = (r, s)" by fastforce
  show ?thesis
  proof (cases r)
    case (Inl e)
    have a': "a' = a\<lparr>ad_svc := s\<rparr>" using st r Inl by simp
    have "n + 1 < 2 ^ 64" using n by simp
    from open_invocation_fails [OF r [unfolded Inl] ids this]
    obtain k where k: "k \<le> 1" "ids_issued (n + k) s" and keep: "svc_keeps (ad_svc a) s"
      and tp: "sv_templates s = sv_templates (ad_svc a)" "sv_template_name_ids s = sv_template_name_ids (ad_svc a)"
      by blast
    have "templates_inv s" using t tp templates_inv_cong by metis
    moreover have "same_for i a a'" for i using keep by (simp add: same_for_def svc_keeps_def a')
    ultimately have "admin_inv (n + k) a'"
      using k keep by (intro admin_inv_same [OF inv]) (simp_all add: a' svc_keeps_def)
    with k show ?thesis by (intro exI [where x = k]) simp
  next
    case (Inr ip)
    obtain iv plan where ip: "ip = (iv, plan)" by (cases ip)
    from open_invocation_writes [OF r [unfolded Inr ip] ids n]
    obtain m now eid e k where w: "iv = new_invocation (inv_id iv) plan m (cir_async req) now"
      "inv_id iv \<notin> used_ids (ad_svc a)" "k \<le> 3" "ids_issued (n + k) s"
      "sv_templates s = sv_templates (ad_svc a)" "sv_template_name_ids s = sv_template_name_ids (ad_svc a)"
      "sv_invocations s = gupd (inv_id iv) iv (sv_invocations (ad_svc a))"
      "sv_results s = gupd (inv_id iv) [] (sv_results (ad_svc a))"
      "sv_cancel_fns s = (if cir_async req then gupd (inv_id iv) () (sv_cancel_fns (ad_svc a)) else sv_cancel_fns (ad_svc a))"
      "sv_audit_by_invoke s = gupd (inv_id iv) eid (sv_audit_by_invoke (ad_svc a))" "eid \<noteq> []"
      "sv_audits s = gupd eid e (sv_audits (ad_svc a))" "map_of (sv_audits (ad_svc a)) eid = None"
      "ae_invocation_id e = inv_id iv" "ae_decision e = ''accepted''"
      by blast
    let ?i = "inv_id iv"
    have a': "a' = a\<lparr>ad_svc := s, ad_runs := gupd ?i \<lparr>ru_plan = plan, ru_started = None\<rparr> (ad_runs a)\<rparr>"
      using st r Inr ip by simp
    have "templates_inv s" using t w(5,6) templates_inv_cong by metis
    moreover have "same_for j a a'" if "j \<noteq> ?i" for j
      using that w(13) by (auto simp: same_for_def a' w(8-10,12))
    moreover have "inv_ok a' ?i iv"
    proof -
      have "audited s ?i ''accepted''" using w(11,14,15) by (simp add: audited_def w(10,12))
      moreover have "inv_targets iv = ep_targets plan" "inv_status iv = st_pending" "inv_started_at iv = None"
        "inv_finished_at iv = None" "inv_async iv = cir_async req"
        by (subst w(1), simp add: new_invocation_def)+
      ultimately show ?thesis by (simp add: inv_ok_def a' w(8,9))
    qed
    ultimately have "admin_inv (n + k) a'"
      using w(4) by (intro admin_inv_frame [OF inv, where i = ?i]) (simp_all add: a' w(7))
    with w(3) show ?thesis by (intro exI [where x = k]) simp
  qed
qed

lemma admin_inv_begin:
  assumes inv: "admin_inv n a" and st: "admin_step (AeBegin i) a = Some a'"
  shows "admin_inv n a'"
proof -
  from st obtain r where r: "map_of (ad_runs a) i = Some r" "ru_started r = None"
    by (auto split: option.splits)
  let ?t = "fst (sv_now (ad_svc a))"
  let ?f = "\<lambda>iv. iv\<lparr>inv_status := st_running, inv_started_at := Some ?t\<rparr>"
  let ?s = "update_invocation i ?f (snd (sv_now (ad_svc a)))"
  have a': "a' = a\<lparr>ad_svc := ?s, ad_runs := gupd i (r\<lparr>ru_started := Some ?t\<rparr>) (ad_runs a)\<rparr>"
    using st r by (simp add: begin_invocation_def Let_def case_prod_unfold)
  have "templates_inv ?s" using admin_invD(1) [OF inv] templates_inv_cong [of ?s "ad_svc a"] by simp
  moreover have "ids_issued n ?s"
    using admin_invD(2) [OF inv] by (rule ids_issued_same) simp_all
  moreover have "same_for j a a'" if "j \<noteq> i" for j using that by (simp add: same_for_def a')
  moreover have "inv_ok a' i (?f iv)" if "map_of (sv_invocations (ad_svc a)) i = Some iv" for iv
  proof -
    have "inv_ok a i iv" using inv that by (rule admin_invD)
    then show ?thesis using r by (simp add: inv_ok_def a' audited_def)
  qed
  moreover have "map_of (sv_invocations (ad_svc a)) i \<noteq> None" using admin_invD(4) [OF inv r(1)] by auto
  ultimately show ?thesis
    by (intro admin_inv_frame [OF inv, where i = i]) (auto simp: a' map_of_update_invocation)
qed

lemma admin_inv_finish:
  assumes inv: "admin_inv n a" and st: "admin_step (AeFinish i rs) a = Some a'"
  shows "admin_inv n a'"
proof -
  from st obtain r t where r: "map_of (ad_runs a) i = Some r" "ru_started r = Some t" "targets_reported (ru_plan r) rs"
    by (auto split: option.splits if_splits)
  let ?c = "i \<in> set (sv_canceled (ad_svc a))" and ?t = "fst (sv_now (ad_svc a))"
  let ?final = "summarize_invocation_status (sort_results rs) ?c"
  let ?f = "\<lambda>iv. iv\<lparr>inv_status := ?final,
      inv_started_at := (case inv_started_at iv of None \<Rightarrow> Some t | Some u \<Rightarrow> Some u), inv_finished_at := Some ?t\<rparr>"
  let ?s2 = "update_invocation i ?f (snd (sv_now (ad_svc a)))"
  let ?s3 = "?s2\<lparr>sv_results := gupd i (sort_results rs) (sv_results ?s2)\<rparr>"
  let ?s4 = "finish_audit i ?final ?t ?s3"
  let ?s = "?s4\<lparr>sv_cancel_fns := gdel i (sv_cancel_fns ?s4)\<rparr>"
  have a': "a' = a\<lparr>ad_svc := ?s, ad_runs := gdel i (ad_runs a)\<rparr>"
    using st r by (simp add: finish_invocation_def Let_def case_prod_unfold)
  from admin_invD(4) [OF inv r(1)] obtain iv where iv: "map_of (sv_invocations (ad_svc a)) i = Some iv"
    by blast
  note ok = admin_invD(3) [OF inv iv]
  have acc: "audited ?s3 i ''accepted''" using ok r by (simp add: inv_ok_def audited_def)
  have "templates_inv ?s" using admin_invD(1) [OF inv] templates_inv_cong [of ?s "ad_svc a"] by simp
  moreover have "ids_issued n ?s"
    using admin_invD(2) [OF inv] by (rule ids_issued_same) simp_all
  moreover have "same_for j a a'" if "j \<noteq> i" for j
    using that finish_audit_foreign [OF acc] by (simp add: same_for_def a')
  moreover have "inv_ok a' i (?f iv)"
  proof -
    have "audited ?s i ?final" using finish_audit_own [OF acc, of ?final ?t] by (simp add: audited_def)
    moreover have "map res_node_id (sort_results rs) = sorted_list_of_set (set (inv_targets iv))"
      using sort_results_nodes [OF r(3)] ok r by (simp add: inv_ok_def)
    ultimately show ?thesis
      using ok r summarize_terminal by (auto simp: inv_ok_def a' split: option.splits)
  qed
  ultimately show ?thesis
    using iv by (intro admin_inv_frame [OF inv, where i = i]) (simp_all add: a' map_of_update_invocation)
qed

lemma admin_inv_cancel:
  assumes inv: "admin_inv n a" and s: "s = (ad_svc a)\<lparr>sv_canceled := cs\<rparr>"
  shows "admin_inv n (a\<lparr>ad_svc := s\<rparr>)"
proof -
  have "same_for i a (a\<lparr>ad_svc := s\<rparr>)" for i by (simp add: same_for_def s)
  moreover have "templates_inv s" using admin_invD(1) [OF inv] templates_inv_cong [of s "ad_svc a"] by (simp add: s)
  moreover have "ids_issued n s"
    using admin_invD(2) [OF inv] by (rule ids_issued_same) (simp_all add: s)
  ultimately show ?thesis by (intro admin_inv_same [OF inv]) (simp_all add: s)
qed

lemma cancel_invocation_writes: "\<exists>cs. snd (cancel_invocation i s) = s\<lparr>sv_canceled := cs\<rparr>"
  by (auto simp: cancel_invocation_def Let_def split: option.split intro: exI [where x = "sv_canceled s"])

lemma admin_inv_template:
  assumes inv: "admin_inv n a" and n: "n + 3 < 2 ^ 64" and st: "admin_step (AeTemplate opn) a = Some a'"
  shows "\<exists>k \<le> 3. admin_inv (n + k) a'"
proof -
  have t: "templates_inv (ad_svc a)" and ids: "ids_issued n (ad_svc a)"
    using admin_invD [OF inv] by blast+
  let ?s = "run_template_ops [opn] (ad_svc a)"
  have a': "a' = a\<lparr>ad_svc := ?s\<rparr>" using st by simp
  have "templates_inv ?s \<and> (\<exists>k \<le> 3. ids_issued (n + k) ?s) \<and> svc_keeps (ad_svc a) ?s"
    using templates_inv_create [OF t ids n] templates_inv_update [OF t ids n] by (cases opn) simp_all
  then obtain k where k: "k \<le> 3" "ids_issued (n + k) ?s" and ts: "templates_inv ?s" and keep: "svc_keeps (ad_svc a) ?s"
    by blast
  have "same_for i a a'" for i using keep by (simp add: same_for_def svc_keeps_def a' del: run_template_ops.simps)
  then have "admin_inv (n + k) a'"
    using k ts keep by (intro admin_inv_same [OF inv]) (simp_all add: a' svc_keeps_def del: run_template_ops.simps)
  with k show ?thesis by (intro exI [where x = k]) simp
qed

lemma admin_inv_step:
  assumes inv: "admin_inv n a" and n: "n + 3 < 2 ^ 64" and st: "admin_step e a = Some a'"
  shows "\<exists>k \<le> 3. admin_inv (n + k) a'"
proof (cases e)
  case (AeCreate meta req)
  with admin_inv_create [OF inv n] st show ?thesis by blast
next
  case (AeBegin i)
  with admin_inv_begin [OF inv] st show ?thesis by (intro exI [where x = 0]) simp
next
  case (AeFinish i rs)
  with admin_inv_finish [OF inv] st show ?thesis by (intro exI [where x = 0]) simp
next
  case (AeCancel i)
  obtain cs where "snd (cancel_invocation i (ad_svc a)) = (ad_svc a)\<lparr>sv_canceled := cs\<rparr>"
    using cancel_invocation_writes by blast
  with admin_inv_cancel [OF inv, of _ cs] AeCancel st show ?thesis by (intro exI [where x = 0]) auto
next
  case (AeClientGone i)
  with admin_inv_cancel [OF inv refl] st show ?thesis by (intro exI [where x = 0]) (auto split: option.splits if_splits)
next
  case (AeTemplate opn)
  with admin_inv_template [OF inv n] st show ?thesis by blast
qed

definition admin_init :: "world \<Rightarrow> admin_state" where
  "admin_init w = \<lparr>ad_svc = new_service w, ad_runs = []\<rparr>"

lemma admin_init_inv: "w_counter w = 0 \<Longrightarrow> admin_inv 0 (admin_init w)"
  by (simp add: admin_inv_def admin_init_def templates_inv_def new_service_def ids_issued_def used_ids_def)

text \<open>A step issues at most three ids, so the invariant lasts until the 64-bit counter could wrap.\<close>

interpretation admin_sys: step_system admin_step "admin_init w"
  "\<lambda>es a. w_counter w = 0 \<and> 3 * length es + 3 < 2 ^ 64 \<longrightarrow> (\<exists>n \<le> 3 * length es. admin_inv n a)" for w
proof
  show "w_counter w = 0 \<and> 3 * length [] + 3 < (2::nat) ^ 64 \<longrightarrow> (\<exists>n \<le> 3 * length []. admin_inv n (admin_init w))"
    using admin_init_inv by auto
next
  fix es :: "admin_event list" and e a a'
  assume IH: "w_counter w = 0 \<and> 3 * length es + 3 < 2 ^ 64 \<longrightarrow> (\<exists>n \<le> 3 * length es. admin_inv n a)"
    and st: "admin_step e a = Some a'"
  show "w_counter w = 0 \<and> 3 * length (es @ [e]) + 3 < 2 ^ 64 \<longrightarrow> (\<exists>n \<le> 3 * length (es @ [e]). admin_inv n a')"
  proof
    assume b: "w_counter w = 0 \<and> 3 * length (es @ [e]) + 3 < 2 ^ 64"
    with IH obtain n where n: "n \<le> 3 * length es" "admin_inv n a" by auto
    with b have "n + 3 < 2 ^ 64" by simp
    from admin_inv_step [OF n(2) this st] obtain k where "k \<le> 3" "admin_inv (n + k) a'" by blast
    with n(1) show "\<exists>n \<le> 3 * length (es @ [e]). admin_inv n a'" by (intro exI [where x = "n + k"]) simp
  qed
qed

lemma admin_run_inv:
  assumes "admin_run es (admin_init w) = Some a" and "w_counter w = 0" and "3 * length es + 3 < 2 ^ 64"
  shows "\<exists>n \<le> 3 * length es. admin_inv n a"
  using admin_sys.inv_run [OF assms(1)] assms(2,3) by blast

lemma results_Inr: "get_invocation_results i s = Inr rs \<longleftrightarrow> map_of (sv_results s) i = Some rs"
proof -
  have "map clone_result xs = xs" for xs by (simp add: map_idI)
  then show ?thesis by (auto simp: get_invocation_results_def split: option.splits)
qed

lemma check_exact:
  "validate_params schema ps = CheckOk \<longleftrightarrow> schema_valid schema \<and> params_conform schema ps"
  using validate_params_accepts by blast

lemma final_create:
  assumes "admin_inv n a" and "n + 3 < 2 ^ 64" and "map_of (sv_invocations (ad_svc a)) i = Some iv"
    and "open_invocation meta req (ad_svc a) = (r, s)"
  shows "map_of (sv_invocations s) i = Some iv \<and> map_of (sv_results s) i = map_of (sv_results (ad_svc a)) i"
proof (cases r)
  case (Inl e)
  have "n + 1 < 2 ^ 64" using assms(2) by simp
  from open_invocation_fails [OF assms(4) [unfolded Inl] admin_invD(2) [OF assms(1)] this] assms(3)
  show ?thesis by (simp add: svc_keeps_def)
next
  case (Inr ip)
  obtain iv' plan where ip: "ip = (iv', plan)" by (cases ip)
  note w = open_invocation_writes [OF assms(4) [unfolded Inr ip] admin_invD(2) [OF assms(1)] assms(2)]
  have "i \<in> used_ids (ad_svc a)" using assms(3) by (auto simp: used_ids_def dest: map_of_SomeD intro: rev_image_eqI)
  with w assms(3) show ?thesis by auto
qed

lemma final_step:
  assumes inv: "admin_inv n a" and n: "n + 3 < 2 ^ 64" and iv: "map_of (sv_invocations (ad_svc a)) i = Some iv"
    and idle: "map_of (ad_runs a) i = None" and st: "admin_step e a = Some a'"
  shows "map_of (sv_invocations (ad_svc a')) i = Some iv \<and>
    map_of (sv_results (ad_svc a')) i = map_of (sv_results (ad_svc a)) i"
proof (cases e)
  case (AeCreate meta req)
  obtain r s where o: "open_invocation meta req (ad_svc a) = (r, s)" by fastforce
  have "ad_svc a' = s" using st AeCreate o by (auto split: sum.splits prod.splits)
  with final_create [OF inv n iv o] show ?thesis by simp
next
  case (AeBegin j)
  with st idle have "j \<noteq> i" by (auto split: option.splits)
  with st AeBegin iv show ?thesis
    by (auto simp: begin_invocation_def Let_def case_prod_unfold map_of_update_invocation split: option.splits)
next
  case (AeFinish j rs)
  with st idle have "j \<noteq> i" by (auto split: option.splits)
  with st AeFinish iv show ?thesis
    by (auto simp: finish_invocation_def Let_def case_prod_unfold map_of_update_invocation split: option.splits if_splits)
next
  case (AeCancel j)
  obtain cs where "snd (cancel_invocation j (ad_svc a)) = (ad_svc a)\<lparr>sv_canceled := cs\<rparr>"
    using cancel_invocation_writes by blast
  with st AeCancel iv show ?thesis by auto
next
  case (AeClientGone j)
  with st iv show ?thesis by (auto split: option.splits if_splits)
next
  case (AeTemplate opn)
  have "svc_keeps (ad_svc a) (run_template_ops [opn] (ad_svc a))"
    using templates_inv_create [OF admin_invD(1,2) [OF inv] n] templates_inv_update [OF admin_invD(1,2) [OF inv] n]
    by (cases opn) simp_all
  with st AeTemplate iv show ?thesis by (auto simp: svc_keeps_def simp del: run_template_ops.simps)
qed

section \<open>Properties\<close>

text \<open>C21: An accepted plan is authorised and complete: the caller is an admin or the action is
  read-only; targets are distinct and not blank; the timeout is positive; a builtin action is a
  supported one of at most 30 seconds; a template is enabled, its parameters conform to its
  schema, and its timeout is within its bounds.\<close>

theorem plan_authorized:
  assumes "prepare_plan meta req s = Inr plan"
  shows "(id_domain (rm_identity meta) = DomainAdmin \<or> ep_risk_level plan = risk_readonly) \<and>
    distinct (ep_targets plan) \<and> [] \<notin> set (ep_targets plan) \<and> 0 < ep_timeout_sec plan \<and>
    (case ep_template plan of
       None \<Rightarrow> ep_action_type plan = action_builtin \<and> ep_timeout_sec plan \<le> 30 \<and>
         (\<exists>spec. builtin_spec_for (ep_action plan) = Inr spec \<and> ep_risk_level plan = bs_risk_level spec)
     | Some tpl \<Rightarrow> ep_action_type plan = action_template \<and> tpl_enabled tpl \<and> ep_action plan = tpl_name tpl \<and>
         ep_risk_level plan = tpl_risk_level tpl \<and> schema_valid (tpl_params_schema tpl) \<and>
         params_conform (tpl_params_schema tpl) (ep_params plan) \<and>
         (0 < tpl_default_timeout_sec tpl \<and> tpl_default_timeout_sec tpl \<le> tpl_max_timeout_sec tpl \<longrightarrow>
            ep_timeout_sec plan \<le> tpl_max_timeout_sec tpl))"
proof (cases "trim_space (cir_action_type req) = action_builtin")
  case True
  with assms normalize_timeout_bounds [of "cir_timeout_sec req" 10 30] show ?thesis
    by (auto simp: prepare_plan_def Let_def allow_risk_def set_dedupe split: if_splits option.splits sum.splits)
next
  case False
  with assms obtain tpl ps where r: "resolve_template (normalize_action (cir_action req)) s = Inr tpl"
    and p: "validate_params (tpl_params_schema tpl) ps = CheckOk" "tpl_enabled tpl"
    "allow_risk (id_domain (rm_identity meta)) (tpl_risk_level tpl) = None"
    and plan: "plan = \<lparr>ep_action = tpl_name tpl, ep_action_type = action_template, ep_targets = dedupe (cir_targets req),
       ep_params = ps, ep_timeout_sec = normalize_timeout (cir_timeout_sec req) (tpl_default_timeout_sec tpl) (tpl_max_timeout_sec tpl),
       ep_risk_level = tpl_risk_level tpl, ep_template = Some tpl\<rparr>"
    by (auto simp: prepare_plan_def Let_def split: if_splits option.splits sum.splits check.splits)
  have "schema_valid (tpl_params_schema tpl) \<and> params_conform (tpl_params_schema tpl) ps"
    using p(1) check_exact by blast
  with p plan normalize_timeout_bounds normalize_timeout_max show ?thesis
    by (auto simp: allow_risk_def set_dedupe split: if_splits)
qed


text \<open>C8: A final status is final: no later step of any kind changes the invocation or its
  results.\<close>

theorem terminal_is_final:
  assumes "w_counter w = 0" and "length es + 1 \<le> 2 ^ 60" and "admin_run es (admin_init w) = Some a"
    and "map_of (sv_invocations (ad_svc a)) i = Some iv" and "terminal (inv_status iv)"
    and "admin_step e a = Some a'"
  shows "get_invocation i (ad_svc a') = Inr iv \<and>
         get_invocation_results i (ad_svc a') = get_invocation_results i (ad_svc a)"
proof -
  obtain n where n: "admin_inv n a" "n \<le> 3 * length es"
    using admin_run_inv [OF assms(3,1)] assms(2) by auto
  from n(2) assms(2) have bound: "n + 3 < 2 ^ 64" by simp
  have ok: "inv_ok a i iv" using n(1) assms(4) by (rule admin_invD)
  then have idle: "map_of (ad_runs a) i = None"
    using assms(5) by (auto simp: inv_ok_def split: option.splits if_splits)
  have "map_of (sv_invocations (ad_svc a')) i = Some iv \<and>
        map_of (sv_results (ad_svc a')) i = map_of (sv_results (ad_svc a)) i"
    by (rule final_step [OF n(1) bound assms(4) idle assms(6)])
  then show ?thesis by (simp add: get_invocation_def get_invocation_results_def)
qed

text \<open>What a final status means: canceled when the context was canceled or every target was;
  otherwise succeeded when all targets succeeded, failed when none did, partial in between.  An
  invocation without targets ends as failed.\<close>

theorem summary_meaning:
  assumes "\<forall>r \<in> set rs. res_status r \<in> {st_succeeded, st_failed, st_canceled}"
  shows "summarize_invocation_status rs c =
     (if c then st_canceled
      else if rs \<noteq> [] \<and> (\<forall>r \<in> set rs. res_status r = st_canceled) then st_canceled
      else if rs \<noteq> [] \<and> (\<forall>r \<in> set rs. res_status r = st_succeeded) then st_succeeded
      else if \<exists>r \<in> set rs. res_status r = st_succeeded then st_partial
      else st_failed)"
proof -
  have all: "length (filter P rs) = length rs \<longleftrightarrow> (\<forall>r \<in> set rs. P r)" for P
    by (metis filter_True length_filter_less less_irrefl)
  have none: "length (filter P rs) = 0 \<longleftrightarrow> (\<forall>r \<in> set rs. \<not> P r)" for P
    by (simp add: filter_empty_conv)
  show ?thesis unfolding summarize_invocation_status_def Let_def all none by auto
qed

lemma two_results_summary: "res_status (ok_result n) \<in> {st_succeeded, st_failed, st_canceled}"
  by (simp add: ok_result_def)

lemma summary_meaning_witness:
  "summarize_invocation_status [ok_result ''n1'', (ok_result ''n2'')\<lparr>res_status := st_failed\<rparr>] False = st_partial"
  by (subst summary_meaning) (simp_all add: ok_result_def status_defs)

lemma trim_visible_words:
  "trim_space ''disk'' = ''disk''" "trim_space ''sys.info'' = ''sys.info''" "trim_space ''builtin'' = ''builtin''"
  "trim_space ''n1'' = ''n1''" "trim_space ''a:b'' = ''a:b''" "trim_space ''command_template'' = ''command_template''"
  by (rule trim_space_visible; simp add: visible_char_def)+

definition info_request :: "bool \<Rightarrow> create_invocation_request" where
  "info_request async = \<lparr>cir_action = ''sys.info'', cir_action_type = ''builtin'', cir_targets = [''n1''],
     cir_params = GNil, cir_timeout_sec = 0, cir_async = async\<rparr>"

definition info_plan :: execution_plan where
  "info_plan = \<lparr>ep_action = ''sys.info'', ep_action_type = ''builtin'', ep_targets = [''n1''], ep_params = [],
     ep_timeout_sec = 10, ep_risk_level = risk_readonly, ep_template = None\<rparr>"

lemma info_plan_accepted: "prepare_plan meta (info_request async) s = Inr info_plan"
proof -
  have "normalize_action ''sys.info'' = ''sys.info''"
    by (simp add: normalize_action_def trim_visible_words replace_char_def)
  then show ?thesis
    by (simp add: prepare_plan_def info_request_def trim_visible_words Let_def action_defs to_map_def builtin_spec_for_def
        allow_risk_def normalize_timeout_def dedupe_def info_plan_def)
qed

lemma plan_authorized_witness:
  "\<exists>plan. prepare_plan client_meta (info_request False) sample_service = Inr plan \<and> ep_risk_level plan = risk_readonly"
  using plan_authorized [OF info_plan_accepted [of client_meta False sample_service]] info_plan_accepted
  by (intro exI [where x = info_plan]) (simp add: client_meta_def)

definition info_done :: "string \<Rightarrow> admin_event list" where
  "info_done i = [AeCreate client_meta (info_request True), AeBegin i, AeFinish i [ok_result ''n1'']]"

lemma info_run:
  "\<exists>i a iv. admin_run (info_done i) (admin_init toy_world) = Some a \<and> map_of (sv_invocations (ad_svc a)) i = Some iv \<and>
     inv_status iv = st_succeeded"
proof -
  obtain iv plan s where o: "open_invocation client_meta (info_request True) (new_service toy_world) = (Inr (iv, plan), s)"
    and plan: "plan = info_plan"
    by (simp add: open_invocation_def Let_def case_prod_unfold info_plan_accepted)
  have "ids_issued 0 (new_service toy_world)" by (simp add: ids_issued_def used_ids_def new_service_def toy_world_def)
  from open_invocation_writes [OF o this]
  have w: "sv_invocations s = [(inv_id iv, iv)]" "sv_canceled s = []"
    by (auto simp: new_service_def)
  let ?a1 = "\<lparr>ad_svc = s, ad_runs = [(inv_id iv, \<lparr>ru_plan = info_plan, ru_started = None\<rparr>)]\<rparr>"
  have "admin_step (AeCreate client_meta (info_request True)) (admin_init toy_world) = Some ?a1"
    using o plan by (simp add: admin_init_def)
  then have run: "admin_run (info_done (inv_id iv)) (admin_init toy_world) = admin_run (tl (info_done (inv_id iv))) ?a1"
    by (simp add: info_done_def)
  obtain a where a: "admin_run (tl (info_done (inv_id iv))) ?a1 = Some a"
    and iv': "map_option inv_status (map_of (sv_invocations (ad_svc a)) (inv_id iv)) = Some st_succeeded"
    using w by (simp add: info_done_def begin_invocation_def finish_invocation_def Let_def case_prod_unfold
        targets_reported_def info_plan_def map_of_update_invocation sort_results_def ok_result_def summarize_invocation_status_def status_defs)
  from run a have "admin_run (info_done (inv_id iv)) (admin_init toy_world) = Some a" by simp
  with iv' show ?thesis by auto
qed


lemma terminal_is_final_witness:
  "\<exists>i a a' iv. admin_run (info_done i) (admin_init toy_world) = Some a \<and>
     map_of (sv_invocations (ad_svc a)) i = Some iv \<and> admin_step (AeCancel i) a = Some a' \<and>
     get_invocation i (ad_svc a') = Inr iv"
proof -
  obtain i a iv where r: "admin_run (info_done i) (admin_init toy_world) = Some a"
    "map_of (sv_invocations (ad_svc a)) i = Some iv" "inv_status iv = st_succeeded"
    using info_run by blast
  have l: "length (info_done i) + 1 \<le> 2 ^ 60" and w: "w_counter toy_world = 0" and t: "terminal (inv_status iv)"
    using r(3) by (simp_all add: toy_world_def info_done_def terminal_def)
  obtain a' where a': "admin_step (AeCancel i) a = Some a'" by simp
  from terminal_is_final [OF w l r(1,2) t a'] r a' show ?thesis by blast
qed

section \<open>Where the service does not do what it means to\<close>

definition colon_service :: service where
  "colon_service = sample_service\<lparr>sv_templates := [(''t1'', sample_template\<lparr>tpl_name := ''a:b''\<rparr>)],
     sv_template_name_ids := [(''a:b'', ''t1'')]\<rparr>"

text \<open>A template whose name has a colon cannot be invoked by its name: the name is rewritten
  to dots before it is looked up, so the plan fails as not found although \<open>resolveTemplate\<close>
  finds the template under the name it was created with.\<close>

theorem colon_name_unreachable:
  "resolve_template ''a:b'' colon_service = Inr (sample_template\<lparr>tpl_name := ''a:b''\<rparr>) \<and>
   prepare_plan admin_meta \<lparr>cir_action = ''a:b'', cir_action_type = ''command_template'', cir_targets = [''n1''],
     cir_params = GNil, cir_timeout_sec = 0, cir_async = False\<rparr> colon_service = Inl template_not_found"
proof -
  have "normalize_action ''a:b'' = ''a.b''"
    by (simp add: normalize_action_def trim_visible_words replace_char_def)
  then show ?thesis
    by (simp add: resolve_template_def colon_service_def prepare_plan_def trim_visible_words action_defs to_map_def Let_def)
qed

text \<open>A request whose targets are all blank is accepted, although an empty target list is
  refused: it becomes an invocation without targets, which ends as failed with no result that
  says why.\<close>

theorem blank_targets_accepted:
  "prepare_plan meta ((info_request False)\<lparr>cir_targets := [''  '']\<rparr>) s = Inr (info_plan\<lparr>ep_targets := []\<rparr>) \<and>
   prepare_plan meta ((info_request False)\<lparr>cir_targets := []\<rparr>) s =
     Inl (invalid_arg 400 ''targets.node_ids must not be empty'') \<and>
   summarize_invocation_status [] False = st_failed"
proof -
  have "normalize_action ''sys.info'' = ''sys.info''"
    by (simp add: normalize_action_def trim_visible_words replace_char_def)
  moreover have "trim_space ''  '' = []" by code_simp
  ultimately show ?thesis
    by (simp add: prepare_plan_def info_request_def trim_visible_words Let_def action_defs to_map_def builtin_spec_for_def
        allow_risk_def normalize_timeout_def dedupe_def info_plan_def summarize_invocation_status_def)
qed

text \<open>All targets of a builtin action are called under one request id, the invocation's, so
  their calls meet in one slot of the router and one row of the call log; the targets of a
  template get an id each.\<close>

theorem builtin_targets_share_request_id:
  assumes "builtin_spec_for (ep_action plan) = Inr spec" and "en_logging env"
    and "registry_lookup (en_reg env) node = Some rec" and "ar_node_type rec = ''agent''" and "ar_status rec = StatusOnline"
  shows "\<exists>tool args json msg. snd (execute_builtin env rid node plan) =
    [LogInsert rid (en_instance env) node tool args, LogComplete rid json msg]"
proof -
  obtain tool args where m: "bs_marshal spec (en_marshal env) (ep_params plan) = (tool, args)" by fastforce
  obtain res logs where i: "invoke_tool env rid node tool args = (res, logs)" by fastforce
  have "\<exists>json msg. logs = [LogInsert rid (en_instance env) node tool args, LogComplete rid json msg]"
    using i assms(2-5)
    by (auto simp: invoke_tool_def log_begin_def log_end_def split: sum.splits)
  with m i assms(1) show ?thesis
    by (auto simp: execute_builtin_def split: sum.splits)
qed

lemma builtin_targets_share_request_id_witness:
  "\<exists>tool args json msg. snd (execute_builtin toy_env ''inv-1'' ''n1'' info_plan) =
     [LogInsert ''inv-1'' ''center-a'' ''n1'' tool args, LogComplete ''inv-1'' json msg]"
proof -
  have "normalize_action ''sys.info'' = ''sys.info''"
    by (simp add: normalize_action_def trim_visible_words replace_char_def)
  then obtain spec where spec: "builtin_spec_for (ep_action info_plan) = Inr spec"
    by (simp add: builtin_spec_for_def info_plan_def)
  have e: "en_logging toy_env" "en_instance toy_env = ''center-a''" by (simp_all add: toy_env_def)
  have "ar_node_type sample_agent = ''agent''" "ar_status sample_agent = StatusOnline"
    by (simp_all add: sample_agent_def)
  from builtin_targets_share_request_id [OF spec e(1) toy_env_lookup this, of "''inv-1''"] e(2)
  show ?thesis by simp
qed

end
