(* ===== verification/Fan_Out.thy ===== *)
theory Fan_Out
  imports Admin_Invocations
begin

text \<open>
  The middle of \<open>executeInvocation\<close> in \<open>internal/sysplane-center/admin/service.go\<close>: a goroutine for
  every target of the plan, a wait group, and the slice of results under a mutex of its own.

  \<open>fan_step\<close> is what one invocation does between its two locked sections, cut at every point where
  its goroutines can interleave; \<open>exec_step\<close> puts the fans of all invocations beside \<open>admin_step\<close>, so
  that the results an invocation ends with are the ones its goroutines appended.
\<close>

section \<open>The goroutines of one invocation\<close>

text \<open>A goroutine has its node and its local variable \<open>result\<close>.\<close>

datatype target_phase =
    TpRunning
  | TpRan invocation_result        \<comment> \<open>\<open>executeTarget\<close> has returned\<close>
  | TpAppended invocation_result   \<comment> \<open>the result is in the slice\<close>
  | TpDone invocation_result       \<comment> \<open>\<open>wg.Done\<close> was called\<close>

record fan_out =
  fo_left :: "string list"         \<comment> \<open>the targets the loop has not reached\<close>
  fo_tasks :: "(string \<times> target_phase) list"
  fo_wg :: nat
  fo_results :: "invocation_result list"

definition fan_init :: "execution_plan \<Rightarrow> fan_out" where
  "fan_init plan = \<lparr>fo_left = ep_targets plan, fo_tasks = [], fo_wg = 0, fo_results = []\<rparr>"

text \<open>\<open>FoRun k env t0 t1\<close>: goroutine \<open>k\<close> executes its target; \<open>env\<close> is what it finds (the registry, what
  router and peers answer), \<open>t0\<close> and \<open>t1\<close> are the times it reads.\<close>

datatype fan_event = FoSpawn | FoRun nat exec_env int int | FoAppend nat | FoDone nat

definition task_at :: "nat \<Rightarrow> fan_out \<Rightarrow> (string \<times> target_phase) option" where
  "task_at k f = (if k < length (fo_tasks f) then Some (fo_tasks f ! k) else None)"

definition set_task :: "nat \<Rightarrow> string \<Rightarrow> target_phase \<Rightarrow> fan_out \<Rightarrow> fan_out" where
  "set_task k node p f = f\<lparr>fo_tasks := (fo_tasks f)[k := (node, p)]\<rparr>"

fun fan_step :: "string \<Rightarrow> execution_plan \<Rightarrow> fan_event \<Rightarrow> fan_out \<Rightarrow> fan_out option" where
  "fan_step i plan FoSpawn f =
     (case fo_left f of
        [] \<Rightarrow> None
      | node # rest \<Rightarrow> Some (f\<lparr>fo_left := rest, fo_wg := fo_wg f + 1, fo_tasks := fo_tasks f @ [(node, TpRunning)]\<rparr>))"
| "fan_step i plan (FoRun k env t0 t1) f =
     (case task_at k f of
        Some (node, TpRunning) \<Rightarrow> Some (set_task k node (TpRan (fst (execute_target env t0 t1 i node plan))) f)
      | _ \<Rightarrow> None)"
| "fan_step i plan (FoAppend k) f =
     (case task_at k f of
        Some (node, TpRan r) \<Rightarrow> Some (set_task k node (TpAppended r) (f\<lparr>fo_results := fo_results f @ [r]\<rparr>))
      | _ \<Rightarrow> None)"
| "fan_step i plan (FoDone k) f =
     (case task_at k f of
        Some (node, TpAppended r) \<Rightarrow> Some (set_task k node (TpDone r) (f\<lparr>fo_wg := fo_wg f - 1\<rparr>))
      | _ \<Rightarrow> None)"

text \<open>The loop is through and \<open>wg.Wait\<close> returns.\<close>

definition fan_over :: "fan_out \<Rightarrow> bool" where
  "fan_over f \<longleftrightarrow> fo_left f = [] \<and> fo_wg f = 0"

section \<open>What a fan leaves\<close>

type_synonym target_run = "nat \<times> exec_env \<times> int \<times> int"

definition outcome_of :: "string \<Rightarrow> execution_plan \<Rightarrow> target_run \<Rightarrow> invocation_result" where
  "outcome_of i plan run = (case run of (k, env, t0, t1) \<Rightarrow> fst (execute_target env t0 t1 i (ep_targets plan ! k) plan))"

definition fan_run :: "fan_event \<Rightarrow> target_run list" where
  "fan_run e = (case e of FoRun k env t0 t1 \<Rightarrow> [(k, env, t0, t1)] | _ \<Rightarrow> [])"

lemma fan_run_simps [simp]:
  "fan_run FoSpawn = []" "fan_run (FoRun k env t0 t1) = [(k, env, t0, t1)]"
  "fan_run (FoAppend k) = []" "fan_run (FoDone k) = []"
  by (simp_all add: fan_run_def)

primrec task_result :: "target_phase \<Rightarrow> invocation_result option" where
  "task_result TpRunning = None"
| "task_result (TpRan r) = Some r"
| "task_result (TpAppended r) = Some r"
| "task_result (TpDone r) = Some r"

primrec in_slice :: "target_phase \<Rightarrow> bool" where
  "in_slice TpRunning = False"
| "in_slice (TpRan r) = False"
| "in_slice (TpAppended r) = True"
| "in_slice (TpDone r) = True"

primrec counted :: "target_phase \<Rightarrow> bool" where
  "counted TpRunning = True"
| "counted (TpRan r) = True"
| "counted (TpAppended r) = True"
| "counted (TpDone r) = False"

abbreviation task_phase :: "fan_out \<Rightarrow> nat \<Rightarrow> target_phase" where
  "task_phase f k \<equiv> snd (fo_tasks f ! k)"

definition fan_inv :: "string \<Rightarrow> execution_plan \<Rightarrow> target_run list \<Rightarrow> fan_out \<Rightarrow> bool" where
  "fan_inv i plan runs f \<longleftrightarrow>
     map fst (fo_tasks f) @ fo_left f = ep_targets plan \<and>
     fo_wg f = length (filter (\<lambda>t. counted (snd t)) (fo_tasks f)) \<and>
     distinct (map fst runs) \<and> fst ` set runs \<subseteq> {..<length (fo_tasks f)} \<and>
     (\<forall>k < length (fo_tasks f). case task_result (task_phase f k) of
        None \<Rightarrow> k \<notin> fst ` set runs
      | Some r \<Rightarrow> \<exists>run \<in> set runs. fst run = k \<and> r = outcome_of i plan run) \<and>
     mset (fo_results f) = mset (map (outcome_of i plan) (filter (\<lambda>run. in_slice (task_phase f (fst run))) runs))"

lemma fan_inv_init: "fan_inv i plan [] (fan_init plan)"
  by (simp add: fan_inv_def fan_init_def)


subsection \<open>Every step keeps the invariant\<close>

lemma mset_filter_new:
  assumes "distinct (map fst xs)" and "z \<in> set xs" and "fst z = k" and "\<not> P k"
  shows "mset (map g (filter (\<lambda>x. fst x = k \<or> P (fst x)) xs)) = add_mset (g z) (mset (map g (filter (\<lambda>x. P (fst x)) xs)))"
  using assms
proof (induction xs)
  case (Cons x xs)
  show ?case
  proof (cases "fst x = k")
    case True
    with Cons.prems have x: "x = z" and "k \<notin> fst ` set xs" by (auto intro: rev_image_eqI)
    then have "filter (\<lambda>x. fst x = k \<or> P (fst x)) xs = filter (\<lambda>x. P (fst x)) xs"
      by (intro filter_cong) auto
    with x True Cons.prems show ?thesis by simp
  next
    case False
    with Cons show ?thesis by auto
  qed
qed simp

lemma fan_invD:
  assumes "fan_inv i plan runs f"
  shows "map fst (fo_tasks f) @ fo_left f = ep_targets plan"
    and "fo_wg f = length (filter (\<lambda>t. counted (snd t)) (fo_tasks f))"
    and "distinct (map fst runs)" and "fst ` set runs \<subseteq> {..<length (fo_tasks f)}"
    and "k < length (fo_tasks f) \<Longrightarrow> task_result (task_phase f k) = None \<Longrightarrow> k \<notin> fst ` set runs"
    and "k < length (fo_tasks f) \<Longrightarrow> task_result (task_phase f k) = Some r \<Longrightarrow> \<exists>run \<in> set runs. fst run = k \<and> r = outcome_of i plan run"
    and "mset (fo_results f) = mset (map (outcome_of i plan) (filter (\<lambda>run. in_slice (task_phase f (fst run))) runs))"
  using assms unfolding fan_inv_def by (auto split: option.splits)

lemma fan_inv_spawn:
  assumes inv: "fan_inv i plan runs f" and st: "fan_step i plan FoSpawn f = Some f'"
  shows "fan_inv i plan runs f'"
proof -
  from st obtain node rest where l: "fo_left f = node # rest"
    and f': "f' = f\<lparr>fo_left := rest, fo_wg := fo_wg f + 1, fo_tasks := fo_tasks f @ [(node, TpRunning)]\<rparr>"
    by (auto split: list.splits)
  note d = fan_invD [OF inv]
  let ?n = "length (fo_tasks f)"
  have old: "task_phase f' k = task_phase f k" if "k < ?n" for k using that by (simp add: f' nth_append)
  have new: "task_phase f' ?n = TpRunning" by (simp add: f')
  have "filter (\<lambda>run. in_slice (task_phase f' (fst run))) runs = filter (\<lambda>run. in_slice (task_phase f (fst run))) runs"
    using d(4) old by (intro filter_cong) auto
  moreover have "case task_result (task_phase f' k) of None \<Rightarrow> k \<notin> fst ` set runs
      | Some r \<Rightarrow> \<exists>run \<in> set runs. fst run = k \<and> r = outcome_of i plan run" if "k < Suc ?n" for k
  proof (cases "k = ?n")
    case True
    with d(4) new show ?thesis by auto
  next
    case False
    with that have "k < ?n" by simp
    with d(5,6) [OF this] old show ?thesis by (auto split: option.split)
  qed
  ultimately show ?thesis using d(1-4,7) l
    unfolding fan_inv_def by (auto simp: f' lessThan_Suc)
qed

text \<open>A step of one goroutine.\<close>

lemma fan_inv_task:
  assumes inv: "fan_inv i plan runs f" and k: "task_at k f = Some (node, p)"
    and f': "f' = set_task k node p' (f\<lparr>fo_wg := wg, fo_results := res\<rparr>)"
    and wg: "wg + of_bool (counted p) = fo_wg f + of_bool (counted p')"
    and runs: "distinct (map fst runs')" "set runs \<subseteq> set runs'" "fst ` set runs' \<subseteq> insert k (fst ` set runs)"
    and own: "\<exists>run \<in> set runs'. fst run = k \<and> task_result p' = Some (outcome_of i plan run)"
    and res: "mset res = mset (map (outcome_of i plan) (filter (\<lambda>run. in_slice (task_phase f' (fst run))) runs'))"
  shows "fan_inv i plan runs' f'"
proof -
  from k have l: "k < length (fo_tasks f)" and t: "fo_tasks f ! k = (node, p)" by (auto simp: task_at_def split: if_splits)
  note d = fan_invD [OF inv]
  have "case task_result (task_phase f' j) of None \<Rightarrow> j \<notin> fst ` set runs'
      | Some r \<Rightarrow> \<exists>run \<in> set runs'. fst run = j \<and> r = outcome_of i plan run" if "j < length (fo_tasks f)" for j
  proof (cases "j = k")
    case True
    from own obtain run where "run \<in> set runs'" "fst run = k" "task_result p' = Some (outcome_of i plan run)" by blast
    with True l show ?thesis by (auto simp: f' set_task_def)
  next
    case False
    then have "task_phase f' j = task_phase f j" by (simp add: f' set_task_def)
    moreover have "j \<notin> fst ` set runs' " if "j \<notin> fst ` set runs" using runs(3) False that by blast
    moreover have "\<exists>run \<in> set runs'. P run" if "\<exists>run \<in> set runs. P run" for P using runs(2) that by blast
    ultimately show ?thesis using d(5,6) [OF that] by (cases "task_result (task_phase f j)") simp_all
  qed
  moreover have "map fst ((fo_tasks f)[k := (node, p')]) = map fst (fo_tasks f)"
    using l t by (metis fst_conv list_update_id map_update nth_map)
  moreover have "fo_wg f' = length (filter (\<lambda>t. counted (snd t)) (fo_tasks f'))"
    using count_update [OF l, of "\<lambda>t. counted (snd t)" "(node, p')"] wg d(2) t by (simp add: f' set_task_def)
  moreover have "fst ` set runs' \<subseteq> {..<length (fo_tasks f)}" using runs(3) d(4) l by auto
  ultimately show ?thesis using d(1) runs(1) res
    unfolding fan_inv_def by (simp add: f' set_task_def)
qed

lemma fan_inv_step:
  assumes inv: "fan_inv i plan runs f" and st: "fan_step i plan e f = Some f'"
  shows "fan_inv i plan (runs @ fan_run e) f'"
proof (cases e)
  case FoSpawn
  with fan_inv_spawn [OF inv] st show ?thesis by simp
next
  case (FoRun k env t0 t1)
  from st obtain node where k: "task_at k f = Some (node, TpRunning)"
    and f': "f' = set_task k node (TpRan (fst (execute_target env t0 t1 i node plan))) (f\<lparr>fo_wg := fo_wg f, fo_results := fo_results f\<rparr>)"
    unfolding FoRun by (auto split: option.splits prod.splits target_phase.splits)
  note d = fan_invD [OF inv]
  from k have l: "k < length (fo_tasks f)" and t: "fo_tasks f ! k = (node, TpRunning)"
    by (auto simp: task_at_def split: if_splits)
  have node: "ep_targets plan ! k = node"
    using d(1) l t by (metis fst_conv length_map nth_append nth_map)
  have notin: "k \<notin> fst ` set runs" using d(5) [OF l] t by simp
  have "task_phase f' (fst run) = task_phase f (fst run)" if "run \<in> set runs" for run
  proof -
    have "fst run \<noteq> k" using that notin by (metis image_eqI)
    then show ?thesis by (simp add: f' set_task_def)
  qed
  then have "filter (\<lambda>run. in_slice (task_phase f' (fst run))) runs = filter (\<lambda>run. in_slice (task_phase f (fst run))) runs"
    by (intro filter_cong) simp_all
  then show ?thesis
    using d(3,7) notin l node
    by (intro fan_inv_task [OF inv k f']) (auto simp: FoRun outcome_of_def f' set_task_def)
next
  case (FoAppend k)
  from st obtain node r where k: "task_at k f = Some (node, TpRan r)"
    and f': "f' = set_task k node (TpAppended r) (f\<lparr>fo_wg := fo_wg f, fo_results := fo_results f @ [r]\<rparr>)"
    unfolding FoAppend by (auto split: option.splits prod.splits target_phase.splits)
  note d = fan_invD [OF inv]
  from k have l: "k < length (fo_tasks f)" and t: "fo_tasks f ! k = (node, TpRan r)"
    by (auto simp: task_at_def split: if_splits)
  obtain run where run: "run \<in> set runs" "fst run = k" "r = outcome_of i plan run" using d(6) [OF l] t by auto
  have sl: "(\<lambda>run. in_slice (task_phase f' (fst run))) = (\<lambda>run. fst run = k \<or> in_slice (task_phase f (fst run)))"
    using l by (auto simp: f' set_task_def nth_list_update t)
  have "mset (map (outcome_of i plan) (filter (\<lambda>run. in_slice (task_phase f' (fst run))) runs)) = add_mset r (mset (fo_results f))"
    unfolding sl using mset_filter_new [OF d(3) run(1,2), of "\<lambda>j. in_slice (task_phase f j)" "outcome_of i plan"] t run(3) d(7)
    by simp
  then have res: "mset (fo_results f @ [r]) = mset (map (outcome_of i plan) (filter (\<lambda>run. in_slice (task_phase f' (fst run))) runs))"
    by simp
  have "fan_inv i plan runs f'"
    using d(3) run by (intro fan_inv_task [OF inv k f' _ _ _ _ _ res]) auto
  then show ?thesis by (simp add: FoAppend)
next
  case (FoDone k)
  from st obtain node r where k: "task_at k f = Some (node, TpAppended r)"
    and f': "f' = set_task k node (TpDone r) (f\<lparr>fo_wg := fo_wg f - 1, fo_results := fo_results f\<rparr>)"
    unfolding FoDone by (auto split: option.splits prod.splits target_phase.splits)
  note d = fan_invD [OF inv]
  from k have l: "k < length (fo_tasks f)" and t: "fo_tasks f ! k = (node, TpAppended r)"
    by (auto simp: task_at_def split: if_splits)
  obtain run where run: "run \<in> set runs" "fst run = k" "r = outcome_of i plan run" using d(6) [OF l] t by auto
  have "in_slice (task_phase f' j) = in_slice (task_phase f j)" for j
    using l t by (cases "j = k") (simp_all add: f' set_task_def)
  moreover have "0 < fo_wg f"
    using d(2) l t by (metis counted.simps(3) filter_empty_conv length_greater_0_conv nth_mem snd_conv)
  ultimately show ?thesis
    using d(3,7) run by (intro fan_inv_task [OF inv k f']) (auto simp: FoDone)
qed

subsection \<open>A fan that is over\<close>

lemma fan_over_runs:
  assumes inv: "fan_inv i plan runs f" and over: "fan_over f"
  shows "fst ` set runs = {..<length (ep_targets plan)}"
    and "mset (fo_results f) = mset (map (outcome_of i plan) runs)"
proof -
  note d = fan_invD [OF inv]
  have len: "length (fo_tasks f) = length (ep_targets plan)"
    using d(1) over by (metis append_Nil2 fan_over_def length_map)
  have fin: "\<exists>r. task_phase f k = TpDone r" if "k < length (fo_tasks f)" for k
  proof -
    have "\<not> counted (task_phase f k)"
      using d(2) over that by (simp add: fan_over_def filter_empty_conv)
    then show ?thesis by (cases "task_phase f k") auto
  qed
  show "fst ` set runs = {..<length (ep_targets plan)}"
  proof (rule antisym)
    show "fst ` set runs \<subseteq> {..<length (ep_targets plan)}" using d(4) len by simp
    show "{..<length (ep_targets plan)} \<subseteq> fst ` set runs"
    proof
      fix k assume "k \<in> {..<length (ep_targets plan)}"
      then have l: "k < length (fo_tasks f)" using len by simp
      with fin obtain r where "task_phase f k = TpDone r" by blast
      with d(6) [OF l, of r] show "k \<in> fst ` set runs" by (force intro: rev_image_eqI)
    qed
  qed
  have "filter (\<lambda>run. in_slice (task_phase f (fst run))) runs = runs"
    using fin d(4) by (intro filter_True) (force simp: subset_iff)
  then show "mset (fo_results f) = mset (map (outcome_of i plan) runs)" using d(7) by simp
qed

lemma outcome_of_node [simp]: "res_node_id (outcome_of i plan run) = ep_targets plan ! fst run"
  by (simp add: outcome_of_def split: prod.split)

lemma fan_over_reported:
  assumes inv: "fan_inv i plan runs f" and over: "fan_over f" and dist: "distinct (ep_targets plan)"
  shows "targets_reported plan (fo_results f)"
proof -
  note m = fan_over_runs [OF inv over]
  let ?node = "\<lambda>run. ep_targets plan ! fst run"
  have "res_node_id \<circ> outcome_of i plan = ?node" by (simp add: fun_eq_iff)
  then have nodes: "mset (map res_node_id (fo_results f)) = mset (map ?node runs)"
    using arg_cong [OF m(2), of "image_mset res_node_id"] by (simp add: multiset.map_comp)
  have "set (map ?node runs) = (\<lambda>k. ep_targets plan ! k) ` fst ` set runs" by (simp add: image_image)
  then have "set (map ?node runs) = set (ep_targets plan)"
    using m(1) by (auto simp: in_set_conv_nth)
  moreover have "distinct (map ?node runs)"
  proof -
    have "distinct (map (\<lambda>k. ep_targets plan ! k) (map fst runs))"
      unfolding distinct_map using fan_invD(3) [OF inv] m(1) dist
      by (auto simp: distinct_map intro!: inj_on_nth)
    then show ?thesis by (simp add: o_def)
  qed
  ultimately show ?thesis
    using nodes mset_eq_setD [OF nodes] mset_eq_imp_distinct_iff [OF nodes]
    by (simp only: targets_reported_def)
qed


text \<open>A synchronous invocation (\<open>create_invocation_sync\<close>) executes its targets in one go, in some order;
  goroutines that make the same of each target lead to the same end.\<close>

lemma sync_as_fan:
  assumes inv: "fan_inv i plan runs f" and over: "fan_over f" and dist: "distinct (ep_targets plan)"
    and same: "\<And>run. run \<in> set runs \<Longrightarrow> outcome_of i plan run = g (ep_targets plan ! fst run)"
    and order: "mset (order (ep_targets plan)) = mset (ep_targets plan)"
  shows "finish_invocation i t (fo_results f) gone s = finish_invocation i t (map g (order (ep_targets plan))) gone s"
proof -
  note m = fan_over_runs [OF inv over]
  let ?ts = "ep_targets plan"
  have nodes: "mset (map fst runs) = mset [0..<length ?ts]"
    using m(1) fan_invD(3) [OF inv] by (intro set_eq_iff_mset_eq_distinct [THEN iffD1]) (auto simp: lessThan_atLeast0)
  have "mset (fo_results f) = mset (map (\<lambda>run. g (?ts ! fst run)) runs)"
    using m(2) same by (metis (no_types, lifting) map_cong)
  also have "\<dots> = image_mset (\<lambda>k. g (?ts ! k)) (mset (map fst runs))" by (simp add: multiset.map_comp o_def)
  also have "\<dots> = image_mset g (mset (map (\<lambda>k. ?ts ! k) [0..<length ?ts]))"
    unfolding nodes by (simp add: multiset.map_comp o_def)
  also have "\<dots> = mset (map g (order ?ts))" unfolding map_nth using order by simp
  finally have eq: "mset (fo_results f) = mset (map g (order ?ts))" .
  have "sort_results (fo_results f) = sort_results (map g (order ?ts))"
    unfolding sort_results_def
    by (rule sort_key_order_irrelevant [OF eq])
      (use fan_over_reported [OF inv over dist] in \<open>simp add: targets_reported_def\<close>)
  then show ?thesis by (simp add: finish_invocation_def)
qed

subsection \<open>A fan ends\<close>

primrec phase_work :: "target_phase \<Rightarrow> nat" where
  "phase_work TpRunning = 3"
| "phase_work (TpRan r) = 2"
| "phase_work (TpAppended r) = 1"
| "phase_work (TpDone r) = 0"

definition fan_work :: "fan_out \<Rightarrow> nat" where
  "fan_work f = 4 * length (fo_left f) + sum_list (map (\<lambda>t. phase_work (snd t)) (fo_tasks f))"

lemma fan_work_task:
  assumes "task_at k f = Some (node, p)" and "phase_work p = Suc (phase_work p')"
  shows "fan_work f = Suc (fan_work (set_task k node p' f))"
proof -
  from assms(1) have l: "k < length (fo_tasks f)" and t: "fo_tasks f ! k = (node, p)"
    by (auto simp: task_at_def split: if_splits)
  let ?ws = "map (\<lambda>t. phase_work (snd t)) (fo_tasks f)"
  have "phase_work p \<le> sum_list ?ws" using elem_le_sum_list [of k ?ws] l t by simp
  then show ?thesis
    using sum_list_update [of k ?ws "phase_work p'"] l t assms(2) by (simp add: fan_work_def set_task_def map_update)
qed

lemma fan_work_other [simp]:
  "fan_work (f\<lparr>fo_wg := n\<rparr>) = fan_work f" "fan_work (f\<lparr>fo_results := rs\<rparr>) = fan_work f"
  "task_at k (f\<lparr>fo_wg := n\<rparr>) = task_at k f" "task_at k (f\<lparr>fo_results := rs\<rparr>) = task_at k f"
  by (simp_all add: fan_work_def task_at_def)

lemma fan_step_work: "fan_step i plan e f = Some f' \<Longrightarrow> fan_work f = Suc (fan_work f')"
proof (induction i plan e f rule: fan_step.induct)
  case (1 i plan f)
  then show ?case by (auto simp: fan_work_def split: list.splits)
next
  case (2 i plan k env t0 t1 f)
  then show ?case by (auto split: option.splits prod.splits target_phase.splits intro!: fan_work_task)
next
  case (3 i plan k f)
  then obtain node r where "task_at k f = Some (node, TpRan r)"
    and "f' = set_task k node (TpAppended r) (f\<lparr>fo_results := fo_results f @ [r]\<rparr>)"
    by (auto split: option.splits prod.splits target_phase.splits)
  with fan_work_task [of k "f\<lparr>fo_results := fo_results f @ [r]\<rparr>" node "TpRan r" "TpAppended r"] show ?case by simp
next
  case (4 i plan k f)
  then obtain node r where "task_at k f = Some (node, TpAppended r)"
    and "f' = set_task k node (TpDone r) (f\<lparr>fo_wg := fo_wg f - 1\<rparr>)"
    by (auto split: option.splits prod.splits target_phase.splits)
  with fan_work_task [of k "f\<lparr>fo_wg := fo_wg f - 1\<rparr>" node "TpAppended r" "TpDone r"] show ?case by simp
qed

text \<open>The goroutines find what \<open>answers\<close> says.\<close>

definition answered :: "(nat \<Rightarrow> exec_env \<times> int \<times> int) \<Rightarrow> fan_event \<Rightarrow> bool" where
  "answered answers e = (case e of FoRun k env t0 t1 \<Rightarrow> answers k = (env, t0, t1) | _ \<Rightarrow> True)"

lemma fan_enabled:
  assumes inv: "fan_inv i plan runs f" and "\<not> fan_over f"
  shows "\<exists>e f'. answered answers e \<and> fan_step i plan e f = Some f'"
proof (cases "fo_left f")
  case (Cons node rest)
  have "answered answers FoSpawn" by (simp add: answered_def)
  moreover from Cons have "fan_step i plan FoSpawn f \<noteq> None" by simp
  ultimately show ?thesis by blast
next
  case Nil
  with assms(2) fan_invD(2) [OF inv] have "filter (\<lambda>t. counted (snd t)) (fo_tasks f) \<noteq> []"
    by (auto simp: fan_over_def)
  then obtain t where "t \<in> set (fo_tasks f)" "counted (snd t)" by (auto simp: filter_empty_conv)
  then obtain k where k: "k < length (fo_tasks f)" "counted (task_phase f k)" by (metis in_set_conv_nth)
  obtain node p where t: "fo_tasks f ! k = (node, p)" by fastforce
  obtain env t0 t1 where a: "answers k = (env, t0, t1)" by (cases "answers k")
  have at: "task_at k f = Some (node, p)" using k(1) t by (simp add: task_at_def)
  show ?thesis
  proof (cases p)
    case TpRunning
    with at have "fan_step i plan (FoRun k env t0 t1) f \<noteq> None" by simp
    moreover have "answered answers (FoRun k env t0 t1)" using a by (simp add: answered_def)
    ultimately show ?thesis by blast
  next
    case (TpRan r)
    with at have "fan_step i plan (FoAppend k) f \<noteq> None" by simp
    moreover have "answered answers (FoAppend k)" by (simp add: answered_def)
    ultimately show ?thesis by blast
  next
    case (TpAppended r)
    with at have "fan_step i plan (FoDone k) f \<noteq> None" by simp
    moreover have "answered answers (FoDone k)" by (simp add: answered_def)
    ultimately show ?thesis by blast
  next
    case (TpDone r)
    with k(2) t show ?thesis by simp
  qed
qed

lemma fan_completes:
  assumes "fan_inv i plan runs f"
  shows "\<exists>es runs' f'. run_steps (fan_step i plan) es f = Some f' \<and> fan_inv i plan runs' f' \<and> fan_over f' \<and>
    length es \<le> fan_work f \<and> list_all (answered answers) es"
  using assms
proof (induction "fan_work f" arbitrary: runs f rule: less_induct)
  case less
  show ?case
  proof (cases "fan_over f")
    case True
    with less.prems show ?thesis by (intro exI [where x = "[]"] exI [where x = runs] exI [where x = f]) simp
  next
    case False
    from fan_enabled [OF less.prems False] obtain e f1 where e: "answered answers e" "fan_step i plan e f = Some f1" by blast
    note w = fan_step_work [OF e(2)]
    from less.hyps [OF _ fan_inv_step [OF less.prems e(2)]] w obtain es runs' f' where
      "run_steps (fan_step i plan) es f1 = Some f'" "fan_inv i plan runs' f'" "fan_over f'" "length es \<le> fan_work f1" "list_all (answered answers) es"
      by auto
    with e w show ?thesis by (intro exI [where x = "e # es"] exI [where x = runs'] exI [where x = f']) simp
  qed
qed

lemma fan_work_bound:
  assumes "fan_inv i plan runs f"
  shows "fan_work f \<le> 4 * length (ep_targets plan)"
proof -
  have "phase_work p \<le> 3" for p by (cases p) simp_all
  then have "sum_list (map (\<lambda>t. phase_work (snd t)) ts) \<le> 3 * length ts" for ts :: "(string \<times> target_phase) list"
    by (induction ts) (simp_all add: add_mono)
  from this [of "fo_tasks f"] have "fan_work f \<le> 4 * (length (fo_tasks f) + length (fo_left f))" by (simp add: fan_work_def)
  also have "length (fo_tasks f) + length (fo_left f) = length (ep_targets plan)"
    using arg_cong [OF fan_invD(1) [OF assms], of length] by simp
  finally show ?thesis .
qed

section \<open>The fans of all invocations\<close>

record exec_state =
  ex_admin :: admin_state
  ex_fans :: "(string, fan_out) gomap"

text \<open>\<open>XeFinish i rs\<close>: \<open>wg.Wait\<close> has returned in the invocation \<open>i\<close> and \<open>rs\<close> is its slice.\<close>

datatype exec_event =
    XeOther admin_event
  | XeBegin string
  | XeFan string fan_event
  | XeFinish string "invocation_result list"

definition other_event :: "admin_event \<Rightarrow> bool" where
  "other_event e = (case e of AeBegin _ \<Rightarrow> False | AeFinish _ _ \<Rightarrow> False | _ \<Rightarrow> True)"

fun exec_step :: "exec_event \<Rightarrow> exec_state \<Rightarrow> exec_state option" where
  "exec_step (XeOther e) x =
     (if other_event e then map_option (\<lambda>a. x\<lparr>ex_admin := a\<rparr>) (admin_step e (ex_admin x)) else None)"
| "exec_step (XeBegin i) x =
     (case map_of (ad_runs (ex_admin x)) i of
        None \<Rightarrow> None
      | Some r \<Rightarrow> map_option (\<lambda>a. \<lparr>ex_admin = a, ex_fans = gupd i (fan_init (ru_plan r)) (ex_fans x)\<rparr>)
                   (admin_step (AeBegin i) (ex_admin x)))"
| "exec_step (XeFan i e) x =
     (case map_of (ad_runs (ex_admin x)) i of
        None \<Rightarrow> None
      | Some r \<Rightarrow> (case map_of (ex_fans x) i of
          None \<Rightarrow> None
        | Some f \<Rightarrow> map_option (\<lambda>f'. x\<lparr>ex_fans := gupd i f' (ex_fans x)\<rparr>) (fan_step i (ru_plan r) e f)))"
| "exec_step (XeFinish i rs) x =
     (case map_of (ex_fans x) i of
        None \<Rightarrow> None
      | Some f \<Rightarrow>
          if fan_over f \<and> rs = fo_results f
          then map_option (\<lambda>a. \<lparr>ex_admin = a, ex_fans = gdel i (ex_fans x)\<rparr>) (admin_step (AeFinish i rs) (ex_admin x))
          else None)"

definition exec_init :: "world \<Rightarrow> exec_state" where
  "exec_init w = \<lparr>ex_admin = admin_init w, ex_fans = []\<rparr>"

text \<open>What the service sees of it.\<close>

definition admin_events :: "exec_event \<Rightarrow> admin_event list" where
  "admin_events e = (case e of XeOther a \<Rightarrow> [a] | XeBegin i \<Rightarrow> [AeBegin i] | XeFan i f \<Rightarrow> [] | XeFinish i rs \<Rightarrow> [AeFinish i rs])"

definition seen :: "exec_event list \<Rightarrow> admin_event list" where
  "seen es = concat (map admin_events es)"

definition target_runs :: "string \<Rightarrow> exec_event list \<Rightarrow> target_run list" where
  "target_runs i es = concat (map (\<lambda>e. case e of XeFan j f \<Rightarrow> (if j = i then fan_run f else []) | _ \<Rightarrow> []) es)"

lemma seen_simps [simp]: "seen [] = []" "seen (es @ [e]) = seen es @ admin_events e"
  by (simp_all add: seen_def)

lemma target_runs_simps [simp]:
  "target_runs i [] = []"
  "target_runs i (es @ [XeFan j f]) = target_runs i es @ (if j = i then fan_run f else [])"
  "target_runs i (es @ [XeOther a]) = target_runs i es"
  "target_runs i (es @ [XeBegin j]) = target_runs i es"
  "target_runs i (es @ [XeFinish j rs]) = target_runs i es"
  by (simp_all add: target_runs_def)

lemma length_seen: "length (seen es) \<le> length es"
  by (induction es rule: rev_induct) (auto simp: admin_events_def split: exec_event.split)

lemma admin_run_snoc:
  "admin_run es a0 = Some a \<Longrightarrow> admin_step e a = Some a' \<Longrightarrow> admin_run (es @ [e]) a0 = Some a'"
  by (simp add: run_steps_append)

lemma exec_step_seen:
  assumes "admin_run (seen es) a0 = Some (ex_admin x)" and "exec_step e x = Some x'"
  shows "admin_run (seen (es @ [e])) a0 = Some (ex_admin x')"
  using assms
  by (cases e) (auto simp: admin_events_def run_steps_append split: if_splits option.splits)


subsection \<open>Plans and fans of the runs\<close>

lemma open_invocation_distinct:
  assumes "open_invocation meta req s = (Inr (iv, plan), s')"
  shows "distinct (ep_targets plan)"
proof -
  obtain m s0 where "prepare_plan m req s0 = Inr plan"
    using assms by (auto simp: open_invocation_def Let_def case_prod_unfold split: sum.splits)
  then show ?thesis
    by (auto simp: prepare_plan_def Let_def split: if_splits option.splits sum.splits check.splits)
qed

definition run_fan :: "string \<Rightarrow> invocation_run \<Rightarrow> fan_out option \<Rightarrow> target_run list \<Rightarrow> bool" where
  "run_fan i r fan runs \<longleftrightarrow> distinct (ep_targets (ru_plan r)) \<and>
     (case ru_started r of
        None \<Rightarrow> fan = None \<and> runs = []
      | Some _ \<Rightarrow> \<exists>f. fan = Some f \<and> fan_inv i (ru_plan r) runs f)"

lemma run_fan_begin: "run_fan i r fan runs \<Longrightarrow> ru_started r = None \<Longrightarrow>
    run_fan i (r\<lparr>ru_started := Some t\<rparr>) (Some (fan_init (ru_plan r))) runs"
  by (simp add: run_fan_def fan_inv_init)

definition fans_ok :: "exec_event list \<Rightarrow> exec_state \<Rightarrow> bool" where
  "fans_ok es x \<longleftrightarrow>
     (\<forall>i r. map_of (ad_runs (ex_admin x)) i = Some r \<longrightarrow> run_fan i r (map_of (ex_fans x) i) (target_runs i es)) \<and>
     (\<forall>i. map_of (ad_runs (ex_admin x)) i = None \<longrightarrow> map_of (ex_fans x) i = None) \<and>
     (\<forall>i. map_of (sv_invocations (ad_svc (ex_admin x))) i = None \<longrightarrow> target_runs i es = [])"

lemma fans_okD:
  assumes "fans_ok es x"
  shows "map_of (ad_runs (ex_admin x)) i = Some r \<Longrightarrow> run_fan i r (map_of (ex_fans x) i) (target_runs i es)"
    and "map_of (ad_runs (ex_admin x)) i = None \<Longrightarrow> map_of (ex_fans x) i = None"
    and "map_of (sv_invocations (ad_svc (ex_admin x))) i = None \<Longrightarrow> target_runs i es = []"
  using assms unfolding fans_ok_def by blast+

text \<open>A step that leaves runs, fans and the record of what was run alone.\<close>

lemma fans_ok_same:
  assumes "fans_ok es x" and "ex_fans x' = ex_fans x" and "ad_runs (ex_admin x') = ad_runs (ex_admin x)"
    and "\<And>i. target_runs i es' = target_runs i es"
    and "\<And>i. map_of (sv_invocations (ad_svc (ex_admin x'))) i = None \<Longrightarrow> map_of (sv_invocations (ad_svc (ex_admin x))) i = None"
  shows "fans_ok es' x'"
  using assms unfolding fans_ok_def by simp

lemma fans_ok_other:
  assumes inv: "admin_inv n (ex_admin x)" and n: "n + 3 < 2 ^ 64" and ok: "fans_ok es x"
    and e: "other_event e" and st: "admin_step e (ex_admin x) = Some a"
  shows "fans_ok (es @ [XeOther e]) (x\<lparr>ex_admin := a\<rparr>)"
proof (cases e)
  case (AeCreate meta req)
  obtain o1 s where o: "open_invocation meta req (ad_svc (ex_admin x)) = (o1, s)" by fastforce
  have keep: "map_of (sv_invocations s) i = None \<Longrightarrow> map_of (sv_invocations (ad_svc (ex_admin x))) i = None" for i
    using final_create [OF inv n _ o, of i] by (cases "map_of (sv_invocations (ad_svc (ex_admin x))) i") auto
  show ?thesis
  proof (cases o1)
    case (Inl err)
    with st AeCreate o have "a = (ex_admin x)\<lparr>ad_svc := s\<rparr>" by simp
    with keep show ?thesis by (intro fans_ok_same [OF ok]) simp_all
  next
    case (Inr ip)
    obtain iv plan where ip: "ip = (iv, plan)" by (cases ip)
    let ?i = "inv_id iv"
    from st AeCreate o Inr ip have a: "a = (ex_admin x)\<lparr>ad_svc := s, ad_runs := gupd ?i \<lparr>ru_plan = plan, ru_started = None\<rparr> (ad_runs (ex_admin x))\<rparr>"
      by simp
    have "?i \<notin> used_ids (ad_svc (ex_admin x))"
      using open_invocation_writes [OF o [unfolded Inr ip] admin_invD(2) [OF inv] n] by blast
    then have new: "map_of (sv_invocations (ad_svc (ex_admin x))) ?i = None"
      by (auto simp: used_ids_def map_of_eq_None_iff)
    then have "map_of (ad_runs (ex_admin x)) ?i = None" using admin_invD(4) [OF inv, of ?i] by fastforce
    with fans_okD(2) [OF ok] have "map_of (ex_fans x) ?i = None" by blast
    moreover have "target_runs ?i es = []" using fans_okD(3) [OF ok new] .
    ultimately have "run_fan ?i \<lparr>ru_plan = plan, ru_started = None\<rparr> (map_of (ex_fans x) ?i) (target_runs ?i es)"
      using open_invocation_distinct [OF o [unfolded Inr ip]] by (simp add: run_fan_def)
    then show ?thesis using ok keep unfolding fans_ok_def by (auto simp: a)
  qed
next
  case (AeCancel j)
  obtain cs where "snd (cancel_invocation j (ad_svc (ex_admin x))) = (ad_svc (ex_admin x))\<lparr>sv_canceled := cs\<rparr>"
    using cancel_invocation_writes by blast
  with st AeCancel show ?thesis by (intro fans_ok_same [OF ok]) auto
next
  case (AeClientGone j)
  with st show ?thesis by (intro fans_ok_same [OF ok]) (auto split: option.splits if_splits)
next
  case (AeTemplate opn)
  have "svc_keeps (ad_svc (ex_admin x)) (run_template_ops [opn] (ad_svc (ex_admin x)))"
    using templates_inv_create [OF admin_invD(1,2) [OF inv] n] templates_inv_update [OF admin_invD(1,2) [OF inv] n]
    by (cases opn) simp_all
  with st AeTemplate show ?thesis
    by (intro fans_ok_same [OF ok]) (auto simp: svc_keeps_def simp del: run_template_ops.simps)
qed (use e in \<open>simp_all add: other_event_def\<close>)

lemma fans_ok_begin:
  assumes ok: "fans_ok es x" and st: "exec_step (XeBegin i) x = Some x'"
  shows "fans_ok (es @ [XeBegin i]) x'"
proof -
  from st obtain r where r: "map_of (ad_runs (ex_admin x)) i = Some r" "ru_started r = None"
    by (auto split: option.splits)
  let ?t = "fst (sv_now (ad_svc (ex_admin x)))"
  have runs: "ad_runs (ex_admin x') = gupd i (r\<lparr>ru_started := Some ?t\<rparr>) (ad_runs (ex_admin x))"
    and fans: "ex_fans x' = gupd i (fan_init (ru_plan r)) (ex_fans x)"
    using st r by (auto simp: begin_invocation_def Let_def case_prod_unfold)
  have "map_of (sv_invocations (ad_svc (ex_admin x'))) j = None \<longleftrightarrow> map_of (sv_invocations (ad_svc (ex_admin x))) j = None" for j
    using st r by (auto simp: begin_invocation_def Let_def case_prod_unfold map_of_update_invocation split: if_splits)
  moreover have "run_fan i (r\<lparr>ru_started := Some ?t\<rparr>) (Some (fan_init (ru_plan r))) (target_runs i es)"
    using run_fan_begin [OF fans_okD(1) [OF ok r(1)] r(2)] .
  ultimately show ?thesis
    using ok unfolding fans_ok_def runs fans by auto
qed

lemma fans_ok_fan:
  assumes ok: "fans_ok es x" and st: "exec_step (XeFan i e) x = Some x'"
    and known: "\<And>r. map_of (ad_runs (ex_admin x)) i = Some r \<Longrightarrow> map_of (sv_invocations (ad_svc (ex_admin x))) i \<noteq> None"
  shows "fans_ok (es @ [XeFan i e]) x'"
proof -
  from st obtain r f f' where r: "map_of (ad_runs (ex_admin x)) i = Some r" and f: "map_of (ex_fans x) i = Some f"
    and step: "fan_step i (ru_plan r) e f = Some f'" and x': "x' = x\<lparr>ex_fans := gupd i f' (ex_fans x)\<rparr>"
    by (auto split: option.splits)
  have d: "run_fan i r (Some f) (target_runs i es)" using fans_okD(1) [OF ok r] f by simp
  then have "fan_inv i (ru_plan r) (target_runs i es) f" by (auto simp: run_fan_def split: option.splits)
  from fan_inv_step [OF this step] d have "run_fan i r (Some f') (target_runs i es @ fan_run e)"
    by (auto simp: run_fan_def split: option.splits)
  then show ?thesis
    using ok r known [OF r] unfolding fans_ok_def by (auto simp: x')
qed

lemma fans_ok_finish:
  assumes ok: "fans_ok es x" and st: "exec_step (XeFinish i rs) x = Some x'"
  shows "fans_ok (es @ [XeFinish i rs]) x'"
proof -
  from st obtain a where a: "admin_step (AeFinish i rs) (ex_admin x) = Some a"
    and x': "x' = \<lparr>ex_admin = a, ex_fans = gdel i (ex_fans x)\<rparr>"
    by (auto split: option.splits if_splits simp del: admin_step.simps)
  from a have runs: "ad_runs a = gdel i (ad_runs (ex_admin x))"
    by (auto simp: finish_invocation_def Let_def case_prod_unfold split: option.splits if_splits)
  have "map_of (sv_invocations (ad_svc a)) j = None \<longleftrightarrow> map_of (sv_invocations (ad_svc (ex_admin x))) j = None" for j
    using a by (auto simp: finish_invocation_def Let_def case_prod_unfold map_of_update_invocation split: option.splits if_splits)
  then show ?thesis
    using ok unfolding fans_ok_def by (auto simp: x' runs split: option.splits)
qed

lemma fans_ok_step:
  assumes inv: "admin_inv n (ex_admin x)" and n: "n + 3 < 2 ^ 64" and ok: "fans_ok es x" and st: "exec_step e x = Some x'"
  shows "fans_ok (es @ [e]) x'"
proof (cases e)
  case (XeOther a)
  with st fans_ok_other [OF inv n ok] show ?thesis by (auto split: if_splits simp del: admin_step.simps)
next
  case (XeBegin i)
  with st fans_ok_begin [OF ok] show ?thesis by blast
next
  case (XeFan i f)
  with st fans_ok_fan [OF ok] admin_invD(4) [OF inv] show ?thesis by blast
next
  case (XeFinish i rs)
  with st fans_ok_finish [OF ok] show ?thesis by blast
qed

text \<open>As with the service alone, what concerns ids holds until the 64-bit counter could wrap.\<close>

interpretation exec_sys: step_system exec_step "exec_init w"
  "\<lambda>es x. admin_run (seen es) (admin_init w) = Some (ex_admin x) \<and>
     (w_counter w = 0 \<and> 3 * length es + 3 < 2 ^ 64 \<longrightarrow> fans_ok es x)" for w
proof
  show "admin_run (seen []) (admin_init w) = Some (ex_admin (exec_init w)) \<and>
     (w_counter w = 0 \<and> 3 * length [] + 3 < 2 ^ 64 \<longrightarrow> fans_ok [] (exec_init w))"
    by (simp add: exec_init_def admin_init_def fans_ok_def new_service_def)
next
  fix es :: "exec_event list" and x e x'
  assume IH: "admin_run (seen es) (admin_init w) = Some (ex_admin x) \<and>
     (w_counter w = 0 \<and> 3 * length es + 3 < 2 ^ 64 \<longrightarrow> fans_ok es x)" and st: "exec_step e x = Some x'"
  then have run: "admin_run (seen es) (admin_init w) = Some (ex_admin x)" by blast
  from exec_step_seen [OF this st] show "admin_run (seen (es @ [e])) (admin_init w) = Some (ex_admin x') \<and>
     (w_counter w = 0 \<and> 3 * length (es @ [e]) + 3 < 2 ^ 64 \<longrightarrow> fans_ok (es @ [e]) x')"
  proof (intro conjI impI)
    assume b: "w_counter w = 0 \<and> 3 * length (es @ [e]) + 3 < 2 ^ 64"
    with length_seen [of es] have "3 * length (seen es) + 3 < 2 ^ 64" by simp
    with admin_run_inv [OF run] b obtain n where "n \<le> 3 * length (seen es)" "admin_inv n (ex_admin x)" by blast
    moreover from this b length_seen [of es] have "n + 3 < 2 ^ 64" by simp
    moreover from IH b have "fans_ok es x" by simp
    ultimately show "fans_ok (es @ [e]) x'" using fans_ok_step st by blast
  qed
qed


section \<open>Properties\<close>

lemma reachable_fans:
  assumes "w_counter w = 0" and "length es \<le> 2 ^ 60" and "run_steps exec_step es (exec_init w) = Some x"
  shows "admin_run (seen es) (admin_init w) = Some (ex_admin x)" and "fans_ok es x" and "\<exists>n. n + 3 < 2 ^ 64 \<and> admin_inv n (ex_admin x)"
proof -
  from exec_sys.inv_run [OF assms(3)] assms(1,2)
  show run: "admin_run (seen es) (admin_init w) = Some (ex_admin x)" and "fans_ok es x" by simp_all
  from assms(2) length_seen [of es] have l: "3 * length (seen es) + 3 < 2 ^ 64" by simp
  from admin_run_inv [OF run assms(1) this] obtain n where "n \<le> 3 * length (seen es)" "admin_inv n (ex_admin x)" by blast
  with l show "\<exists>n. n + 3 < 2 ^ 64 \<and> admin_inv n (ex_admin x)" by (intro exI [where x = n]) simp
qed

lemma started_fan:
  assumes "fans_ok es x" and "map_of (ad_runs (ex_admin x)) i = Some r" and "map_of (ex_fans x) i = Some f"
  shows "fan_inv i (ru_plan r) (target_runs i es) f" and "ru_started r \<noteq> None" and "distinct (ep_targets (ru_plan r))"
  using fans_okD(1) [OF assms(1,2)] assms(3) by (auto simp: run_fan_def split: option.splits)

lemma finish_results:
  assumes "admin_step (AeFinish i rs) a = Some a'"
  shows "get_invocation_results i (ad_svc a') = Inr (sort_results rs)"
proof -
  have clones: "map clone_result xs = xs" for xs by (simp add: map_idI)
  from assms show ?thesis
    by (auto simp: get_invocation_results_def finish_invocation_def Let_def case_prod_unfold clones split: option.splits if_splits)
qed

definition both_request :: create_invocation_request where
  "both_request = (info_request True)\<lparr>cir_targets := [''n2'', ''n1'']\<rparr>"

definition both_plan :: execution_plan where
  "both_plan = info_plan\<lparr>ep_targets := [''n2'', ''n1'']\<rparr>"

lemma both_plan_accepted: "prepare_plan meta both_request s = Inr both_plan"
proof -
  have "trim_space ''n2'' = ''n2''" by (rule trim_space_visible) (simp_all add: visible_char_def)
  moreover have "normalize_action ''sys.info'' = ''sys.info''"
    by (simp add: normalize_action_def trim_visible_words replace_char_def)
  ultimately show ?thesis
    by (simp add: prepare_plan_def both_request_def info_request_def trim_visible_words Let_def action_defs to_map_def
        builtin_spec_for_def allow_risk_def normalize_timeout_def dedupe_def info_plan_def both_plan_def)
qed

text \<open>A run with both goroutines interleaved; the second one is first to end.\<close>

definition both_runs :: "string \<Rightarrow> exec_event list" where
  "both_runs i = XeOther (AeCreate client_meta both_request) # XeBegin i #
     map (XeFan i) [FoSpawn, FoSpawn, FoRun 1 toy_env 0 1, FoRun 0 toy_env 0 2, FoAppend 1, FoDone 1, FoAppend 0, FoDone 0]"

lemma both_created:
  "\<exists>i x iv. exec_step (XeOther (AeCreate client_meta both_request)) (exec_init toy_world) = Some x \<and> ex_fans x = [] \<and>
     ad_runs (ex_admin x) = [(i, \<lparr>ru_plan = both_plan, ru_started = None\<rparr>)] \<and> map_of (sv_invocations (ad_svc (ex_admin x))) i = Some iv"
proof -
  obtain iv s where o: "open_invocation client_meta both_request (new_service toy_world) = (Inr (iv, both_plan), s)"
    by (simp add: open_invocation_def Let_def case_prod_unfold both_plan_accepted)
  have "ids_issued 0 (new_service toy_world)" by (simp add: ids_issued_def used_ids_def new_service_def toy_world_def)
  from open_invocation_writes [OF o this] have "map_of (sv_invocations s) (inv_id iv) = Some iv" by auto
  then show ?thesis
    using o by (intro exI conjI) (auto simp: exec_init_def admin_init_def other_event_def)
qed

lemma both_reached:
  "\<exists>i x f. run_steps exec_step (both_runs i) (exec_init toy_world) = Some x \<and> length (both_runs i) \<le> 2 ^ 60 \<and>
     map_option ru_plan (map_of (ad_runs (ex_admin x)) i) = Some both_plan \<and>
     map_option (\<lambda>r. ru_started r \<noteq> None) (map_of (ad_runs (ex_admin x)) i) = Some True \<and>
     map_of (ex_fans x) i = Some f \<and> fan_over f \<and> targets_reported both_plan (fo_results f)"
proof -
  from both_created obtain i x iv where x: "exec_step (XeOther (AeCreate client_meta both_request)) (exec_init toy_world) = Some x"
    "ex_fans x = []" "ad_runs (ex_admin x) = [(i, \<lparr>ru_plan = both_plan, ru_started = None\<rparr>)]" by blast
  have "\<exists>x' f. run_steps exec_step (tl (both_runs i)) x = Some x' \<and>
     map_option ru_plan (map_of (ad_runs (ex_admin x')) i) = Some both_plan \<and>
     map_option (\<lambda>r. ru_started r \<noteq> None) (map_of (ad_runs (ex_admin x')) i) = Some True \<and>
     map_of (ex_fans x') i = Some f \<and> fan_over f \<and> targets_reported both_plan (fo_results f)"
    using x(2,3) by (simp add: both_runs_def begin_invocation_def Let_def case_prod_unfold fan_init_def both_plan_def task_at_def
        set_task_def fan_over_def targets_reported_def insert_commute)
  with x(1) show ?thesis by (intro exI [where x = i]) (auto simp: both_runs_def simp del: exec_step.simps)
qed

text \<open>C9: However the goroutines of all invocations interleave with each other, with new invocations,
  cancellations and changes of templates: the service goes through states of \<open>admin_step\<close>; every target
  of a running invocation is executed at most once, and no node that is not a target; and when the
  invocation finishes each has been executed, and the stored results are exactly what these executions
  made, sorted by node: none is lost, none comes twice, and the order in which they ended does not matter.\<close>

theorem targets_run_once:
  assumes "w_counter w = 0" and "length es \<le> 2 ^ 60" and "run_steps exec_step es (exec_init w) = Some x"
    and "map_of (ad_runs (ex_admin x)) i = Some r"
  shows "admin_run (seen es) (admin_init w) = Some (ex_admin x) \<and>
    distinct (map fst (target_runs i es)) \<and> fst ` set (target_runs i es) \<subseteq> {..<length (ep_targets (ru_plan r))} \<and>
    (\<forall>rs x'. exec_step (XeFinish i rs) x = Some x' \<longrightarrow>
       fst ` set (target_runs i es) = {..<length (ep_targets (ru_plan r))} \<and>
       get_invocation_results i (ad_svc (ex_admin x')) =
         Inr (sort_results (map (outcome_of i (ru_plan r)) (sort_key fst (target_runs i es)))))"
proof -
  note reach = reachable_fans [OF assms(1-3)]
  let ?runs = "target_runs i es"
  have once: "distinct (map fst ?runs) \<and> fst ` set ?runs \<subseteq> {..<length (ep_targets (ru_plan r))}"
  proof (cases "map_of (ex_fans x) i")
    case None
    with fans_okD(1) [OF reach(2) assms(4)] show ?thesis by (auto simp: run_fan_def split: option.splits)
  next
    case (Some f)
    note d = fan_invD [OF started_fan(1) [OF reach(2) assms(4) Some]]
    have "length (fo_tasks f) \<le> length (ep_targets (ru_plan r))" using arg_cong [OF d(1), of length] by simp
    with d(3,4) show ?thesis by (meson lessThan_subset_iff order_trans)
  qed
  have "fst ` set ?runs = {..<length (ep_targets (ru_plan r))} \<and>
      get_invocation_results i (ad_svc (ex_admin x')) = Inr (sort_results (map (outcome_of i (ru_plan r)) (sort_key fst ?runs)))"
    if st: "exec_step (XeFinish i rs) x = Some x'" for rs x'
  proof -
    from st obtain f where f: "map_of (ex_fans x) i = Some f" and over: "fan_over f" "rs = fo_results f"
      and fin: "admin_step (AeFinish i rs) (ex_admin x) = Some (ex_admin x')"
      by (auto split: option.splits if_splits simp del: admin_step.simps)
    note fan = started_fan [OF reach(2) assms(4) f]
    note m = fan_over_runs [OF fan(1) over(1)]
    have "sort_results rs = sort_results (map (outcome_of i (ru_plan r)) (sort_key fst ?runs))"
      unfolding sort_results_def
    proof (rule sort_key_order_irrelevant)
      show "mset rs = mset (map (outcome_of i (ru_plan r)) (sort_key fst ?runs))" using m(2) over(2) by simp
      show "distinct (map res_node_id rs)"
        using fan_over_reported [OF fan(1) over(1) fan(3)] over(2) by (simp add: targets_reported_def)
    qed
    with m(1) finish_results [OF fin] show ?thesis by simp
  qed
  with reach(1) once show ?thesis by blast
qed

lemma targets_run_once_witness:
  "\<exists>i x r rs x'. run_steps exec_step (both_runs i) (exec_init toy_world) = Some x \<and>
     map_of (ad_runs (ex_admin x)) i = Some r \<and> exec_step (XeFinish i rs) x = Some x' \<and>
     fst ` set (target_runs i (both_runs i)) = {..<length (ep_targets (ru_plan r))} \<and>
     get_invocation_results i (ad_svc (ex_admin x')) =
       Inr (sort_results (map (outcome_of i (ru_plan r)) (sort_key fst (target_runs i (both_runs i)))))"
proof -
  from both_reached obtain i x f where x: "run_steps exec_step (both_runs i) (exec_init toy_world) = Some x"
    "length (both_runs i) \<le> 2 ^ 60" "map_option ru_plan (map_of (ad_runs (ex_admin x)) i) = Some both_plan"
    "map_option (\<lambda>r. ru_started r \<noteq> None) (map_of (ad_runs (ex_admin x)) i) = Some True"
    and f: "map_of (ex_fans x) i = Some f" "fan_over f" "targets_reported both_plan (fo_results f)" by blast
  from x(3,4) obtain r t where r: "map_of (ad_runs (ex_admin x)) i = Some r" "ru_plan r = both_plan" "ru_started r = Some t" by auto
  with f obtain x' where st: "exec_step (XeFinish i (fo_results f)) x = Some x'" by simp
  have "w_counter toy_world = 0" by (simp add: toy_world_def)
  note once = targets_run_once [OF this x(2,1) r(1), THEN conjunct2, THEN conjunct2, THEN conjunct2, rule_format, OF st]
  show ?thesis by (intro exI conjI, rule x(1), rule r(1), rule st, rule once [THEN conjunct1], rule once [THEN conjunct2])
qed

lemma exec_fan_run:
  assumes "run_steps (fan_step i (ru_plan r)) es f = Some f'" and "map_of (ad_runs (ex_admin x)) i = Some r"
    and "map_of (ex_fans x) i = Some f"
  shows "\<exists>x'. run_steps exec_step (map (XeFan i) es) x = Some x' \<and> ex_admin x' = ex_admin x \<and> map_of (ex_fans x') i = Some f'"
  using assms
proof (induction es arbitrary: f x)
  case (Cons e es)
  then obtain f1 where f1: "fan_step i (ru_plan r) e f = Some f1" "run_steps (fan_step i (ru_plan r)) es f1 = Some f'"
    by (auto split: option.splits)
  let ?x = "x\<lparr>ex_fans := gupd i f1 (ex_fans x)\<rparr>"
  have "exec_step (XeFan i e) x = Some ?x" using Cons.prems f1 by simp
  with Cons.IH [OF f1(2), of ?x] Cons.prems show ?case by auto
qed simp

definition own_event :: "string \<Rightarrow> (nat \<Rightarrow> exec_env \<times> int \<times> int) \<Rightarrow> exec_event \<Rightarrow> bool" where
  "own_event i answers e = (case e of XeOther _ \<Rightarrow> False | XeBegin j \<Rightarrow> j = i
     | XeFan j f \<Rightarrow> j = i \<and> answered answers f | XeFinish j _ \<Rightarrow> j = i)"

lemma finish_terminal:
  assumes "admin_step (AeFinish i rs) a = Some a'" and "map_of (sv_invocations (ad_svc a)) i \<noteq> None"
  shows "\<exists>iv. get_invocation i (ad_svc a') = Inr iv \<and> terminal (inv_status iv)"
  using assms summarize_terminal
  by (auto simp: get_invocation_def finish_invocation_def Let_def case_prod_unfold map_of_update_invocation
      split: option.splits if_splits)

lemma started_finishes:
  assumes ok: "fan_inv i (ru_plan r) runs f" "distinct (ep_targets (ru_plan r))" "ru_started r = Some t"
    and x: "map_of (ad_runs (ex_admin x)) i = Some r" "map_of (ex_fans x) i = Some f"
      "map_of (sv_invocations (ad_svc (ex_admin x))) i \<noteq> None"
  shows "\<exists>es' x' iv. list_all (own_event i answers) es' \<and> length es' \<le> 4 * length (ep_targets (ru_plan r)) + 1 \<and>
    run_steps exec_step es' x = Some x' \<and> get_invocation i (ad_svc (ex_admin x')) = Inr iv \<and> terminal (inv_status iv)"
proof -
  from fan_completes [OF ok(1), of answers] obtain fes runs' f' where
    fes: "run_steps (fan_step i (ru_plan r)) fes f = Some f'" "length fes \<le> fan_work f" "list_all (answered answers) fes"
    and over: "fan_inv i (ru_plan r) runs' f'" "fan_over f'" by blast
  from exec_fan_run [OF fes(1) x(1,2)] obtain x1 where
    x1: "run_steps exec_step (map (XeFan i) fes) x = Some x1" "ex_admin x1 = ex_admin x" "map_of (ex_fans x1) i = Some f'" by blast
  have "targets_reported (ru_plan r) (fo_results f')" by (rule fan_over_reported [OF over ok(2)])
  with x(1) ok(3) obtain a where a: "admin_step (AeFinish i (fo_results f')) (ex_admin x) = Some a" by simp
  then have fin: "exec_step (XeFinish i (fo_results f')) x1 = Some \<lparr>ex_admin = a, ex_fans = gdel i (ex_fans x1)\<rparr>"
    using x1(2,3) over(2) by (simp del: admin_step.simps)
  from finish_terminal [OF a x(3)] obtain iv where iv: "get_invocation i (ad_svc a) = Inr iv" "terminal (inv_status iv)" by blast
  let ?es = "map (XeFan i) fes @ [XeFinish i (fo_results f')]"
  have "list_all (own_event i answers) ?es" using fes(3) by (simp add: list_all_iff own_event_def)
  moreover have "length ?es \<le> 4 * length (ep_targets (ru_plan r)) + 1" using fes(2) fan_work_bound [OF ok(1)] by simp
  moreover have "run_steps exec_step ?es x = Some \<lparr>ex_admin = a, ex_fans = gdel i (ex_fans x1)\<rparr>"
    unfolding run_steps_append x1(1) using fin by simp
  ultimately show ?thesis
    using iv by (intro exI [where x = ?es] exI [where x = "\<lparr>ex_admin = a, ex_fans = gdel i (ex_fans x1)\<rparr>"] exI [where x = iv]) simp
qed

text \<open>C10: No invocation hangs because of the others: in every reachable state an invocation that has not
  ended can end by steps of its own goroutines alone, at most four for each target and two for itself,
  whatever each target finds when it is executed; its status is then a final one.\<close>

theorem invocation_can_finish:
  assumes "w_counter w = 0" and "length es \<le> 2 ^ 60" and "run_steps exec_step es (exec_init w) = Some x"
    and "map_of (ad_runs (ex_admin x)) i = Some r"
  shows "\<exists>es' x' iv. list_all (own_event i answers) es' \<and> length es' \<le> 4 * length (ep_targets (ru_plan r)) + 2 \<and>
    run_steps exec_step es' x = Some x' \<and> get_invocation i (ad_svc (ex_admin x')) = Inr iv \<and> terminal (inv_status iv)"
proof -
  note reach = reachable_fans [OF assms(1-3)]
  have known: "map_of (sv_invocations (ad_svc (ex_admin x))) i \<noteq> None"
    using reach(3) admin_invD(4) assms(4) by fastforce
  note d = fans_okD(1) [OF reach(2) assms(4)]
  show ?thesis
  proof (cases "ru_started r")
    case (Some t)
    with d obtain f where f: "map_of (ex_fans x) i = Some f" by (auto simp: run_fan_def)
    note fan = started_fan [OF reach(2) assms(4) f]
    from started_finishes [OF fan(1,3) Some assms(4) f known, of answers] show ?thesis by fastforce
  next
    case None
    let ?t = "fst (sv_now (ad_svc (ex_admin x)))"
    let ?r = "r\<lparr>ru_started := Some ?t\<rparr>"
    obtain x1 where x1: "exec_step (XeBegin i) x = Some x1" "map_of (ad_runs (ex_admin x1)) i = Some ?r"
      "map_of (ex_fans x1) i = Some (fan_init (ru_plan r))" "map_of (sv_invocations (ad_svc (ex_admin x1))) i \<noteq> None"
      using assms(4) None known by (auto simp: begin_invocation_def Let_def case_prod_unfold map_of_update_invocation)
    have dist: "distinct (ep_targets (ru_plan ?r))" using d by (simp add: run_fan_def)
    have "fan_inv i (ru_plan ?r) [] (fan_init (ru_plan r))" by (simp add: fan_inv_init)
    from started_finishes [OF this dist _ x1(2-4), of ?t answers] obtain es' x' iv where
      "list_all (own_event i answers) es'" "length es' \<le> 4 * length (ep_targets (ru_plan r)) + 1"
      "run_steps exec_step es' x1 = Some x'" "get_invocation i (ad_svc (ex_admin x')) = Inr iv" "terminal (inv_status iv)"
      by auto
    then show ?thesis
      using x1(1) by (intro exI [where x = "XeBegin i # es'"] exI [where x = x'] exI [where x = iv])
        (simp add: own_event_def del: exec_step.simps)
  qed
qed

lemma invocation_can_finish_witness:
  "\<exists>i x es' x' iv. run_steps exec_step (both_runs i) (exec_init toy_world) = Some x \<and>
     list_all (own_event i (\<lambda>_. (toy_env, 0, 1))) es' \<and> run_steps exec_step es' x = Some x' \<and>
     get_invocation i (ad_svc (ex_admin x')) = Inr iv \<and> terminal (inv_status iv)"
proof -
  from both_reached obtain i x where x: "run_steps exec_step (both_runs i) (exec_init toy_world) = Some x"
    "length (both_runs i) \<le> 2 ^ 60" "map_option ru_plan (map_of (ad_runs (ex_admin x)) i) = Some both_plan" by blast
  from x(3) obtain r where r: "map_of (ad_runs (ex_admin x)) i = Some r" by auto
  have "w_counter toy_world = 0" by (simp add: toy_world_def)
  from invocation_can_finish [OF this x(2,1) r, of "\<lambda>_. (toy_env, 0, 1)"] obtain es' x' iv where
    y: "list_all (own_event i (\<lambda>_. (toy_env, 0, 1))) es'" "run_steps exec_step es' x = Some x'"
      "get_invocation i (ad_svc (ex_admin x')) = Inr iv" "terminal (inv_status iv)" by (elim exE conjE)
  show ?thesis by (intro exI conjI, rule x(1), rule y(1), rule y(2), rule y(3), rule y(4))
qed

end
