(* ===== verification/Tunnel_Service.thy ===== *)
theory Tunnel_Service
  imports Token_Auth Router Store
begin

text \<open>
  \<open>internal/sysplane-center/tunnel_svc.go\<close>: the gRPC handler \<open>Connect\<close> that agents and
  proxies hold open, with the state it shares with the rest of the center: the registry, the
  router, and, where the database is enabled, the store.

  One handler is three kinds of steps: it opens (everything up to the acknowledgement), it
  handles one message of the read loop, it closes (the deferred function).  Writes the code
  starts in a goroutine of their own are put on \<open>ct_tasks\<close> and run by a step of their own, in
  any order.  The offline checker of the registry and the calls of the router are steps too,
  so an event list is one interleaving of all of them.  The state also remembers which
  registration request opened each stream that is still open.
\<close>

section \<open>State\<close>

datatype db_task = TaskHeartbeat string | TaskOffline string

record center =
  ct_reg :: center_registry
  ct_router :: router
  ct_store :: "store option"
  ct_tasks :: "db_task list"
  ct_sessions :: "(stream_id, register_request) gomap"
  ct_next :: stream_id
  ct_out :: "(stream_id \<times> tunnel_msg) list"

record tunnel_service =
  ts_catalog :: catalog
  ts_instance :: string

definition new_center :: "int \<Rightarrow> store option \<Rightarrow> center" where
  "new_center timeout_sec st =
     \<lparr>ct_reg = registry_new, ct_router = router_new timeout_sec, ct_store = st, ct_tasks = [],
      ct_sessions = [], ct_next = 0, ct_out = []\<rparr>"

definition registration_domain :: "node_type \<Rightarrow> domain" where
  "registration_domain nt = (case nt of NODE_TYPE_PROXY \<Rightarrow> DomainProxy | _ \<Rightarrow> DomainAgent)"

definition agent_record_of :: "register_request \<Rightarrow> int \<Rightarrow> stream_id \<Rightarrow> agent_record" where
  "agent_record_of req now ts =
     \<lparr>ar_hostname = rq_hostname req, ar_ip = rq_ip req, ar_os = rq_os req,
      ar_agent_version = rq_agent_version req,
      ar_node_type = domain_str (registration_domain (rq_node_type req)),
      ar_proxy_path = rq_proxy_path req, ar_registered_at = now, ar_last_heartbeat = now,
      ar_status = StatusOnline, ar_route_stream = ts\<rparr>"

definition agent_row_for :: "string \<Rightarrow> agent_record \<Rightarrow> agent_row" where
  "agent_row_for inst rec =
     \<lparr>aw_hostname = ar_hostname rec, aw_ip = ar_ip rec, aw_os = ar_os rec,
      aw_agent_version = ar_agent_version rec, aw_node_type = ar_node_type rec,
      aw_proxy_path = ar_proxy_path rec, aw_center_id = inst, aw_status = ''online'',
      aw_registered_at = ar_registered_at rec, aw_last_heartbeat = ar_last_heartbeat rec\<rparr>"

section \<open>The handler\<close>

datatype grpc_code = CodeOK | CodeInternal | CodeInvalidArgument | CodeUnauthenticated | CodeUnavailable | CodeUnknown

definition send_out :: "stream_id \<Rightarrow> tunnel_msg \<Rightarrow> center \<Rightarrow> center" where
  "send_out ts m c = c\<lparr>ct_out := ct_out c @ [(ts, m)]\<rparr>"

definition persist_upsert :: "string option \<Rightarrow> agent_row \<Rightarrow> center \<Rightarrow> string option \<times> center" where
  "persist_upsert fault row c =
     (case ct_store c of
        None \<Rightarrow> (None, c)
      | Some st \<Rightarrow> (let (err, st') = upsert_agent fault row st in (err, c\<lparr>ct_store := Some st'\<rparr>)))"

definition spawn :: "db_task list \<Rightarrow> center \<Rightarrow> center" where
  "spawn ts c = (if ct_store c = None then c else c\<lparr>ct_tasks := ct_tasks c @ ts\<rparr>)"

text \<open>Up to the read loop.  The message is what \<open>Recv\<close> returned first; \<open>fault\<close> is the failure of
  the database and \<open>ack_err\<close> that of the stream on sending the acknowledgement.  A stream that
  fails there is unregistered again and never enters the loop.\<close>

definition connect_open ::
  "sha256 \<Rightarrow> tunnel_service \<Rightarrow> tunnel_msg go_result \<Rightarrow> int \<Rightarrow> string option \<Rightarrow> string option
   \<Rightarrow> center \<Rightarrow> grpc_code \<times> center" where
  "connect_open sha svc first now fault ack_err c =
     (case first of
        Inl e \<Rightarrow> (CodeInternal, c)
      | Inr m \<Rightarrow>
     (case get_register_request m of
        None \<Rightarrow> (CodeInvalidArgument, c)
      | Some req \<Rightarrow>
        let node_type = registration_domain (rq_node_type req); ts = ct_next c;
            c0 = c\<lparr>ct_next := Suc ts\<rparr> in
        if \<not> is_ok (authenticate_registration sha (ts_catalog svc) node_type (rq_token req))
        then (CodeUnauthenticated, send_out ts (MRegisterAck False ''invalid token'') c0)
        else
          let rec = agent_record_of req now ts;
              (err, c1) = persist_upsert fault (agent_row_for (ts_instance svc) rec) c0 in
          if err \<noteq> None
          then (CodeUnavailable, send_out ts (MRegisterAck False ''persist registration failed'') c1)
          else
            let c2 = c1\<lparr>ct_reg := registry_register rec (ct_reg c1)\<rparr> in
            if ack_err \<noteq> None
            then (CodeUnknown, c2\<lparr>ct_reg := snd (registry_unregister_by_stream ts (ct_reg c2))\<rparr>)
            else (CodeOK, (send_out ts (MRegisterAck True []) c2)\<lparr>ct_sessions := gupd ts req (ct_sessions c2)\<rparr>)))"

text \<open>One message of the read loop.\<close>

definition connect_message ::
  "tunnel_service \<Rightarrow> stream_id \<Rightarrow> register_request \<Rightarrow> tunnel_msg \<Rightarrow> int \<Rightarrow> string option \<Rightarrow> string option
   \<Rightarrow> center \<Rightarrow> center" where
  "connect_message svc ts req m now fault send_err c =
     (case m of
        MHeartbeat ms \<Rightarrow>
          let c1 = c\<lparr>ct_reg := registry_update_heartbeat now (rq_hostname req) (ct_reg c)\<rparr>;
              c2 = (if send_err = None then send_out ts (MHeartbeatAck ms) c1 else c1)
          in spawn [TaskHeartbeat (rq_hostname req)] c2
      | MToolResponse _ _ \<Rightarrow> c\<lparr>ct_router := deliver_from_message m (ct_router c)\<rparr>
      | MErrorResponse _ \<Rightarrow> c\<lparr>ct_router := deliver_from_message m (ct_router c)\<rparr>
      | MRegisterRequest p \<Rightarrow>
          (case registry_lookup (ct_reg c) (rq_hostname p) of
             Some _ \<Rightarrow>
               spawn [TaskHeartbeat (rq_hostname p)]
                 (c\<lparr>ct_reg := registry_update_heartbeat now (rq_hostname p) (ct_reg c)\<rparr>)
           | None \<Rightarrow>
               let rec = agent_record_of p now ts;
                   c1 = c\<lparr>ct_reg := registry_register rec (ct_reg c)\<rparr>;
                   (err, c2) = persist_upsert fault (agent_row_for (ts_instance svc) rec) c1
               in if err \<noteq> None
                  then c2\<lparr>ct_reg := registry_unregister (rq_hostname p) (ct_reg c2)\<rparr>
                  else c2)
      | _ \<Rightarrow> c)"

text \<open>The deferred function, when \<open>Recv\<close> fails.\<close>

definition connect_close :: "stream_id \<Rightarrow> center \<Rightarrow> center" where
  "connect_close ts c =
     (let (removed, reg') = registry_unregister_by_stream ts (ct_reg c)
      in (spawn (map TaskOffline removed) (c\<lparr>ct_reg := reg'\<rparr>))
           \<lparr>ct_sessions := gdel ts (ct_sessions c)\<rparr>)"

text \<open>A write of a goroutine; its error is only logged.\<close>

definition run_task :: "string option \<Rightarrow> int \<Rightarrow> db_task \<Rightarrow> store \<Rightarrow> store" where
  "run_task fault now t st =
     (case t of
        TaskHeartbeat h \<Rightarrow> snd (update_agent_heartbeat fault now h st)
      | TaskOffline h \<Rightarrow> snd (set_agent_offline fault h st))"

text \<open>The offline checker as \<open>run.go\<close> starts it: the callback of the database, if there is one.\<close>

definition pg_offline_callback :: "string option \<Rightarrow> string \<Rightarrow> store \<Rightarrow> store" where
  "pg_offline_callback fault h st = snd (set_agent_offline fault h st)"

definition offline_timeout :: int where "offline_timeout = 90 * 1000000000"

definition center_check_offline :: "int \<Rightarrow> string option \<Rightarrow> center \<Rightarrow> center" where
  "center_check_offline now fault c =
     (let (hs, reg') = registry_check_offline now offline_timeout (ct_reg c)
      in c\<lparr>ct_reg := reg',
           ct_store := map_option (run_offline_callbacks [Some (pg_offline_callback fault)] hs) (ct_store c)\<rparr>)"

section \<open>Interleavings\<close>

datatype center_event =
    CeOpen "tunnel_msg go_result" int "string option" "string option"
  | CeMessage stream_id tunnel_msg int "string option" "string option"
  | CeClose stream_id
  | CeTask nat int "string option"
  | CeCheck int "string option"
  | CeCall string string string string    \<comment> \<open>\<open>Send\<close> to the record found for a host\<close>
  | CeRouter router_event                 \<comment> \<open>a further step of a call\<close>

definition own_router_event :: "router_event \<Rightarrow> bool" where
  "own_router_event e = (case e of EvStart _ _ _ _ \<Rightarrow> False | EvDeliver _ \<Rightarrow> False | _ \<Rightarrow> True)"

definition drop_nth :: "nat \<Rightarrow> 'a list \<Rightarrow> 'a list" where
  "drop_nth k xs = take k xs @ drop (Suc k) xs"

fun center_step :: "sha256 \<Rightarrow> tunnel_service \<Rightarrow> center_event \<Rightarrow> center \<Rightarrow> center option" where
  "center_step sha svc (CeOpen first now fault ack_err) c =
     Some (snd (connect_open sha svc first now fault ack_err c))"
| "center_step sha svc (CeMessage ts m now fault send_err) c =
     map_option (\<lambda>req. connect_message svc ts req m now fault send_err c) (map_of (ct_sessions c) ts)"
| "center_step sha svc (CeClose ts) c =
     (if ts \<in> set (gkeys (ct_sessions c)) then Some (connect_close ts c) else None)"
| "center_step sha svc (CeTask k now fault) c =
     (if k < length (ct_tasks c)
      then Some (c\<lparr>ct_store := map_option (run_task fault now (ct_tasks c ! k)) (ct_store c),
                   ct_tasks := drop_nth k (ct_tasks c)\<rparr>)
      else None)"
| "center_step sha svc (CeCheck now fault) c = Some (center_check_offline now fault c)"
| "center_step sha svc (CeCall host rid tool args) c =
     map_option (\<lambda>rec. c\<lparr>ct_router := send_store rid rec tool args (ct_router c)\<rparr>)
       (registry_lookup (ct_reg c) host)"
| "center_step sha svc (CeRouter e) c =
     (if own_router_event e
      then map_option (\<lambda>r. c\<lparr>ct_router := r\<rparr>) (router_step e (ct_router c)) else None)"

text \<open>A state the center can be in, whatever has happened so far.\<close>

definition center_reach :: "sha256 \<Rightarrow> tunnel_service \<Rightarrow> int \<Rightarrow> store option \<Rightarrow> center \<Rightarrow> bool" where
  "center_reach sha svc t st c \<longleftrightarrow> (\<exists>es. reached (center_step sha svc) (new_center t st) es c)"

lemma center_reach_run:
  "run_steps (center_step sha svc) es (new_center t st) = Some c \<Longrightarrow> center_reach sha svc t st c"
  by (auto simp: center_reach_def reached_run)

section \<open>The invariant\<close>

text \<open>Every open stream was opened by a request whose token the catalog accepts for the kind of
  node it claims to be, its number has been given out, and every record of the registry routes
  over an open stream.\<close>

definition session_ok :: "sha256 \<Rightarrow> tunnel_service \<Rightarrow> register_request \<Rightarrow> bool" where
  "session_ok sha svc req \<longleftrightarrow>
     is_ok (authenticate_registration sha (ts_catalog svc) (registration_domain (rq_node_type req)) (rq_token req))"

abbreviation open_streams :: "center \<Rightarrow> stream_id set" where
  "open_streams c \<equiv> dom (map_of (ct_sessions c))"

definition center_inv :: "sha256 \<Rightarrow> tunnel_service \<Rightarrow> center \<Rightarrow> bool" where
  "center_inv sha svc c \<longleftrightarrow>
     registry_inv (ct_reg c) \<and>
     center_reg.routes_in (open_streams c) (ct_reg c) \<and>
     (\<forall>ts req. map_of (ct_sessions c) ts = Some req \<longrightarrow> session_ok sha svc req \<and> ts < ct_next c)"

lemma routes_fresh_drop:
  assumes "registry_inv r" and "center_reg.routes_in S r" and "ar_route_stream rec = ts" and "ts \<notin> S"
  shows "center_reg.routes_in S (snd (registry_unregister_by_stream ts (registry_register rec r)))"
proof -
  have "center_reg.routes_in (insert ts S) (registry_register rec r)"
    using assms center_reg.routes_in_mono [OF assms(2), of "insert ts S"]
    by (intro center_reg.routes_in_reg) auto
  from center_reg.routes_in_drop [OF center_reg.inv_reg [OF assms(1)] this, of ts]
  show ?thesis using assms(4) by simp
qed

lemma persist_upsert_other [simp]:
  assumes "persist_upsert fault row c = (err, c')"
  shows "ct_reg c' = ct_reg c" "ct_sessions c' = ct_sessions c" "ct_next c' = ct_next c" "ct_router c' = ct_router c"
    "ct_out c' = ct_out c"
  using assms by (auto simp: persist_upsert_def split: option.splits prod.splits)

lemma persist_upsert_row:
  "persist_upsert fault row c = (None, c') \<Longrightarrow> ct_store c' = Some st \<Longrightarrow>
   agent_row_of st (aw_hostname row) = Some row"
  by (cases fault; cases "ct_store c")
    (auto simp: persist_upsert_def upsert_agent_def exec_def agent_row_of_def split: if_splits)

lemma spawn_other [simp]:
  "ct_reg (spawn ts c) = ct_reg c" "ct_sessions (spawn ts c) = ct_sessions c"
  "ct_next (spawn ts c) = ct_next c" "ct_router (spawn ts c) = ct_router c"
  by (simp_all add: spawn_def)

lemma send_out_other [simp]:
  "ct_reg (send_out ts m c) = ct_reg c" "ct_sessions (send_out ts m c) = ct_sessions c"
  "ct_next (send_out ts m c) = ct_next c" "ct_router (send_out ts m c) = ct_router c"
  "ct_store (send_out ts m c) = ct_store c"
  by (simp_all add: send_out_def)

lemma agent_record_of_simps [simp]:
  "ar_hostname (agent_record_of req now ts) = rq_hostname req"
  "ar_route_stream (agent_record_of req now ts) = ts"
  by (simp_all add: agent_record_of_def)

lemma center_inv_cong:
  "ct_reg c' = ct_reg c \<Longrightarrow> ct_sessions c' = ct_sessions c \<Longrightarrow> ct_next c' = ct_next c \<Longrightarrow>
   center_inv sha svc c' = center_inv sha svc c"
  by (simp add: center_inv_def)

lemma center_inv_fresh: "center_inv sha svc c \<Longrightarrow> ct_next c \<notin> open_streams c"
  by (auto simp: center_inv_def)

lemma center_inv_open:
  assumes inv: "center_inv sha svc c"
  shows "center_inv sha svc (snd (connect_open sha svc first now fault ack_err c))"
proof (cases first)
  case (Inl e)
  then show ?thesis using inv by (simp add: connect_open_def)
next
  case (Inr m)
  show ?thesis
  proof (cases "get_register_request m")
    case None
    then show ?thesis using inv Inr by (simp add: connect_open_def)
  next
    case (Some req)
    let ?ts = "ct_next c" and ?c0 = "c\<lparr>ct_next := Suc (ct_next c)\<rparr>"
    let ?rec = "agent_record_of req now ?ts"
    obtain err c1 where p: "persist_upsert fault (agent_row_for (ts_instance svc) ?rec) ?c0 = (err, c1)"
      by fastforce
    note c1 = persist_upsert_other [OF p]
    have base: "registry_inv (ct_reg c)" "center_reg.routes_in (open_streams c) (ct_reg c)"
      using inv by (simp_all add: center_inv_def)
    have "center_reg.routes_in (insert ?ts (open_streams c)) (registry_register ?rec (ct_reg c))"
      using base(1) center_reg.routes_in_mono [OF base(2), of "insert ?ts (open_streams c)"]
      by (intro center_reg.routes_in_reg) auto
    then have full: "center_reg.routes_in (insert ?ts (open_streams c)) (registry_register ?rec (ct_reg c))" .
    have undone: "center_reg.routes_in (open_streams c)
        (snd (registry_unregister_by_stream ?ts (registry_register ?rec (ct_reg c))))"
      using center_inv_fresh [OF inv] by (intro routes_fresh_drop base) simp_all
    have inv0: "center_inv sha svc ?c0" using inv by (auto simp: center_inv_def intro: less_SucI)
    show ?thesis
    proof (cases "is_ok (authenticate_registration sha (ts_catalog svc) (registration_domain (rq_node_type req)) (rq_token req))")
      case False
      have "center_inv sha svc (send_out ?ts (MRegisterAck False ''invalid token'') ?c0)"
        using inv0 by (subst center_inv_cong [of _ ?c0]) simp_all
      with False Inr Some show ?thesis by (simp add: connect_open_def Let_def)
    next
      case auth: True
      show ?thesis
      proof (cases "err = None")
        case False
        have "center_inv sha svc (send_out ?ts (MRegisterAck False ''persist registration failed'') c1)"
          using inv0 by (subst center_inv_cong [of _ ?c0]) (simp_all add: c1)
        with False auth Inr Some p show ?thesis by (simp add: connect_open_def Let_def)
      next
        case True
        let ?c2 = "c1\<lparr>ct_reg := registry_register ?rec (ct_reg c1)\<rparr>"
        have one: "center_inv sha svc (?c2\<lparr>ct_reg := snd (registry_unregister_by_stream ?ts (ct_reg ?c2))\<rparr>)"
          using inv0 undone center_reg.inv_drop_stream [OF center_reg.inv_reg [OF base(1)]]
          by (simp add: center_inv_def c1)
        have two: "center_inv sha svc ((send_out ?ts (MRegisterAck True []) ?c2)\<lparr>ct_sessions := gupd ?ts req (ct_sessions ?c2)\<rparr>)"
          using inv0 full center_reg.inv_reg [OF base(1)] auth
          by (simp add: center_inv_def c1 session_ok_def)
        show ?thesis
        proof (cases "ack_err = None")
          case True
          with two \<open>err = None\<close> auth Inr Some p show ?thesis by (simp add: connect_open_def Let_def)
        next
          case False
          with one \<open>err = None\<close> auth Inr Some p show ?thesis by (simp add: connect_open_def Let_def)
        qed
      qed
    qed
  qed
qed

lemma center_inv_message:
  assumes inv: "center_inv sha svc c" and s: "map_of (ct_sessions c) ts = Some req"
  shows "center_inv sha svc (connect_message svc ts req m now fault send_err c)"
proof -
  have base: "registry_inv (ct_reg c)" "center_reg.routes_in (open_streams c) (ct_reg c)"
    using inv by (simp_all add: center_inv_def)
  have beat: "center_reg.routes_in (open_streams c) (registry_update_heartbeat now h (ct_reg c))" for h
    using base by (rule center_reg.routes_in_beat)
  have reg: "center_reg.routes_in (open_streams c) (registry_register (agent_record_of p now ts) (ct_reg c))" for p
    using base s by (intro center_reg.routes_in_reg) auto
  have unreg: "center_reg.routes_in (open_streams c)
      (registry_unregister h (registry_register (agent_record_of p now ts) (ct_reg c)))" for h p
    by (intro center_reg.routes_in_unreg center_reg.inv_reg base reg)
  show ?thesis
    using inv beat reg unreg base
    by (cases m)
      (auto simp: connect_message_def Let_def center_inv_def
        intro: center_reg.inv_reg center_reg.inv_unreg center_reg.inv_beat split: option.splits prod.splits)
qed

lemma center_inv_close:
  assumes inv: "center_inv sha svc c"
  shows "center_inv sha svc (connect_close ts c)"
proof -
  have base: "registry_inv (ct_reg c)" "center_reg.routes_in (open_streams c) (ct_reg c)"
    using inv by (simp_all add: center_inv_def)
  have "dom (map_of (gdel ts (ct_sessions c))) = open_streams c - {ts}" by auto
  with center_reg.routes_in_drop [OF base, of ts] center_reg.inv_drop_stream [OF base(1), of ts] inv
  show ?thesis by (auto simp: connect_close_def center_inv_def split: prod.splits)
qed

lemma center_inv_check:
  assumes inv: "center_inv sha svc c"
  shows "center_inv sha svc (center_check_offline now fault c)"
proof -
  obtain hs reg' where r: "registry_check_offline now offline_timeout (ct_reg c) = (hs, reg')" by fastforce
  then have m: "cr_records reg' = mark_offline now offline_timeout (cr_records (ct_reg c))"
    by (auto simp: registry_check_offline_def Let_def)
  have "center_reg.routes_in S reg'" if "center_reg.routes_in S (ct_reg c)" for S
    unfolding center_reg.routes_in_def registry_lookup_def m map_of_mark_offline
  proof (intro allI impI)
    fix h rec
    assume "map_option (\<lambda>rec. if expired now offline_timeout rec then rec\<lparr>ar_status := StatusOffline\<rparr> else rec)
        (map_of (cr_records (ct_reg c)) h) = Some rec"
    then obtain old where o: "map_of (cr_records (ct_reg c)) h = Some old"
      and "rec = (if expired now offline_timeout old then old\<lparr>ar_status := StatusOffline\<rparr> else old)"
      by blast
    then have "ar_route_stream rec = ar_route_stream old" by simp
    with o that show "ar_route_stream rec \<in> S" by (simp add: center_reg.routes_in_def registry_lookup_def)
  qed
  moreover have "registry_inv reg'" using inv
    by (simp add: center_inv_def registry_inv_def m records_inv_mark)
  ultimately show ?thesis using inv by (simp add: center_check_offline_def r center_inv_def)
qed

lemma center_inv_step:
  assumes inv: "center_inv sha svc c" and st: "center_step sha svc e c = Some c'"
  shows "center_inv sha svc c'"
proof (cases e)
  case (CeOpen first now fault ack_err)
  with st inv center_inv_open show ?thesis by auto
next
  case (CeMessage ts m now fault send_err)
  with st inv center_inv_message show ?thesis by auto
next
  case (CeClose ts)
  with st inv center_inv_close show ?thesis by (auto split: if_splits)
next
  case (CeCheck now fault)
  with st inv center_inv_check show ?thesis by auto
qed (use st inv in \<open>auto simp: center_inv_def split: if_splits\<close>)

interpretation center_sys: step_system "center_step sha svc" "new_center t st" "\<lambda>_. center_inv sha svc" for sha svc t st
proof
  show "center_inv sha svc (new_center t st)"
    by (simp add: center_inv_def new_center_def registry_inv_def registry_new_def
        center_reg.routes_in_def registry_lookup_def)
qed (rule center_inv_step)

lemma center_reach_inv: "center_reach sha svc t st c \<Longrightarrow> center_inv sha svc c"
  using center_sys.inv_reached unfolding center_reach_def by blast

section \<open>Properties\<close>

text \<open>In every interleaving of registrations, messages, disconnects, offline checks, database
  writes and tool calls, each host of the center's registry is routed over a stream that is
  still open and whose peer presented a registration token of the domain it claims.\<close>

theorem routes_are_open_and_authenticated:
  assumes "center_reach sha svc t st c" and "registry_lookup (ct_reg c) h = Some rec"
  shows "\<exists>req. map_of (ct_sessions c) (ar_route_stream rec) = Some req \<and>
           is_ok (authenticate_registration sha (ts_catalog svc) (registration_domain (rq_node_type req)) (rq_token req))"
proof -
  from center_reach_inv [OF assms(1)] have inv: "center_inv sha svc c" .
  then have "ar_route_stream rec \<in> open_streams c"
    using assms(2) by (simp add: center_inv_def center_reg.routes_in_def)
  with inv show ?thesis by (auto simp: center_inv_def session_ok_def)
qed

definition toy_catalog :: catalog where
  "toy_catalog = (case new_catalog toy_sha [] [] [''node''] [] of Inr c \<Rightarrow> c | Inl _ \<Rightarrow> \<lparr>cat_http = [], cat_registration = []\<rparr>)"

definition toy_service :: tunnel_service where
  "toy_service = \<lparr>ts_catalog = toy_catalog, ts_instance = ''center-a''\<rparr>"

definition toy_request :: "string \<Rightarrow> node_type \<Rightarrow> string \<Rightarrow> register_request" where
  "toy_request h nt tok = \<lparr>rq_hostname = h, rq_ip = [], rq_os = ''linux'', rq_agent_version = ''dev'',
     rq_node_type = nt, rq_proxy_path = [], rq_token = tok\<rparr>"

definition toy_open :: "string \<Rightarrow> string option \<Rightarrow> center_event" where
  "toy_open h ack_err = CeOpen (Inr (MRegisterRequest (toy_request h NODE_TYPE_AGENT ''node''))) 0 None ack_err"

text \<open>A registration that a proxy forwards for a host the center already knows never moves
  the host to that proxy: the route stays what it was, even when the host has left the
  stream it was first seen on.\<close>

theorem forwarded_registration_keeps_old_route:
  assumes "registry_inv (ct_reg c)" and "registry_lookup (ct_reg c) (rq_hostname p) = Some old"
  shows "map_option ar_route_stream
           (registry_lookup (ct_reg (connect_message svc ts req (MRegisterRequest p) now fault send_err c)) h) =
         map_option ar_route_stream (registry_lookup (ct_reg c) h)"
  using assms
  by (simp add: connect_message_def center_reg.lookup_beat option.map_comp o_def)

text \<open>With the database enabled, a registration that cannot be persisted is refused: the
  peer is told so, the stream is not opened, and the registry is as it was.\<close>

theorem unpersisted_registration_refused:
  assumes "ct_store c = Some st"
    and "is_ok (authenticate_registration sha (ts_catalog svc) (registration_domain (rq_node_type req)) (rq_token req))"
  shows "\<exists>c'. connect_open sha svc (Inr (MRegisterRequest req)) now (Some e) ack_err c = (CodeUnavailable, c') \<and>
           ct_reg c' = ct_reg c \<and> ct_sessions c' = ct_sessions c \<and> ct_store c' = Some st \<and>
           ct_out c' = ct_out c @ [(ct_next c, MRegisterAck False ''persist registration failed'')]"
  using assms by (simp add: connect_open_def Let_def persist_upsert_def send_out_def)

text \<open>A registration that goes through is in the registry and, with the database enabled, in
  the agent table under this center's instance id, before the peer sees the acknowledgement.\<close>

theorem registration_recorded:
  assumes "registry_inv (ct_reg c)"
    and "connect_open sha svc (Inr (MRegisterRequest req)) now fault ack_err c = (CodeOK, c')"
  shows "registry_lookup (ct_reg c') (rq_hostname req) = Some (agent_record_of req now (ct_next c)) \<and>
         map_of (ct_sessions c') (ct_next c) = Some req \<and>
         ct_out c' = ct_out c @ [(ct_next c, MRegisterAck True [])] \<and>
         (\<forall>st. ct_store c' = Some st \<longrightarrow>
            agent_row_of st (rq_hostname req) =
              Some (agent_row_for (ts_instance svc) (agent_record_of req now (ct_next c))))"
proof -
  let ?rec = "agent_record_of req now (ct_next c)" and ?c0 = "c\<lparr>ct_next := Suc (ct_next c)\<rparr>"
  obtain err c1 where p: "persist_upsert fault (agent_row_for (ts_instance svc) ?rec) ?c0 = (err, c1)"
    by fastforce
  have auth: "is_ok (authenticate_registration sha (ts_catalog svc) (registration_domain (rq_node_type req)) (rq_token req))"
    using assms(2) by (rule_tac ccontr) (simp add: connect_open_def Let_def)
  have err: "err = None" using assms(2) auth p by (rule_tac ccontr) (simp add: connect_open_def Let_def)
  have ack: "ack_err = None" using assms(2) auth p err by (rule_tac ccontr) (simp add: connect_open_def Let_def)
  let ?c2 = "c1\<lparr>ct_reg := registry_register ?rec (ct_reg c1)\<rparr>"
  have c': "c' = (send_out (ct_next c) (MRegisterAck True []) ?c2)\<lparr>ct_sessions := gupd (ct_next c) req (ct_sessions ?c2)\<rparr>"
    using assms(2) auth p err ack by (simp add: connect_open_def Let_def)
  have row: "agent_row_of st (rq_hostname req) = Some (agent_row_for (ts_instance svc) ?rec)"
    if "ct_store c1 = Some st" for st
    using persist_upsert_row [OF p [unfolded err] that] by (simp add: agent_row_for_def)
  show ?thesis
    using assms(1) row by (simp add: c' persist_upsert_other [OF p] center_reg.lookup_reg send_out_def)
qed

lemma toy_node_ok: "is_ok (authenticate_registration toy_sha (ts_catalog toy_service) DomainAgent ''node'')"
proof -
  have t: "trim_space ''node'' = ''node''"
    by (rule trim_space_visible) (simp_all add: visible_char_def)
  have "trim_prefix ''node'' ''Bearer '' = ''node''"
    by (simp add: trim_prefix_def has_prefix_def)
  with t show ?thesis
    by (simp add: toy_service_def toy_catalog_def new_catalog_def Let_def authenticate_registration_def)
qed

lemma toy_open_step:
  "center_step toy_sha toy_service (toy_open h None) c =
     Some (snd (connect_open toy_sha toy_service (Inr (MRegisterRequest (toy_request h NODE_TYPE_AGENT ''node''))) 0 None None c))"
  by (simp add: toy_open_def)

lemma routes_are_open_and_authenticated_witness:
  "\<exists>c req. run_steps (center_step toy_sha toy_service) [toy_open ''n1'' None] (new_center 5 None) = Some c \<and>
     registry_lookup (ct_reg c) ''n1'' \<noteq> None \<and> map_of (ct_sessions c) 0 = Some req \<and>
     is_ok (authenticate_registration toy_sha (ts_catalog toy_service) (registration_domain (rq_node_type req)) (rq_token req))"
proof -
  obtain c where c: "run_steps (center_step toy_sha toy_service) [toy_open ''n1'' None] (new_center 5 None) = Some c"
    and l: "map_option ar_route_stream (registry_lookup (ct_reg c) ''n1'') = Some 0"
    using toy_node_ok
    by (simp add: toy_open_step connect_open_def Let_def new_center_def persist_upsert_def toy_request_def
        registration_domain_def registry_lookup_def registry_register_def registry_new_def send_out_def)
  from l obtain rec where rec: "registry_lookup (ct_reg c) ''n1'' = Some rec" "ar_route_stream rec = 0" by auto
  from center_reach_run [OF c] have "center_reach toy_sha toy_service 5 None c" .
  from routes_are_open_and_authenticated [OF this rec(1)] rec c show ?thesis by auto
qed

definition known_host :: center where
  "known_host = (new_center 5 None)\<lparr>ct_reg := registry_register sample_agent registry_new\<rparr>"

lemma known_host_inv: "registry_inv (ct_reg known_host)"
  by (simp add: known_host_def new_center_def registry_inv_def registry_register_def registry_new_def
      records_inv_def Let_def)

lemma forwarded_registration_keeps_old_route_witness:
  "map_option ar_route_stream (registry_lookup (ct_reg (connect_message toy_service 9
     (toy_request ''proxy'' NODE_TYPE_PROXY ''relay'')
     (MRegisterRequest (toy_request ''n1'' NODE_TYPE_AGENT [])) 5 None None known_host)) ''n1'') = Some 1"
proof -
  have l: "registry_lookup (ct_reg known_host) ''n1'' = Some sample_agent"
    by (simp add: known_host_def registry_lookup_def registry_register_def registry_new_def sample_agent_def Let_def)
  then have "registry_lookup (ct_reg known_host) (rq_hostname (toy_request ''n1'' NODE_TYPE_AGENT [])) = Some sample_agent"
    by (simp add: toy_request_def)
  from forwarded_registration_keeps_old_route [OF known_host_inv this, of toy_service 9 _ 5 None None "''n1''"] l
  show ?thesis by (simp add: sample_agent_def)
qed

lemma unpersisted_registration_refused_witness:
  "\<exists>c'. connect_open toy_sha toy_service (Inr (MRegisterRequest (toy_request ''n1'' NODE_TYPE_AGENT ''node''))) 0
          (Some ''conn closed'') None (new_center 5 (Some empty_store)) = (CodeUnavailable, c') \<and>
        registry_all (ct_reg c') = []"
  using unpersisted_registration_refused [of "new_center 5 (Some empty_store)" empty_store toy_sha toy_service
      "toy_request ''n1'' NODE_TYPE_AGENT ''node''" 0 "''conn closed''" None] toy_node_ok
  by (auto simp: new_center_def toy_request_def registration_domain_def registry_new_def registry_all_def)

lemma registration_recorded_witness:
  "\<exists>c'. connect_open toy_sha toy_service (Inr (MRegisterRequest (toy_request ''n1'' NODE_TYPE_AGENT ''node''))) 0
          None None (new_center 5 (Some empty_store)) = (CodeOK, c') \<and>
        registry_lookup (ct_reg c') ''n1'' \<noteq> None"
proof -
  let ?req = "toy_request ''n1'' NODE_TYPE_AGENT ''node''"
  obtain c' where c': "connect_open toy_sha toy_service (Inr (MRegisterRequest ?req)) 0
          None None (new_center 5 (Some empty_store)) = (CodeOK, c')"
    using toy_node_ok
    by (simp add: connect_open_def Let_def new_center_def persist_upsert_def toy_request_def
        registration_domain_def upsert_agent_def exec_def status_check_def agent_row_for_def)
  have "registry_inv (ct_reg (new_center 5 (Some empty_store)))"
    by (simp add: new_center_def registry_inv_def registry_new_def)
  from registration_recorded [OF this c'] c' show ?thesis by (simp add: toy_request_def)
qed

text \<open>The write that marks a host offline when its old stream closes can run after the
  host has registered again: the agent table then calls the host offline although it is
  registered and online in the registry, until its next heartbeat has been written.\<close>

theorem late_offline_write:
  "\<exists>c. run_steps (center_step toy_sha toy_service)
         [toy_open ''n1'' None, CeClose 0, toy_open ''n1'' None, CeTask 0 7 None]
         (new_center 5 (Some empty_store)) = Some c \<and>
       map_option ar_status (registry_lookup (ct_reg c) ''n1'') = Some StatusOnline \<and>
       map_option aw_status (agent_row_of (the (ct_store c)) ''n1'') = Some ''offline'' \<and>
       (\<exists>c'. run_steps (center_step toy_sha toy_service) [CeMessage 1 (MHeartbeat 0) 8 None None, CeTask 0 9 None] c = Some c' \<and>
             map_option aw_status (agent_row_of (the (ct_store c')) ''n1'') = Some ''online'')"
  using toy_node_ok
  by (simp add: toy_open_step connect_open_def Let_def new_center_def persist_upsert_def toy_request_def
      registration_domain_def upsert_agent_def exec_def status_check_def agent_row_for_def empty_store_def
      registry_register_def registry_new_def send_out_def connect_close_def registry_unregister_by_stream_def
      spawn_def agent_record_of_def drop_nth_def run_task_def set_agent_offline_def update_agent_row_def
      registry_lookup_def agent_row_of_def connect_message_def registry_update_heartbeat_def
      update_agent_heartbeat_def)

text \<open>When the acknowledgement cannot be sent, the failed registration takes the host's
  earlier route with it: the host is gone from the registry although the stream it was
  registered on is still open.\<close>

theorem failed_ack_drops_live_route:
  "\<exists>c. run_steps (center_step toy_sha toy_service) [toy_open ''n1'' None, toy_open ''n1'' (Some ''broken pipe'')]
         (new_center 5 None) = Some c \<and>
       registry_lookup (ct_reg c) ''n1'' = None \<and> 0 \<in> set (gkeys (ct_sessions c))"
  using toy_node_ok
  by (simp add: toy_open_def connect_open_def Let_def new_center_def persist_upsert_def toy_request_def
      registration_domain_def registry_register_def registry_new_def send_out_def
      registry_unregister_by_stream_def agent_record_of_def registry_lookup_def)

end
