(* ===== verification/Dialer.thy ===== *)
theory Dialer
  imports Tunnel_Msg Request_Ids
begin

text \<open>
  \<open>internal/pkg/stream/dialer.go\<close>: the client side of a tunnel, which dials, registers,
  reads until the stream breaks and dials again.  Time is in nanoseconds.  The network is
  an input: one \<open>attempt\<close> says how far one run of \<open>runOnce\<close> gets and what it receives,
  one \<open>round\<close> adds the random jitter and the moment, if any, at which the context is
  cancelled.  The callbacks \<open>OnRegisterAck\<close> and \<open>OnMessage\<close> are functions on the state \<open>'s\<close>
  of the program that uses the dialer; they are given the stream field of the dialer as it
  is when they are called, because \<open>Send\<close> on the dialer reads that field.
\<close>

section \<open>Configuration\<close>

definition second :: int where "second = 1000000000"
definition millisecond :: int where "millisecond = 1000000"

record dialer_config =
  dc_heartbeat_interval :: int
  dc_reconnect_max_delay :: int

definition new_dialer :: "dialer_config \<Rightarrow> dialer_config" where
  "new_dialer cfg =
     (let cfg1 = (if dc_heartbeat_interval cfg \<le> 0
                  then cfg\<lparr>dc_heartbeat_interval := 30 * second\<rparr> else cfg)
      in if dc_reconnect_max_delay cfg1 \<le> 0
         then cfg1\<lparr>dc_reconnect_max_delay := 5 * second\<rparr> else cfg1)"

section \<open>One connection\<close>

record attempt =
  at_stream :: stream_id
  at_dial_err :: "string option"
  at_open_err :: "string option"
  at_send_err :: "string option"
  at_first :: "tunnel_msg go_result"
  at_msgs :: "tunnel_msg list"
  at_recv_err :: string

record 's dialer =
  dl_stream :: "stream_id option"
  dl_app :: 's

record 's dialer_callbacks =
  cb_on_register_ack :: "(stream_id option \<Rightarrow> bool \<Rightarrow> string \<Rightarrow> 's \<Rightarrow> 's) option"
  cb_on_message :: "(stream_id option \<Rightarrow> tunnel_msg \<Rightarrow> 's \<Rightarrow> 's) option"

text \<open>\<open>Send\<close>: the message goes out on the current stream, whose own answer is \<open>result\<close>.\<close>

definition dialer_send :: "stream_id option \<Rightarrow> unit go_result \<Rightarrow> unit go_result" where
  "dialer_send cur result =
     (case cur of None \<Rightarrow> Inl ''stream: no active connection'' | Some _ \<Rightarrow> result)"

fun read_loop :: "'s dialer_callbacks \<Rightarrow> tunnel_msg list \<Rightarrow> 's dialer \<Rightarrow> 's dialer" where
  "read_loop cbs [] d = d"
| "read_loop cbs (m # ms) d =
     (case m of
        MHeartbeatAck _ \<Rightarrow> read_loop cbs ms d
      | _ \<Rightarrow> (case cb_on_message cbs of
               None \<Rightarrow> read_loop cbs ms d
             | Some f \<Rightarrow> read_loop cbs ms (d\<lparr>dl_app := f (dl_stream d) m (dl_app d)\<rparr>)))"

definition run_once ::
  "string \<Rightarrow> 's dialer_callbacks \<Rightarrow> attempt \<Rightarrow> 's dialer \<Rightarrow> string option \<times> 's dialer" where
  "run_once endpoint cbs a d =
     (case at_dial_err a of Some e \<Rightarrow> (Some (''stream: dial '' @ endpoint @ '': '' @ e), d)
      | None \<Rightarrow>
     (case at_open_err a of Some e \<Rightarrow> (Some (''stream: open stream: '' @ e), d)
      | None \<Rightarrow>
     (case at_send_err a of Some e \<Rightarrow> (Some (''stream: send register: '' @ e), d)
      | None \<Rightarrow>
     (case at_first a of Inl e \<Rightarrow> (Some (''stream: recv ack: '' @ e), d)
      | Inr first \<Rightarrow>
     (case get_register_ack first of
        None \<Rightarrow> (Some (''stream: expected RegisterAck, got '' @ payload_type first), d)
      | Some (success, message) \<Rightarrow>
          let d1 = (case cb_on_register_ack cbs of
                      None \<Rightarrow> d
                    | Some f \<Rightarrow> d\<lparr>dl_app := f (dl_stream d) success message (dl_app d)\<rparr>)
          in if \<not> success then (None, d1)
             else let d2 = read_loop cbs (at_msgs a) (d1\<lparr>dl_stream := Some (at_stream a)\<rparr>)
                  in (Some (''stream: recv: '' @ at_recv_err a), d2\<lparr>dl_stream := None\<rparr>))))))"

text \<open>The heartbeat goroutine: a message per tick, until its context is done.\<close>

datatype heartbeat_event = HbTick int | HbDone

fun heartbeat :: "heartbeat_event list \<Rightarrow> tunnel_msg list" where
  "heartbeat [] = []"
| "heartbeat (HbDone # es) = []"
| "heartbeat (HbTick ms # es) = MHeartbeat ms # heartbeat es"

section \<open>The reconnect loop\<close>

datatype cancel_point = NoCancel | CancelBefore | CancelDuring | CancelWaiting

record round =
  rd_attempt :: attempt
  rd_jitter :: int
  rd_cancel :: cancel_point

datatype run_event = RunAttempt | RunWait int

definition initial_delay :: int where "initial_delay = 200 * millisecond"

text \<open>
  The loop of \<open>Run\<close> over the rounds the environment offers; the result is what it did,
  the error it returned (\<open>None\<close> while it still runs when the rounds are used up), and the
  dialer.
\<close>

fun dial_run ::
  "string \<Rightarrow> dialer_config \<Rightarrow> 's dialer_callbacks \<Rightarrow> int \<Rightarrow> round list \<Rightarrow> 's dialer
   \<Rightarrow> run_event list \<times> string option \<times> 's dialer" where
  "dial_run endpoint cfg cbs delay [] d = ([], None, d)"
| "dial_run endpoint cfg cbs delay (r # rs) d =
     (if rd_cancel r = CancelBefore then ([], Some ''context canceled'', d)
      else
        let (err, d1) = run_once endpoint cbs (rd_attempt r) d in
        if rd_cancel r = CancelDuring then ([RunAttempt], Some ''context canceled'', d1)
        else case err of
          Some e \<Rightarrow>
            let wait = delay + rd_jitter r in
            if rd_cancel r = CancelWaiting
            then ([RunAttempt, RunWait wait], Some ''context canceled'', d1)
            else let (evs, res, d2) =
                   dial_run endpoint cfg cbs (min (wrap64 (delay * 2)) (dc_reconnect_max_delay cfg)) rs d1
                 in (RunAttempt # RunWait wait # evs, res, d2)
        | None \<Rightarrow>
            let (evs, res, d2) = dial_run endpoint cfg cbs delay rs d1
            in (RunAttempt # evs, res, d2))"

definition dialer_run ::
  "string \<Rightarrow> dialer_config \<Rightarrow> 's dialer_callbacks \<Rightarrow> round list \<Rightarrow> 's dialer
   \<Rightarrow> run_event list \<times> string option \<times> 's dialer" where
  "dialer_run endpoint cfg cbs rs d = dial_run endpoint cfg cbs initial_delay rs d"

section \<open>The stream field\<close>

lemma read_loop_stream [simp]: "dl_stream (read_loop cbs ms d) = dl_stream d"
  by (induction cbs ms d rule: read_loop.induct) (auto split: tunnel_msg.splits option.splits)

lemma run_once_stream: "dl_stream d = None \<Longrightarrow> dl_stream (snd (run_once ep cbs a d)) = None"
  by (auto simp: run_once_def Let_def split: option.splits sum.splits)

lemma run_once_err_iff:
  "fst (run_once ep cbs a d) = None \<longleftrightarrow>
     at_dial_err a = None \<and> at_open_err a = None \<and> at_send_err a = None \<and>
     (\<exists>msg. at_first a = Inr (MRegisterAck False msg))"
  by (auto simp: run_once_def Let_def split: option.splits sum.splits)

definition rejected :: "attempt \<Rightarrow> bool" where
  "rejected a \<longleftrightarrow> at_dial_err a = None \<and> at_open_err a = None \<and> at_send_err a = None \<and>
     (case at_first a of Inr (MRegisterAck ok _) \<Rightarrow> \<not> ok | _ \<Rightarrow> False)"

lemma rejected_iff: "rejected a \<longleftrightarrow> fst (run_once ep cbs a d) = None"
  by (auto simp: run_once_err_iff rejected_def split: sum.splits tunnel_msg.splits)

section \<open>Backoff\<close>

definition backoff :: "int \<Rightarrow> nat \<Rightarrow> int" where
  "backoff max_delay k = (if k = 0 then initial_delay else min (initial_delay * 2 ^ k) max_delay)"

lemma backoff_pos: "0 < m \<Longrightarrow> 0 < backoff m k"
  by (simp add: backoff_def initial_delay_def millisecond_def)

lemma backoff_bound: "backoff m k \<le> max initial_delay m"
  by (auto simp: backoff_def)

lemma backoff_Suc:
  assumes "0 < m" and "m < 2 ^ 62"
  shows "min (wrap64 (backoff m k * 2)) m = backoff m (Suc k)"
proof -
  have pos: "0 < backoff m k" using assms(1) by (rule backoff_pos)
  have "backoff m k < 2 ^ 62" using assms(2)
    by (auto simp: backoff_def initial_delay_def millisecond_def)
  with pos have "wrap64 (backoff m k * 2) = backoff m k * 2"
    by (intro wrap64_id) (simp add: in_int64_def min_int64_def max_int64_def)
  then show ?thesis using assms(1)
    by (auto simp: backoff_def min_def)
qed

text \<open>The trace of a loop whose attempts all fail, starting at the \<open>k\<close>-th delay.\<close>

fun backoff_trace :: "int \<Rightarrow> nat \<Rightarrow> round list \<Rightarrow> run_event list" where
  "backoff_trace m k [] = []"
| "backoff_trace m k (r # rs) =
     RunAttempt # RunWait (backoff m k + rd_jitter r) # backoff_trace m (Suc k) rs"

lemma dial_run_backoff:
  assumes "0 < dc_reconnect_max_delay cfg" and "dc_reconnect_max_delay cfg < 2 ^ 62"
    and "\<forall>r \<in> set rs. rd_cancel r = NoCancel \<and> \<not> rejected (rd_attempt r)"
  shows "fst (dial_run ep cfg cbs (backoff (dc_reconnect_max_delay cfg) k) rs d) =
           backoff_trace (dc_reconnect_max_delay cfg) k rs"
  using assms(3)
proof (induction rs arbitrary: k d)
  case Nil
  then show ?case by simp
next
  case (Cons r rs)
  obtain err d1 where ro: "run_once ep cbs (rd_attempt r) d = (err, d1)" by fastforce
  from Cons.prems rejected_iff [of "rd_attempt r" ep cbs d] ro obtain e where "err = Some e"
    by auto
  with Cons.prems ro Cons.IH [of "Suc k" d1] show ?case
    by (auto simp: Let_def backoff_Suc [OF assms(1,2)] split: prod.splits)
qed

lemma dial_run_rejected:
  assumes "\<forall>r \<in> set rs. rd_cancel r = NoCancel \<and> rejected (rd_attempt r)"
  shows "fst (dial_run ep cfg cbs delay rs d) = replicate (length rs) RunAttempt"
  using assms
proof (induction rs arbitrary: d)
  case Nil
  then show ?case by simp
next
  case (Cons r rs)
  obtain err d1 where ro: "run_once ep cbs (rd_attempt r) d = (err, d1)" by fastforce
  from Cons.prems rejected_iff [of "rd_attempt r" ep cbs d] ro have "err = None"
    by auto
  with Cons.prems ro Cons.IH [of d1] show ?case
    by (auto simp: Let_def split: prod.splits)
qed

section \<open>Properties\<close>

definition failing_attempt :: attempt where
  "failing_attempt = \<lparr>at_stream = 0, at_dial_err = Some ''refused'', at_open_err = None,
     at_send_err = None, at_first = Inl ''eof'', at_msgs = [], at_recv_err = ''eof''\<rparr>"

definition rejected_attempt :: attempt where
  "rejected_attempt = \<lparr>at_stream = 0, at_dial_err = None, at_open_err = None,
     at_send_err = None, at_first = Inr (MRegisterAck False ''invalid token''),
     at_msgs = [], at_recv_err = ''eof''\<rparr>"

definition no_callbacks :: "unit dialer_callbacks" where
  "no_callbacks = \<lparr>cb_on_register_ack = None, cb_on_message = None\<rparr>"

definition idle_dialer :: "unit dialer" where
  "idle_dialer = \<lparr>dl_stream = None, dl_app = ()\<rparr>"

text \<open>C36: While every connection fails, the reconnect loop waits the exponential backoff
  between attempts: 200 ms, doubled each time and capped at the configured maximum, plus
  the jitter of the round.  The loop never gives up.\<close>

theorem reconnect_backoff:
  assumes "dc_reconnect_max_delay (new_dialer cfg) < 2 ^ 62"
    and "\<forall>r \<in> set rs. rd_cancel r = NoCancel \<and> \<not> rejected (rd_attempt r)"
  shows "fst (dialer_run ep (new_dialer cfg) cbs rs d) =
           backoff_trace (dc_reconnect_max_delay (new_dialer cfg)) 0 rs"
proof -
  have "0 < dc_reconnect_max_delay (new_dialer cfg)"
    by (simp add: new_dialer_def Let_def second_def)
  from dial_run_backoff [OF this assms, of ep cbs 0 d] show ?thesis
    by (simp add: dialer_run_def backoff_def)
qed

theorem reconnect_backoff_witness:
  "fst (dialer_run ''c:1'' (new_dialer \<lparr>dc_heartbeat_interval = 0, dc_reconnect_max_delay = 0\<rparr>)
     no_callbacks (replicate 7 \<lparr>rd_attempt = failing_attempt, rd_jitter = 1, rd_cancel = NoCancel\<rparr>)
     idle_dialer) =
   concat (map (\<lambda>w. [RunAttempt, RunWait w])
     [200000001, 400000001, 800000001, 1600000001, 3200000001, 5000000001, 5000000001])"
  by (subst reconnect_backoff)
    (simp_all add: new_dialer_def second_def failing_attempt_def rejected_def numeral_eq_Suc
      backoff_def initial_delay_def millisecond_def)

text \<open>A registration that the server rejects is retried at once: however often the
  server rejects it, the loop dials again without any wait in between and never returns.
  (The comment in \<open>runOnce\<close> says that a rejected registration is not retried.)\<close>

theorem rejection_retried_without_wait:
  assumes "\<forall>r \<in> set rs. rd_cancel r = NoCancel \<and> rejected (rd_attempt r)"
  shows "fst (dialer_run ep cfg cbs rs d) = replicate (length rs) RunAttempt"
  using dial_run_rejected [OF assms] by (simp add: dialer_run_def)

theorem rejection_retried_without_wait_witness:
  "fst (dialer_run ''c:1'' \<lparr>dc_heartbeat_interval = 1, dc_reconnect_max_delay = second\<rparr>
     no_callbacks (replicate 3 \<lparr>rd_attempt = rejected_attempt, rd_jitter = 1, rd_cancel = NoCancel\<rparr>)
     idle_dialer) = [RunAttempt, RunAttempt, RunAttempt]"
  by (subst rejection_retried_without_wait)
    (simp_all add: rejected_attempt_def rejected_def numeral_eq_Suc)

end
