(* ===== verification/Proxy_Tunnel.thy ===== *)
theory Proxy_Tunnel
  imports Tunnel_Service Dialer Configs
begin

text \<open>
  The proxy: \<open>internal/sysplane-proxy/tunnel/downstream.go\<close>, the gRPC service nodes behind
  the proxy connect to, and the callbacks \<open>run.go\<close> gives to the upstream dialer.

  The state is the proxy's registry, the table \<open>pendingRequests\<close> from request ids to target
  hosts, the messages sent to the streams of the nodes and those sent upstream.  A send on a
  stream succeeds or fails as the argument \<open>net\<close> says; a send upstream also needs the dialer to
  have a stream (\<open>up\<close> is its stream field, as \<open>Dialer.dialer_send\<close> reads it).
\<close>

section \<open>State\<close>

record proxy =
  px_reg :: proxy_registry
  px_pending :: "(string, string) gomap"
  px_sessions :: "(stream_id, register_request) gomap"
  px_next :: stream_id
  px_down :: "(stream_id \<times> tunnel_msg) list"
  px_up :: "tunnel_msg list"

record proxy_net =
  pn_up :: "stream_id option"             \<comment> \<open>the dialer's stream\<close>
  pn_up_result :: "unit go_result"        \<comment> \<open>what sending on it gives\<close>
  pn_down_err :: "stream_id \<Rightarrow> string option"

record proxy_service =
  ps_catalog :: catalog
  ps_hostname :: string

definition new_proxy :: proxy where
  "new_proxy = \<lparr>px_reg = proxy_registry_new, px_pending = [], px_sessions = [], px_next = 0, px_down = [], px_up = []\<rparr>"

definition node_type_str :: "node_type \<Rightarrow> string" where
  "node_type_str nt = (case nt of NODE_TYPE_PROXY \<Rightarrow> ''proxy'' | _ \<Rightarrow> ''agent'')"

definition node_type_proto :: "string \<Rightarrow> node_type" where
  "node_type_proto s = (if s = ''proxy'' then NODE_TYPE_PROXY else NODE_TYPE_AGENT)"

text \<open>\<open>upstream.Send\<close> and \<open>RouteStream.Send\<close>: whether it worked, and the state.\<close>

definition up_send :: "proxy_net \<Rightarrow> tunnel_msg \<Rightarrow> proxy \<Rightarrow> unit go_result \<times> proxy" where
  "up_send net m p =
     (let res = dialer_send (pn_up net) (pn_up_result net)
      in (res, if is_ok res then p\<lparr>px_up := px_up p @ [m]\<rparr> else p))"

definition down_send :: "proxy_net \<Rightarrow> stream_id \<Rightarrow> tunnel_msg \<Rightarrow> proxy \<Rightarrow> string option \<times> proxy" where
  "down_send net s m p =
     (case pn_down_err net s of
        Some e \<Rightarrow> (Some e, p)
      | None \<Rightarrow> (None, p\<lparr>px_down := px_down p @ [(s, m)]\<rparr>))"

definition forward_request :: "string \<Rightarrow> agent_record \<Rightarrow> register_request" where
  "forward_request proxy_host rec =
     \<lparr>rq_hostname = ar_hostname rec, rq_ip = ar_ip rec, rq_os = ar_os rec,
      rq_agent_version = ar_agent_version rec, rq_node_type = node_type_proto (ar_node_type rec),
      rq_proxy_path = proxy_host # ar_proxy_path rec, rq_token = []\<rparr>"

section \<open>\<open>Connect\<close>\<close>

definition downstream_record :: "register_request \<Rightarrow> int \<Rightarrow> stream_id \<Rightarrow> agent_record" where
  "downstream_record req now ts =
     \<lparr>ar_hostname = rq_hostname req, ar_ip = rq_ip req, ar_os = rq_os req,
      ar_agent_version = rq_agent_version req, ar_node_type = node_type_str (rq_node_type req),
      ar_proxy_path = rq_proxy_path req, ar_registered_at = now, ar_last_heartbeat = now,
      ar_status = StatusOnline, ar_route_stream = ts\<rparr>"

definition downstream_open ::
  "sha256 \<Rightarrow> proxy_service \<Rightarrow> proxy_net \<Rightarrow> tunnel_msg go_result \<Rightarrow> int \<Rightarrow> proxy \<Rightarrow> grpc_code \<times> proxy" where
  "downstream_open sha svc net first now p =
     (case first of
        Inl e \<Rightarrow> (CodeInternal, p)
      | Inr m \<Rightarrow>
     (case get_register_request m of
        None \<Rightarrow> (CodeInvalidArgument, p)
      | Some req \<Rightarrow>
        let ts = px_next p; p0 = p\<lparr>px_next := Suc ts\<rparr> in
        if \<not> is_ok (authenticate_registration sha (ps_catalog svc) (registration_domain (rq_node_type req)) (rq_token req))
        then (CodeUnauthenticated, snd (down_send net ts (MRegisterAck False ''invalid token'') p0))
        else
          let p1 = p0\<lparr>px_reg := proxy_register (downstream_record req now ts) (px_reg p0)\<rparr>;
              (err, p2) = down_send net ts (MRegisterAck True []) p1 in
          if err \<noteq> None
          then (CodeUnknown, p2\<lparr>px_reg := snd (proxy_unregister_by_stream ts (px_reg p2))\<rparr>)
          else (CodeOK, (snd (up_send net (MRegisterRequest (req\<lparr>rq_proxy_path := ps_hostname svc # rq_proxy_path req, rq_token := []\<rparr>)) p2))
                  \<lparr>px_sessions := gupd ts req (px_sessions p2)\<rparr>)))"

definition downstream_message ::
  "proxy_service \<Rightarrow> proxy_net \<Rightarrow> stream_id \<Rightarrow> register_request \<Rightarrow> tunnel_msg \<Rightarrow> int \<Rightarrow> proxy \<Rightarrow> proxy" where
  "downstream_message svc net ts req m now p =
     (case m of
        MHeartbeat ms \<Rightarrow>
          let p1 = p\<lparr>px_reg := proxy_update_heartbeat now (rq_hostname req) (px_reg p)\<rparr>;
              p2 = snd (down_send net ts (MHeartbeatAck ms) p1)
          in (case proxy_lookup (px_reg p2) (rq_hostname req) of
                None \<Rightarrow> p2
              | Some rec \<Rightarrow> snd (up_send net (MRegisterRequest (forward_request (ps_hostname svc) rec)) p2))
      | MToolResponse rid _ \<Rightarrow> snd (up_send net m (p\<lparr>px_pending := gdel rid (px_pending p)\<rparr>))
      | MErrorResponse e \<Rightarrow> snd (up_send net m (p\<lparr>px_pending := gdel (er_request_id e) (px_pending p)\<rparr>))
      | _ \<Rightarrow> p)"

definition downstream_close :: "stream_id \<Rightarrow> proxy \<Rightarrow> proxy" where
  "downstream_close ts p =
     p\<lparr>px_reg := snd (proxy_unregister_by_stream ts (px_reg p)), px_sessions := gdel ts (px_sessions p)\<rparr>"

section \<open>Messages from upstream\<close>

definition host_not_found :: "tool_request \<Rightarrow> tunnel_msg" where
  "host_not_found req = MErrorResponse
     \<lparr>er_request_id = tq_request_id req, er_code = ''HOST_NOT_FOUND'',
      er_message = ''proxy: target host '' @ tq_target_host req @ '' not found''\<rparr>"

definition deliver_tool_request :: "proxy_net \<Rightarrow> tunnel_msg \<Rightarrow> proxy \<Rightarrow> proxy" where
  "deliver_tool_request net m p =
     (case get_tool_request m of
        None \<Rightarrow> p
      | Some req \<Rightarrow>
          (case proxy_lookup (px_reg p) (tq_target_host req) of
             None \<Rightarrow> snd (up_send net (host_not_found req) p)
           | Some rec \<Rightarrow>
               let p1 = p\<lparr>px_pending := gupd (tq_request_id req) (tq_target_host req) (px_pending p)\<rparr>;
                   (err, p2) = down_send net (ar_route_stream rec) m p1
               in if err \<noteq> None then p2\<lparr>px_pending := gdel (tq_request_id req) (px_pending p2)\<rparr> else p2))"

definition deliver_cancel_request :: "proxy_net \<Rightarrow> tunnel_msg \<Rightarrow> proxy \<Rightarrow> proxy" where
  "deliver_cancel_request net m p =
     (case get_cancel_request m of
        None \<Rightarrow> p
      | Some rid \<Rightarrow>
          (case map_of (px_pending p) rid of
             None \<Rightarrow> p
           | Some host \<Rightarrow>
               let p1 = p\<lparr>px_pending := gdel rid (px_pending p)\<rparr> in
               (case proxy_lookup (px_reg p1) host of
                  None \<Rightarrow> p1
                | Some rec \<Rightarrow> snd (down_send net (ar_route_stream rec) m p1))))"

text \<open>\<open>ReregisterAll\<close>: the loop over the records the registry lists; it stops at the first
  error of the upstream.\<close>

fun reregister_loop :: "string \<Rightarrow> proxy_net \<Rightarrow> agent_record list \<Rightarrow> proxy \<Rightarrow> proxy" where
  "reregister_loop host net [] p = p"
| "reregister_loop host net (rec # recs) p =
     (if ar_status rec \<noteq> StatusOnline then reregister_loop host net recs p
      else let (res, p1) = up_send net (MRegisterRequest (forward_request host rec)) p
           in if is_ok res then reregister_loop host net recs p1 else p1)"

definition reregister_all :: "proxy_service \<Rightarrow> proxy_net \<Rightarrow> proxy \<Rightarrow> proxy" where
  "reregister_all svc net p =
     reregister_loop (ps_hostname svc) net (proxy_all (px_reg p)) (p\<lparr>px_pending := []\<rparr>)"

text \<open>The callbacks of \<open>run.go\<close>: the dialer hands each its own stream field.\<close>

definition proxy_on_message :: "proxy_net \<Rightarrow> stream_id option \<Rightarrow> tunnel_msg \<Rightarrow> proxy \<Rightarrow> proxy" where
  "proxy_on_message net cur m p =
     (case m of
        MToolRequest _ \<Rightarrow> deliver_tool_request (net\<lparr>pn_up := cur\<rparr>) m p
      | MCancelRequest _ \<Rightarrow> deliver_cancel_request (net\<lparr>pn_up := cur\<rparr>) m p
      | _ \<Rightarrow> p)"

definition proxy_on_register_ack ::
  "proxy_service \<Rightarrow> proxy_net \<Rightarrow> stream_id option \<Rightarrow> bool \<Rightarrow> string \<Rightarrow> proxy \<Rightarrow> proxy" where
  "proxy_on_register_ack svc net cur success message p =
     (if \<not> success then p else reregister_all svc (net\<lparr>pn_up := cur\<rparr>) p)"

definition proxy_callbacks :: "proxy_service \<Rightarrow> proxy_net \<Rightarrow> proxy dialer_callbacks" where
  "proxy_callbacks svc net =
     \<lparr>cb_on_register_ack = Some (proxy_on_register_ack svc net), cb_on_message = Some (proxy_on_message net)\<rparr>"

text \<open>The name the proxy goes by, and the request it registers with.\<close>

definition proxy_hostname :: "proxy_config \<Rightarrow> string go_result \<Rightarrow> string" where
  "proxy_hostname cfg os_hostname =
     (let h = (if pc_hostname cfg = [] then (case os_hostname of Inl _ \<Rightarrow> [] | Inr h \<Rightarrow> h) else pc_hostname cfg)
      in if h = [] then ''proxy'' else h)"

definition proxy_register_msg :: "proxy_config \<Rightarrow> string go_result \<Rightarrow> tunnel_msg" where
  "proxy_register_msg cfg os_hostname = MRegisterRequest
     \<lparr>rq_hostname = proxy_hostname cfg os_hostname, rq_ip = [], rq_os = ''proxy'', rq_agent_version = ''1.0.0'',
      rq_node_type = NODE_TYPE_PROXY, rq_proxy_path = [], rq_token = pc_upstream_token cfg\<rparr>"

definition proxy_dialer_config :: dialer_config where
  "proxy_dialer_config = \<lparr>dc_heartbeat_interval = 30 * second, dc_reconnect_max_delay = 30 * second\<rparr>"

section \<open>Interleavings\<close>

datatype proxy_event =
    PeOpen proxy_net "tunnel_msg go_result" int
  | PeMessage proxy_net stream_id tunnel_msg int
  | PeClose stream_id
  | PeUpstream proxy_net tunnel_msg
  | PeAck proxy_net bool string
  | PeCheck int

fun proxy_step :: "sha256 \<Rightarrow> proxy_service \<Rightarrow> proxy_event \<Rightarrow> proxy \<Rightarrow> proxy option" where
  "proxy_step sha svc (PeOpen net first now) p = Some (snd (downstream_open sha svc net first now p))"
| "proxy_step sha svc (PeMessage net ts m now) p =
     map_option (\<lambda>req. downstream_message svc net ts req m now p) (map_of (px_sessions p) ts)"
| "proxy_step sha svc (PeClose ts) p =
     (if ts \<in> set (gkeys (px_sessions p)) then Some (downstream_close ts p) else None)"
| "proxy_step sha svc (PeUpstream net m) p = Some (proxy_on_message net (pn_up net) m p)"
| "proxy_step sha svc (PeAck net ok t) p = Some (proxy_on_register_ack svc net (pn_up net) ok t p)"
| "proxy_step sha svc (PeCheck now) p = Some (p\<lparr>px_reg := proxy_check_offline now offline_timeout (px_reg p)\<rparr>)"

definition proxy_reach :: "sha256 \<Rightarrow> proxy_service \<Rightarrow> proxy \<Rightarrow> bool" where
  "proxy_reach sha svc p \<longleftrightarrow> (\<exists>es. reached (proxy_step sha svc) new_proxy es p)"

section \<open>The invariant\<close>

definition proxy_inv :: "sha256 \<Rightarrow> proxy_service \<Rightarrow> proxy \<Rightarrow> bool" where
  "proxy_inv sha svc p \<longleftrightarrow>
     records_inv (px_reg p) \<and>
     proxy_reg.routes_in (dom (map_of (px_sessions p))) (px_reg p) \<and>
     (\<forall>ts req. map_of (px_sessions p) ts = Some req \<longrightarrow> ts < px_next p \<and>
        is_ok (authenticate_registration sha (ps_catalog svc) (registration_domain (rq_node_type req)) (rq_token req)))"

lemma up_send_other [simp]:
  "px_reg (snd (up_send net m p)) = px_reg p" "px_pending (snd (up_send net m p)) = px_pending p"
  "px_sessions (snd (up_send net m p)) = px_sessions p" "px_next (snd (up_send net m p)) = px_next p"
  "px_down (snd (up_send net m p)) = px_down p"
  by (simp_all add: up_send_def Let_def)

lemma down_send_other [simp]:
  "px_reg (snd (down_send net s m p)) = px_reg p" "px_pending (snd (down_send net s m p)) = px_pending p"
  "px_sessions (snd (down_send net s m p)) = px_sessions p" "px_next (snd (down_send net s m p)) = px_next p"
  "px_up (snd (down_send net s m p)) = px_up p"
  by (simp_all add: down_send_def split: option.split)

lemma proxy_inv_cong:
  "px_reg p' = px_reg p \<Longrightarrow> px_sessions p' = px_sessions p \<Longrightarrow> px_next p' = px_next p \<Longrightarrow>
   proxy_inv sha svc p' = proxy_inv sha svc p"
  by (simp add: proxy_inv_def)

lemma reregister_loop_other [simp]:
  "px_reg (reregister_loop h net rs p) = px_reg p" "px_sessions (reregister_loop h net rs p) = px_sessions p"
  "px_next (reregister_loop h net rs p) = px_next p" "px_pending (reregister_loop h net rs p) = px_pending p"
  by (induction h net rs p rule: reregister_loop.induct)
    (auto simp: up_send_def Let_def split: if_splits)

lemma deliver_tool_request_other [simp]:
  "px_reg (deliver_tool_request net m p) = px_reg p" "px_sessions (deliver_tool_request net m p) = px_sessions p"
  "px_next (deliver_tool_request net m p) = px_next p"
  by (simp_all add: deliver_tool_request_def Let_def split: option.split prod.split)
    (metis down_send_other proxy.select_convs(1-4) proxy.surjective proxy.update_convs(2) snd_conv)+

lemma deliver_cancel_request_other [simp]:
  "px_reg (deliver_cancel_request net m p) = px_reg p" "px_sessions (deliver_cancel_request net m p) = px_sessions p"
  "px_next (deliver_cancel_request net m p) = px_next p"
  by (simp_all add: deliver_cancel_request_def Let_def split: option.split)

lemma downstream_record_simps [simp]:
  "ar_hostname (downstream_record req now ts) = rq_hostname req"
  "ar_route_stream (downstream_record req now ts) = ts"
  by (simp_all add: downstream_record_def)

lemma proxy_inv_open:
  assumes inv: "proxy_inv sha svc p"
  shows "proxy_inv sha svc (snd (downstream_open sha svc net first now p))"
proof (cases "\<exists>req. first = Inr (MRegisterRequest req)")
  case False
  then show ?thesis using inv by (auto simp: downstream_open_def split: sum.splits option.splits)
next
  case True
  then obtain req where first: "first = Inr (MRegisterRequest req)" by blast
  let ?ts = "px_next p" and ?p0 = "p\<lparr>px_next := Suc (px_next p)\<rparr>"
  let ?rec = "downstream_record req now ?ts" and ?S = "dom (map_of (px_sessions p))"
  let ?p1 = "?p0\<lparr>px_reg := proxy_register ?rec (px_reg p)\<rparr>"
  have base: "records_inv (px_reg p)" "proxy_reg.routes_in ?S (px_reg p)" "?ts \<notin> ?S"
    using inv by (auto simp: proxy_inv_def)
  have inv0: "proxy_inv sha svc ?p0" using inv by (auto simp: proxy_inv_def intro: less_SucI)
  have full: "proxy_reg.routes_in (insert ?ts ?S) (proxy_register ?rec (px_reg p))"
    using base(1) proxy_reg.routes_in_mono [OF base(2), of "insert ?ts ?S"]
    by (intro proxy_reg.routes_in_reg) auto
  have undone: "proxy_reg.routes_in ?S (snd (proxy_unregister_by_stream ?ts (proxy_register ?rec (px_reg p))))"
    using proxy_reg.routes_in_drop [OF proxy_reg.inv_reg [OF base(1)] full, of ?ts] base(3) by simp
  obtain err p2 where d: "down_send net ?ts (MRegisterAck True []) ?p1 = (err, p2)" by fastforce
  have p2: "px_reg p2 = proxy_register ?rec (px_reg p)" "px_sessions p2 = px_sessions p" "px_next p2 = Suc ?ts"
    using down_send_other [of net ?ts "MRegisterAck True []" ?p1] unfolding d by simp_all
  show ?thesis
  proof (cases "is_ok (authenticate_registration sha (ps_catalog svc) (registration_domain (rq_node_type req)) (rq_token req))")
    case False
    have "proxy_inv sha svc (snd (down_send net ?ts (MRegisterAck False ''invalid token'') ?p0))"
      using inv0 by (subst proxy_inv_cong [of _ ?p0]) simp_all
    with False first show ?thesis by (simp add: downstream_open_def Let_def)
  next
    case auth: True
    have one: "proxy_inv sha svc (p2\<lparr>px_reg := snd (proxy_unregister_by_stream ?ts (px_reg p2))\<rparr>)"
      using inv0 undone proxy_reg.inv_drop_stream [OF proxy_reg.inv_reg [OF base(1)]]
      by (simp add: proxy_inv_def p2)
    have two: "proxy_inv sha svc ((snd (up_send net m p2))\<lparr>px_sessions := gupd ?ts req (px_sessions p2)\<rparr>)" for m
      using inv0 full proxy_reg.inv_reg [OF base(1)] auth
      by (simp add: proxy_inv_def p2)
    show ?thesis
    proof (cases "err = None")
      case True
      with two auth first d show ?thesis by (simp add: downstream_open_def Let_def)
    next
      case False
      with one auth first d show ?thesis by (simp add: downstream_open_def Let_def)
    qed
  qed
qed

lemma proxy_inv_message:
  assumes inv: "proxy_inv sha svc p"
  shows "proxy_inv sha svc (downstream_message svc net ts req m now p)"
proof -
  let ?p1 = "p\<lparr>px_reg := proxy_update_heartbeat now (rq_hostname req) (px_reg p)\<rparr>"
  have beat: "proxy_inv sha svc ?p1"
    using inv by (simp add: proxy_inv_def proxy_reg.inv_beat proxy_reg.routes_in_beat)
  have "proxy_inv sha svc p'" if "px_reg p' = px_reg ?p1" "px_sessions p' = px_sessions ?p1" "px_next p' = px_next ?p1" for p'
    using beat that by (subst proxy_inv_cong [of _ ?p1])
  moreover have "proxy_inv sha svc p'" if "px_reg p' = px_reg p" "px_sessions p' = px_sessions p" "px_next p' = px_next p" for p'
    using inv that by (subst proxy_inv_cong [of _ p])
  ultimately show ?thesis using inv
    by (cases m) (simp_all add: downstream_message_def Let_def split: option.split)
qed

lemma proxy_inv_close:
  assumes inv: "proxy_inv sha svc p"
  shows "proxy_inv sha svc (downstream_close ts p)"
proof -
  have base: "records_inv (px_reg p)" "proxy_reg.routes_in (dom (map_of (px_sessions p))) (px_reg p)"
    using inv by (simp_all add: proxy_inv_def)
  have "dom (map_of (gdel ts (px_sessions p))) = dom (map_of (px_sessions p)) - {ts}" by auto
  with proxy_reg.routes_in_drop [OF base, of ts] proxy_reg.inv_drop_stream [OF base(1), of ts] inv
  show ?thesis by (simp add: downstream_close_def proxy_inv_def)
qed

lemma mark_offline_routes:
  "map_of (mark_offline now t m) h = Some rec \<Longrightarrow>
   \<exists>old. map_of m h = Some old \<and> ar_route_stream rec = ar_route_stream old"
  unfolding map_of_mark_offline by (auto split: if_splits)

lemma mark_offline_routes_in:
  assumes "proxy_reg.routes_in S m"
  shows "proxy_reg.routes_in S (mark_offline now t m)"
  unfolding proxy_reg.routes_in_def proxy_lookup_def
proof (intro allI impI)
  fix h rec assume "map_of (mark_offline now t m) h = Some rec"
  from mark_offline_routes [OF this] assms show "ar_route_stream rec \<in> S"
    by (auto simp: proxy_reg.routes_in_def proxy_lookup_def)
qed

lemma proxy_inv_check:
  "proxy_inv sha svc p \<Longrightarrow> proxy_inv sha svc (p\<lparr>px_reg := proxy_check_offline now t (px_reg p)\<rparr>)"
  by (simp add: proxy_inv_def proxy_check_offline_def records_inv_mark mark_offline_routes_in)

lemma proxy_inv_upstream:
  assumes "proxy_inv sha svc p"
  shows "proxy_inv sha svc (proxy_on_message net cur m p)"
    and "proxy_inv sha svc (proxy_on_register_ack svc net cur ok t p)"
  using assms
  by (cases m; simp add: proxy_on_message_def proxy_on_register_ack_def reregister_all_def proxy_inv_def)+

lemma proxy_inv_step: "proxy_inv sha svc p \<Longrightarrow> proxy_step sha svc e p = Some p' \<Longrightarrow> proxy_inv sha svc p'"
  by (cases e) (auto simp: proxy_inv_open proxy_inv_message proxy_inv_close proxy_inv_check
      proxy_inv_upstream split: if_splits)

interpretation proxy_sys: step_system "proxy_step sha svc" new_proxy "\<lambda>_. proxy_inv sha svc" for sha svc
proof
  show "proxy_inv sha svc new_proxy"
    by (simp add: proxy_inv_def new_proxy_def proxy_registry_new_def proxy_reg.routes_in_def proxy_lookup_def)
qed (rule proxy_inv_step)

lemma proxy_reach_inv: "proxy_reach sha svc p \<Longrightarrow> proxy_inv sha svc p"
  using proxy_sys.inv_reached unfolding proxy_reach_def by blast

section \<open>Properties\<close>

text \<open>A tool request from upstream for a host behind the proxy is relayed as it is on the
  stream the host is registered on; its response is relayed upstream as it is, and a cancel
  that arrives before the response follows the request to the same stream, once.\<close>

theorem proxy_relays_request:
  assumes "proxy_lookup (px_reg p) (tq_target_host q) = Some rec"
    and "pn_down_err net (ar_route_stream rec) = None"
    and "pn_up net = Some up" and "pn_up_result net = Inr ()"
    and "p1 = proxy_on_message net (pn_up net) (MToolRequest q) p"
  shows "px_down p1 = px_down p @ [(ar_route_stream rec, MToolRequest q)] \<and>
         map_of (px_pending p1) (tq_request_id q) = Some (tq_target_host q) \<and>
         px_up (downstream_message svc net ts req (MToolResponse (tq_request_id q) json) now p1) =
           px_up p @ [MToolResponse (tq_request_id q) json] \<and>
         (let p2 = proxy_on_message net (pn_up net) (MCancelRequest (tq_request_id q)) p1
          in px_down p2 = px_down p1 @ [(ar_route_stream rec, MCancelRequest (tq_request_id q))] \<and>
             proxy_on_message net (pn_up net) (MCancelRequest (tq_request_id q)) p2 = p2)"
proof -
  have net: "net\<lparr>pn_up := pn_up net\<rparr> = net" by simp
  show ?thesis using assms
    by (simp add: proxy_on_message_def net deliver_tool_request_def deliver_cancel_request_def down_send_def
        downstream_message_def up_send_def dialer_send_def)
qed

text \<open>A request the proxy cannot hand to its host is not answered: when the stream of a
  registered host fails, nothing goes upstream, so the caller waits for its timeout.  (For a
  host that is not registered an error response is sent.)\<close>

theorem proxy_send_failure_unanswered:
  assumes "pn_up net = Some up" and "pn_up_result net = Inr ()"
  shows "px_up (proxy_on_message net (pn_up net) (MToolRequest q) p) =
     px_up p @ (case proxy_lookup (px_reg p) (tq_target_host q) of
                  None \<Rightarrow> [host_not_found q] | Some rec \<Rightarrow> [])"
proof -
  have net: "net\<lparr>pn_up := pn_up net\<rparr> = net" by simp
  show ?thesis using assms
    by (auto simp: proxy_on_message_def net deliver_tool_request_def Let_def down_send_def up_send_def
        dialer_send_def split: option.splits)
qed

definition online_requests :: "string \<Rightarrow> agent_record list \<Rightarrow> tunnel_msg list" where
  "online_requests host recs =
     map (\<lambda>rec. MRegisterRequest (forward_request host rec)) (filter (\<lambda>rec. ar_status rec = StatusOnline) recs)"

lemma reregister_loop_up:
  assumes "pn_up net = Some up" and "pn_up_result net = Inr ()"
  shows "px_up (reregister_loop host net recs p) = px_up p @ online_requests host recs"
  by (induction recs arbitrary: p)
    (use assms in \<open>auto simp: up_send_def dialer_send_def online_requests_def\<close>)

lemma reregister_loop_down:
  assumes "pn_up net = None"
  shows "reregister_loop host net recs p = p"
  by (induction recs arbitrary: p)
    (use assms in \<open>auto simp: up_send_def dialer_send_def\<close>)

text \<open>\<open>ReregisterAll\<close> with a working upstream announces every node the proxy holds as
  online, once, with the proxy in front of its path, and forgets all requests in flight.\<close>

theorem reregister_announces_online:
  assumes "pn_up net = Some up" and "pn_up_result net = Inr ()"
  shows "px_up (reregister_all svc net p) = px_up p @ online_requests (ps_hostname svc) (proxy_all (px_reg p)) \<and>
         px_pending (reregister_all svc net p) = [] \<and> px_reg (reregister_all svc net p) = px_reg p"
  using reregister_loop_up [OF assms] by (simp add: reregister_all_def)

text \<open>But on a reconnect it announces nobody: the dialer calls \<open>OnRegisterAck\<close> before it
  stores the new stream, so every send of \<open>ReregisterAll\<close> fails with no active connection.
  After a connection whose registration was accepted, nothing has been sent upstream by it.\<close>

theorem reconnect_announces_nobody:
  assumes "dl_stream d = None"
    and "at_dial_err a = None" and "at_open_err a = None" and "at_send_err a = None"
    and "at_first a = Inr (MRegisterAck True text)" and "at_msgs a = []"
  shows "dl_app (snd (run_once ep (proxy_callbacks svc net) a d)) = (dl_app d)\<lparr>px_pending := []\<rparr>"
  using assms
  by (simp add: run_once_def proxy_callbacks_def proxy_on_register_ack_def reregister_all_def reregister_loop_down
      Let_def)

text \<open>C35: In every state the proxy can reach, each host it knows is routed over an open stream
  whose peer presented a registration token of the domain it claims.\<close>

theorem proxy_routes_open_and_authenticated:
  assumes "proxy_reach sha svc p" and "proxy_lookup (px_reg p) h = Some rec"
  shows "\<exists>req. map_of (px_sessions p) (ar_route_stream rec) = Some req \<and>
     is_ok (authenticate_registration sha (ps_catalog svc) (registration_domain (rq_node_type req)) (rq_token req))"
proof -
  from proxy_reach_inv [OF assms(1)] have inv: "proxy_inv sha svc p" .
  then have "ar_route_stream rec \<in> dom (map_of (px_sessions p))"
    using assms(2) by (simp add: proxy_inv_def proxy_reg.routes_in_def)
  with inv show ?thesis by (auto simp: proxy_inv_def)
qed

definition good_net :: proxy_net where
  "good_net = \<lparr>pn_up = Some 0, pn_up_result = Inr (), pn_down_err = (\<lambda>_. None)\<rparr>"

definition one_agent :: proxy where
  "one_agent = new_proxy\<lparr>px_reg := proxy_register sample_agent proxy_registry_new\<rparr>"

definition toy_proxy :: proxy_service where
  "toy_proxy = \<lparr>ps_catalog = toy_catalog, ps_hostname = ''relay''\<rparr>"

definition stat_request :: "string \<Rightarrow> tool_request" where
  "stat_request h = \<lparr>tq_request_id = ''q'', tq_tool_name = ''stat_file'', tq_args_json = ''{}'', tq_target_host = h\<rparr>"

lemma one_agent_lookup: "proxy_lookup (px_reg one_agent) ''n1'' = Some sample_agent"
  by (simp add: one_agent_def proxy_lookup_def proxy_register_def proxy_registry_new_def sample_agent_def)

lemma proxy_relays_request_witness:
  "px_down (proxy_on_message good_net (Some 0) (MToolRequest (stat_request ''n1'')) one_agent) =
     [(1, MToolRequest (stat_request ''n1''))]"
  using proxy_relays_request [of one_agent "stat_request ''n1''" sample_agent good_net 0
      "proxy_on_message good_net (Some 0) (MToolRequest (stat_request ''n1'')) one_agent"] one_agent_lookup
  by (simp add: stat_request_def good_net_def one_agent_def new_proxy_def) (simp add: sample_agent_def)

lemma proxy_send_failure_unanswered_witness:
  "px_up (proxy_on_message (good_net\<lparr>pn_down_err := (\<lambda>_. Some ''reset'')\<rparr>) (Some 0)
     (MToolRequest (stat_request ''n1'')) one_agent) = []"
  using proxy_send_failure_unanswered [of "good_net\<lparr>pn_down_err := (\<lambda>_. Some ''reset'')\<rparr>" 0 "stat_request ''n1''" one_agent]
    one_agent_lookup
  by (simp add: stat_request_def good_net_def) (simp add: one_agent_def new_proxy_def)

lemma reregister_announces_online_witness:
  "px_up (reregister_all toy_proxy good_net one_agent) = [MRegisterRequest (forward_request ''relay'' sample_agent)]"
  using reregister_announces_online [of good_net 0 toy_proxy one_agent]
  by (simp add: good_net_def one_agent_def new_proxy_def toy_proxy_def proxy_register_def proxy_registry_new_def
      proxy_all_def online_requests_def) (simp add: sample_agent_def)

definition accepted_attempt :: attempt where
  "accepted_attempt = \<lparr>at_stream = 4, at_dial_err = None, at_open_err = None, at_send_err = None,
     at_first = Inr (MRegisterAck True []), at_msgs = [], at_recv_err = ''eof''\<rparr>"

lemma reconnect_announces_nobody_witness:
  "px_up (dl_app (snd (run_once ''c:9090'' (proxy_callbacks toy_proxy good_net) accepted_attempt
     \<lparr>dl_stream = None, dl_app = one_agent\<rparr>))) = []"
  by (subst reconnect_announces_nobody)
    (simp_all add: accepted_attempt_def, simp add: one_agent_def new_proxy_def)

lemma proxy_routes_open_and_authenticated_witness:
  "\<exists>p req. proxy_reach toy_sha toy_proxy p \<and> proxy_lookup (px_reg p) ''n1'' \<noteq> None \<and>
     map_of (px_sessions p) 0 = Some req \<and>
     is_ok (authenticate_registration toy_sha (ps_catalog toy_proxy) (registration_domain (rq_node_type req)) (rq_token req))"
proof -
  let ?e = "PeOpen good_net (Inr (MRegisterRequest (toy_request ''n1'' NODE_TYPE_AGENT ''node''))) 0"
  have ok: "is_ok (authenticate_registration toy_sha (ps_catalog toy_proxy) DomainAgent ''node'')"
    using toy_node_ok by (simp add: toy_proxy_def toy_service_def)
  obtain p where p: "proxy_step toy_sha toy_proxy ?e new_proxy = Some p"
    and l: "map_option ar_route_stream (proxy_lookup (px_reg p) ''n1'') = Some 0"
    using ok by (simp add: downstream_open_def Let_def toy_request_def registration_domain_def down_send_def
        good_net_def proxy_lookup_def proxy_register_def downstream_record_def new_proxy_def proxy_registry_new_def)
  from l obtain rec where rec: "proxy_lookup (px_reg p) ''n1'' = Some rec" "ar_route_stream rec = 0" by auto
  have r: "proxy_reach toy_sha toy_proxy p" unfolding proxy_reach_def by (rule exI, rule reached_one [where step = "proxy_step toy_sha toy_proxy", OF p])
  from proxy_routes_open_and_authenticated [OF r rec(1)] rec r show ?thesis by auto
qed

end
