(* ===== verification/File_System.thy ===== *)
theory File_System
  imports Go_Path
begin

text \<open>
  The part of a Unix file system that the agent's file tools rely on: directories, regular
  files and symbolic links, the kernel's resolution of a path, and Go's \<open>filepath.EvalSymlinks\<close>.
  A file system maps the list of names of a real (link-free) absolute path to what is there;
  the root is always a directory.  Paths are resolved from a working directory.  \<open>FOther\<close> is
  a device or the like, with the bytes that reading it gives.  Permissions are left out: the
  agent is taken to be allowed what it asks for.
\<close>

section \<open>Nodes\<close>

datatype fnode = FDir | FFile string | FLink string | FOther string

type_synonym fpath = "string list"
type_synonym fsys = "(fpath, fnode) gomap"

definition fs_node :: "fsys \<Rightarrow> fpath \<Rightarrow> fnode option" where
  "fs_node fs p = (if p = [] then Some FDir else map_of fs p)"

lemma fs_node_root [simp]: "fs_node fs [] = Some FDir"
  by (simp add: fs_node_def)

section \<open>The kernel's walk\<close>

text \<open>
  \<open>kwalk fs links cur cs\<close> follows the names \<open>cs\<close> from the real directory \<open>cur\<close>, resolving at most
  \<open>links\<close> symbolic links.  Unlike \<open>Clean\<close>, it takes \<open>..\<close> at the directory the walk has reached.
\<close>

datatype walk_error = ENOENT | ENOTDIR | ELOOP

function kwalk :: "fsys \<Rightarrow> nat \<Rightarrow> fpath \<Rightarrow> string list \<Rightarrow> walk_error + fpath" where
  "kwalk fs links cur [] = Inr cur"
| "kwalk fs links cur (c # cs) =
     (if c = [] \<or> c = ''.'' then kwalk fs links cur cs
      else if c = ''..'' then kwalk fs links (butlast cur) cs
      else case fs_node fs (cur @ [c]) of
             None \<Rightarrow> Inl ENOENT
           | Some FDir \<Rightarrow> kwalk fs links (cur @ [c]) cs
           | Some (FFile _) \<Rightarrow> if cs = [] then Inr (cur @ [c]) else Inl ENOTDIR
           | Some (FOther _) \<Rightarrow> if cs = [] then Inr (cur @ [c]) else Inl ENOTDIR
           | Some (FLink t) \<Rightarrow>
               if links = 0 then Inl ELOOP
               else kwalk fs (links - 1) (if is_abs t then [] else cur) (split_char slash t @ cs))"
  by pat_completeness auto
termination
  by (relation "measures [\<lambda>(fs, links, cur, cs). links, \<lambda>(fs, links, cur, cs). length cs]") auto

definition kernel_links :: nat where "kernel_links = 40"

definition start_dir :: "fpath \<Rightarrow> string \<Rightarrow> fpath" where
  "start_dir cwd p = (if is_abs p then [] else cwd)"

text \<open>What \<open>open\<close> and \<open>stat\<close> reach; the empty path does not exist.\<close>

definition resolve :: "fsys \<Rightarrow> fpath \<Rightarrow> string \<Rightarrow> walk_error + fpath" where
  "resolve fs cwd p =
     (if p = [] then Inl ENOENT else kwalk fs kernel_links (start_dir cwd p) (split_char slash p))"

definition os_stat :: "fsys \<Rightarrow> fpath \<Rightarrow> string \<Rightarrow> walk_error + (fpath \<times> fnode)" where
  "os_stat fs cwd p =
     (case resolve fs cwd p of
        Inl e \<Rightarrow> Inl e
      | Inr r \<Rightarrow> (case fs_node fs r of None \<Rightarrow> Inl ENOENT | Some n \<Rightarrow> Inr (r, n)))"

text \<open>\<open>lstat\<close> does not follow a link that is the last name.\<close>

definition os_lstat :: "fsys \<Rightarrow> fpath \<Rightarrow> string \<Rightarrow> walk_error + (fpath \<times> fnode)" where
  "os_lstat fs cwd p =
     (if p = [] then Inl ENOENT
      else let cs = split_char slash p; c = last cs in
        if c = [] \<or> c = ''.'' \<or> c = ''..'' then os_stat fs cwd p
        else (case kwalk fs kernel_links (start_dir cwd p) (butlast cs) of
                Inl e \<Rightarrow> Inl e
              | Inr dir \<Rightarrow>
                  (case fs_node fs dir of
                     Some FDir \<Rightarrow>
                       (case fs_node fs (dir @ [c]) of None \<Rightarrow> Inl ENOENT | Some n \<Rightarrow> Inr (dir @ [c], n))
                   | _ \<Rightarrow> Inl ENOTDIR)))"

text \<open>
  Where \<open>open\<close> with \<open>O_CREAT\<close> ends up: like \<open>kwalk\<close>, except that the last name need not exist.
  With \<open>O_EXCL\<close> it must not exist, not even as a link.
\<close>

datatype create_error = CreateWalk walk_error | EEXIST | EISDIR

function cwalk :: "fsys \<Rightarrow> bool \<Rightarrow> nat \<Rightarrow> fpath \<Rightarrow> string list \<Rightarrow> create_error + fpath" where
  "cwalk fs excl links cur [] = Inl EISDIR"
| "cwalk fs excl links cur (c # cs) =
     (if cs = [] \<and> (c = [] \<or> c = ''.'' \<or> c = ''..'') then Inl (if excl \<and> c \<noteq> [] then EEXIST else EISDIR)
      else if c = [] \<or> c = ''.'' then cwalk fs excl links cur cs
      else if c = ''..'' then cwalk fs excl links (butlast cur) cs
      else if cs \<noteq> [] \<and> list_all (\<lambda>d. d = []) cs then Inl EISDIR
      else case fs_node fs (cur @ [c]) of
             None \<Rightarrow> if cs = [] then Inr (cur @ [c]) else Inl (CreateWalk ENOENT)
           | Some FDir \<Rightarrow> if cs = [] then Inl (if excl then EEXIST else EISDIR) else cwalk fs excl links (cur @ [c]) cs
           | Some (FFile _) \<Rightarrow>
               if cs = [] then (if excl then Inl EEXIST else Inr (cur @ [c])) else Inl (CreateWalk ENOTDIR)
           | Some (FOther _) \<Rightarrow>
               if cs = [] then (if excl then Inl EEXIST else Inr (cur @ [c])) else Inl (CreateWalk ENOTDIR)
           | Some (FLink t) \<Rightarrow>
               if excl \<and> cs = [] then Inl EEXIST
               else if links = 0 then Inl (CreateWalk ELOOP)
               else cwalk fs excl (links - 1) (if is_abs t then [] else cur) (split_char slash t @ cs))"
  by pat_completeness auto
termination
  by (relation "measures [\<lambda>(fs, excl, links, cur, cs). links, \<lambda>(fs, excl, links, cur, cs). length cs]") auto

definition open_create :: "fsys \<Rightarrow> fpath \<Rightarrow> bool \<Rightarrow> string \<Rightarrow> create_error + fpath" where
  "open_create fs cwd excl p =
     (if p = [] then Inl (CreateWalk ENOENT)
      else cwalk fs excl kernel_links (start_dir cwd p) (split_char slash p))"

section \<open>\<open>filepath.EvalSymlinks\<close>\<close>

text \<open>
  The walk of \<open>walkSymlinks\<close>: \<open>dest\<close> is the result so far, link-free, rooted or relative to the
  working directory, where leading \<open>..\<close> stay.  \<open>dest_real\<close> is where it lies.
\<close>

fun climb :: "fpath \<Rightarrow> string list \<Rightarrow> fpath" where
  "climb cur [] = cur"
| "climb cur (c # cs) = (if c = ''..'' then climb (butlast cur) cs else climb (cur @ [c]) cs)"

definition dest_real :: "fpath \<Rightarrow> bool \<Rightarrow> string list \<Rightarrow> fpath" where
  "dest_real cwd rooted dest = climb (if rooted then [] else cwd) dest"

definition dest_up :: "bool \<Rightarrow> string list \<Rightarrow> string list" where
  "dest_up rooted dest =
     (if dest = [] then (if rooted then [] else [''..''])
      else if last dest = ''..'' then dest @ [''..''] else butlast dest)"

function ewalk :: "fsys \<Rightarrow> fpath \<Rightarrow> nat \<Rightarrow> bool \<Rightarrow> string list \<Rightarrow> string list \<Rightarrow> walk_error + (bool \<times> string list)" where
  "ewalk fs cwd links rooted dest [] = Inr (rooted, dest)"
| "ewalk fs cwd links rooted dest (c # cs) =
     (if c = [] \<or> c = ''.'' then ewalk fs cwd links rooted dest cs
      else if c = ''..'' then ewalk fs cwd links rooted (dest_up rooted dest) cs
      else case fs_node fs (dest_real cwd rooted (dest @ [c])) of
             None \<Rightarrow> Inl ENOENT
           | Some FDir \<Rightarrow> ewalk fs cwd links rooted (dest @ [c]) cs
           | Some (FFile _) \<Rightarrow> if cs = [] then Inr (rooted, dest @ [c]) else Inl ENOTDIR
           | Some (FOther _) \<Rightarrow> if cs = [] then Inr (rooted, dest @ [c]) else Inl ENOTDIR
           | Some (FLink t) \<Rightarrow>
               if links = 0 then Inl ELOOP
               else if is_abs t then ewalk fs cwd (links - 1) True [] (split_char slash t @ cs)
               else ewalk fs cwd (links - 1) rooted dest (split_char slash t @ cs))"
  by pat_completeness auto
termination
  by (relation "measures [\<lambda>(fs, cwd, links, rooted, dest, cs). links, \<lambda>(fs, cwd, links, rooted, dest, cs). length cs]") auto

definition go_links :: nat where "go_links = 255"

definition eval_symlinks :: "fsys \<Rightarrow> fpath \<Rightarrow> string \<Rightarrow> walk_error + string" where
  "eval_symlinks fs cwd p =
     map_sum id (\<lambda>(rooted, dest). spell_path rooted dest)
       (ewalk fs cwd go_links (is_abs p) [] (split_char slash p))"

section \<open>The two walks agree on rooted paths\<close>

lemma butlast_dest_up [simp]: "\<forall>c \<in> set dest. c \<noteq> ''..'' \<Longrightarrow> dest_up True dest = butlast dest"
  by (cases "dest = []") (auto simp: dest_up_def)

lemma climb_plain: "\<forall>c \<in> set dest. c \<noteq> ''..'' \<Longrightarrow> climb cur dest = cur @ dest"
  by (induction dest arbitrary: cur) auto

lemma dest_real_rooted: "\<forall>c \<in> set dest. c \<noteq> ''..'' \<Longrightarrow> dest_real cwd True dest = dest"
  by (simp add: dest_real_def climb_plain)

lemma ewalk_rooted:
  assumes "\<forall>c \<in> set dest. c \<noteq> ''..''"
  shows "ewalk fs cwd links True dest cs = map_sum id (Pair True) (kwalk fs links dest cs)"
  using assms
proof (induction fs links dest cs rule: kwalk.induct)
  case (1 fs links cur)
  then show ?case by simp
next
  case (2 fs links cur c cs)
  have up: "\<forall>d \<in> set (butlast cur). d \<noteq> ''..''" using "2.prems" by (auto dest: in_set_butlastD)
  consider (skip) "c = [] \<or> c = ''.''" | (up) "c = ''..''"
    | (plain) "\<not> (c = [] \<or> c = ''.'')" "c \<noteq> ''..''" by blast
  then show ?case
  proof cases
    case skip
    with "2.IH"(1) "2.prems" show ?thesis by simp
  next
    case up
    then have "\<not> (c = [] \<or> c = ''.'')" by simp
    with "2.IH"(2) \<open>\<forall>d \<in> set (butlast cur). d \<noteq> ''..''\<close> up "2.prems" show ?thesis by simp
  next
    case plain
    then have pl: "\<forall>d \<in> set (cur @ [c]). d \<noteq> ''..''" using "2.prems" by simp
    have real: "dest_real cwd True (cur @ [c]) = cur @ [c]" by (rule dest_real_rooted [OF pl])
    show ?thesis
    proof (cases "fs_node fs (cur @ [c])")
      case None
      with plain real show ?thesis by simp
    next
      case (Some nd)
      show ?thesis
      proof (cases nd)
        case FDir
        with "2.IH"(3) [OF plain Some FDir pl] plain real Some show ?thesis by simp
      next
        case (FFile x)
        with plain real Some show ?thesis by simp
      next
        case (FOther x)
        with plain real Some show ?thesis by simp
      next
        case (FLink t)
        show ?thesis
        proof (cases "links = 0")
          case True
          with plain real Some FLink show ?thesis by simp
        next
          case False
          have "\<forall>d \<in> set (if is_abs t then [] else cur). d \<noteq> ''..''" using "2.prems" by simp
          with "2.IH"(4) [OF plain Some FLink False] plain real Some FLink False
          show ?thesis by (simp split: if_split_asm)
        qed
      qed
    qed
  qed
qed

lemma kwalk_more_links:
  "kwalk fs links cur cs = Inr r \<Longrightarrow> links \<le> links' \<Longrightarrow> kwalk fs links' cur cs = Inr r"
proof (induction fs links cur cs arbitrary: links' rule: kwalk.induct)
  case (1 fs links cur)
  then show ?case by simp
next
  case (2 fs links cur c cs)
  consider (skip) "c = [] \<or> c = ''.''" | (up) "c = ''..''"
    | (plain) "\<not> (c = [] \<or> c = ''.'')" "c \<noteq> ''..''" by blast
  then show ?case
  proof cases
    case skip
    with "2.IH"(1) [OF skip _ "2.prems"(2)] "2.prems"(1) show ?thesis by simp
  next
    case up
    then have n: "\<not> (c = [] \<or> c = ''.'')" by simp
    from "2.IH"(2) [OF n up _ "2.prems"(2)] up "2.prems"(1) show ?thesis by simp
  next
    case plain
    show ?thesis
    proof (cases "fs_node fs (cur @ [c])")
      case None
      with "2.prems"(1) plain show ?thesis by simp
    next
      case (Some nd)
      show ?thesis
      proof (cases nd)
        case FDir
        with "2.IH"(3) [OF plain Some FDir _ "2.prems"(2)] "2.prems"(1) plain Some
        show ?thesis by simp
      next
        case (FFile x)
        with "2.prems"(1) plain Some show ?thesis by (simp split: if_split_asm)
      next
        case (FOther x)
        with "2.prems"(1) plain Some show ?thesis by (simp split: if_split_asm)
      next
        case (FLink t)
        with "2.prems"(1) plain Some have l0: "links \<noteq> 0" by (cases "links = 0") simp_all
        with "2.prems"(2) have "links' \<noteq> 0" and le: "links - 1 \<le> links' - 1" by auto
        with "2.IH"(4) [OF plain Some FLink l0 _ le] "2.prems"(1) plain Some FLink l0
        show ?thesis by simp
      qed
    qed
  qed
qed

text \<open>
  Without \<open>..\<close> in the path, dropping the empty and \<open>.\<close> names does not change where a successful
  walk ends.
\<close>

definition walk_names :: "string list \<Rightarrow> string list" where
  "walk_names cs = filter (\<lambda>c. c \<noteq> [] \<and> c \<noteq> ''.'') cs"

lemma walk_names_simps [simp]:
  "walk_names [] = []"
  "walk_names (c # cs) = (if c = [] \<or> c = ''.'' then walk_names cs else c # walk_names cs)"
  "walk_names (xs @ ys) = walk_names xs @ walk_names ys"
  by (auto simp: walk_names_def)

lemma kwalk_walk_names:
  "kwalk fs links cur (xs @ cs) = Inr r \<Longrightarrow> kwalk fs links cur (xs @ walk_names cs) = Inr r"
proof (induction fs links cur "xs @ cs" arbitrary: xs cs rule: kwalk.induct)
  case (1 fs links cur)
  then show ?case by simp
next
  case (2 fs links cur c rest)
  have step: "kwalk fs links cur (c # xs' @ walk_names cs') = Inr r"
    if rest: "rest = xs' @ cs'" for xs' cs'
  proof -
    consider (skip) "c = [] \<or> c = ''.''" | (up) "c = ''..''"
      | (plain) "\<not> (c = [] \<or> c = ''.'')" "c \<noteq> ''..''" by blast
    then show ?thesis
    proof cases
      case skip
      from "2.prems" "2.hyps"(5) [symmetric] rest have "kwalk fs links cur (c # xs' @ cs') = Inr r" by simp
      with "2.hyps"(1) [OF skip rest] skip show ?thesis by simp
    next
      case up
      then have n: "\<not> (c = [] \<or> c = ''.'')" by simp
      from "2.hyps"(2) [OF n up rest] up "2.prems" "2.hyps"(5) [symmetric] rest show ?thesis by simp
    next
      case plain
      have prem: "kwalk fs links cur (c # xs' @ cs') = Inr r" using "2.prems" "2.hyps"(5) rest by simp
      show ?thesis
      proof (cases "fs_node fs (cur @ [c])")
        case None
        with prem plain show ?thesis by simp
      next
        case (Some nd)
        show ?thesis
        proof (cases nd)
          case FDir
          from "2.hyps"(3) [OF plain Some FDir rest] prem plain Some FDir rest show ?thesis by simp
        next
          case (FFile x)
          with prem plain Some show ?thesis by (simp split: if_split_asm)
        next
          case (FOther x)
          with prem plain Some show ?thesis by (simp split: if_split_asm)
        next
          case (FLink t)
          with prem plain Some have l0: "links \<noteq> 0" by (cases "links = 0") simp_all
          have eq: "split_char slash t @ rest = (split_char slash t @ xs') @ cs'" using rest by simp
          from "2.hyps"(4) [OF plain Some FLink l0 eq] prem plain Some FLink l0 rest
          show ?thesis by simp
        qed
      qed
    qed
  qed
  show ?case
  proof (cases xs)
    case (Cons x xs')
    with "2.hyps"(5) step [of xs' cs] show ?thesis by simp
  next
    case Nil
    with "2.hyps"(5) have cs: "cs = c # rest" by simp
    show ?thesis
    proof (cases "c = [] \<or> c = ''.''")
      case True
      with step [of "[]" rest] Nil cs show ?thesis by simp
    next
      case False
      with step [of "[]" rest] Nil cs show ?thesis by simp
    qed
  qed
qed

lemma clean_comps_no_dotdot:
  "''..'' \<notin> set cs \<Longrightarrow> clean_comps r st cs = rev st @ walk_names cs"
  by (induction cs arbitrary: st) auto

lemma kwalk_comps:
  assumes "\<forall>d \<in> set cur. plain_comp d \<and> d \<noteq> ''..''" and "\<forall>c \<in> set cs. slash \<notin> set c"
    and "kwalk fs links cur cs = Inr r"
  shows "\<forall>d \<in> set r. plain_comp d \<and> d \<noteq> ''..''"
  using assms
proof (induction fs links cur cs rule: kwalk.induct)
  case (1 fs links cur)
  then show ?case by simp
next
  case (2 fs links cur c cs)
  consider (skip) "c = [] \<or> c = ''.''" | (up) "c = ''..''"
    | (plain) "\<not> (c = [] \<or> c = ''.'')" "c \<noteq> ''..''" by blast
  then show ?case
  proof cases
    case skip
    with "2.IH"(1) [OF skip] "2.prems" show ?thesis by simp
  next
    case up
    then have n: "\<not> (c = [] \<or> c = ''.'')" by simp
    have "\<forall>d \<in> set (butlast cur). plain_comp d \<and> d \<noteq> ''..''"
      using "2.prems"(1) by (auto dest: in_set_butlastD)
    with "2.IH"(2) [OF n up] up "2.prems"(2,3) show ?thesis by simp
  next
    case plain
    have snoc: "\<forall>d \<in> set (cur @ [c]). plain_comp d \<and> d \<noteq> ''..''"
      using "2.prems"(1,2) plain by (simp add: plain_comp_def)
    show ?thesis
    proof (cases "fs_node fs (cur @ [c])")
      case None
      with "2.prems"(3) plain show ?thesis by simp
    next
      case (Some nd)
      show ?thesis
      proof (cases nd)
        case FDir
        with "2.IH"(3) [OF plain Some FDir snoc] "2.prems"(2,3) plain Some show ?thesis by simp
      next
        case (FFile x)
        with "2.prems"(3) plain Some have "r = cur @ [c]" by (simp split: if_split_asm)
        with snoc show ?thesis by simp
      next
        case (FOther x)
        with "2.prems"(3) plain Some have "r = cur @ [c]" by (simp split: if_split_asm)
        with snoc show ?thesis by simp
      next
        case (FLink t)
        with "2.prems"(3) plain Some have l0: "links \<noteq> 0" by (cases "links = 0") simp_all
        have cur: "\<forall>d \<in> set (if is_abs t then [] else cur). plain_comp d \<and> d \<noteq> ''..''"
          using "2.prems"(1) by simp
        have cs: "\<forall>d \<in> set (split_char slash t @ cs). slash \<notin> set d"
          using "2.prems"(2) by (auto dest: split_char_sep)
        from "2.IH"(4) [OF plain Some FLink l0 cur cs] "2.prems"(3) plain Some FLink l0
        show ?thesis by simp
      qed
    qed
  qed
qed

lemma path_comps_names:
  "''..'' \<notin> set (split_char slash p) \<Longrightarrow> path_comps p = walk_names (split_char slash p)"
  by (simp add: path_comps_def clean_comps_no_dotdot)

text \<open>
  The kernel and \<open>EvalSymlinks\<close> of the cleaned path reach the same place, for a rooted path
  without \<open>..\<close> that the kernel can walk; the result is spelled by its real names.
\<close>

lemma resolve_eval_symlinks:
  assumes ab: "is_abs p" and nd: "''..'' \<notin> set (split_char slash p)"
    and res: "resolve fs cwd p = Inr r"
  shows "eval_symlinks fs cwd (path_clean p) = Inr (spell_path True r)"
    and "clean_ok True r"
proof -
  let ?ns = "walk_names (split_char slash p)"
  have k: "kwalk fs kernel_links [] (split_char slash p) = Inr r"
    using res ab by (simp add: resolve_def start_dir_def split: if_split_asm)
  then have "kwalk fs go_links [] (split_char slash p) = Inr r"
    by (rule kwalk_more_links) (simp add: kernel_links_def go_links_def)
  then have kn: "kwalk fs go_links [] ?ns = Inr r"
    using kwalk_walk_names [of fs go_links "[]" "[]"] by simp
  have clean: "path_clean p = slash # join_char slash ?ns"
    using ab nd by (simp add: path_clean_spell spell_path_def path_comps_names)
  have ns: "\<forall>c \<in> set ?ns. slash \<notin> set c"
    by (auto simp: walk_names_def dest: split_char_sep)
  have "split_char slash (path_clean p) = [] # (if ?ns = [] then [[]] else ?ns)"
    using ns by (simp add: clean split_join_char)
  with kn have "kwalk fs go_links [] (split_char slash (path_clean p)) = Inr r"
    by (cases "?ns = []") simp_all
  with ab show "eval_symlinks fs cwd (path_clean p) = Inr (spell_path True r)"
    by (simp add: eval_symlinks_def ewalk_rooted)
  have "\<forall>d \<in> set r. plain_comp d \<and> d \<noteq> ''..''"
    by (rule kwalk_comps [OF _ _ k]) (auto dest: split_char_sep)
  then show "clean_ok True r" by (intro clean_okI [of r 0 r]) auto
qed

end
