(* ===== verification/Path_Guard.thy ===== *)
theory Path_Guard
  imports File_System
begin

text \<open>
  The agent's path guard (\<open>internal/sysplane-agent/fileops/guard.go\<close>): a list of blocked and a
  list of allowed directories, compared as strings with the path's real spelling.  The main
  theorem says what a passed check promises about the file the kernel then opens; the last one
  shows the two kinds of path for which it promises nothing.
\<close>

section \<open>The guard\<close>

record path_guard =
  pg_allowed :: "string list"
  pg_blocked :: "string list"

definition clean_prefixes :: "string list \<Rightarrow> string list" where
  "clean_prefixes paths =
     map (\<lambda>p. let c = path_clean p in if \<not> has_suffix c ''/'' then c @ ''/'' else c) paths"

definition new_path_guard :: "string list \<Rightarrow> string list \<Rightarrow> path_guard" where
  "new_path_guard allowed blocked =
     \<lparr> pg_allowed = clean_prefixes allowed, pg_blocked = clean_prefixes blocked \<rparr>"

definition guard_check :: "fsys \<Rightarrow> fpath \<Rightarrow> path_guard \<Rightarrow> string \<Rightarrow> unit go_result" where
  "guard_check fs cwd g path =
     (let cleaned = path_clean path;
          real = (case eval_symlinks fs cwd cleaned of Inl _ \<Rightarrow> cleaned | Inr r \<Rightarrow> r);
          candidate = (if \<not> has_suffix real ''/'' then real @ ''/'' else real)
      in if list_ex (\<lambda>b. has_prefix candidate b) (pg_blocked g)
         then Inl (''fileops: path '' @ go_quote path @ '' is blocked'')
         else if pg_allowed g = [] then Inr ()
         else if list_ex (\<lambda>a. has_prefix candidate a) (pg_allowed g) then Inr ()
         else Inl (''fileops: path '' @ go_quote path @ '' is not in allowed paths''))"

section \<open>Prefix strings are directory prefixes\<close>

lemma clean_prefixes_with_sep: "clean_prefixes ps = map (\<lambda>p. with_sep (path_clean p)) ps"
  by (simp add: clean_prefixes_def with_sep_def Let_def)

lemma spell_path_clean: "clean_ok r cs \<Longrightarrow> path_clean (spell_path r cs) = spell_path r cs"
  by (simp add: path_clean_spell path_comps_spell)

lemma relative_no_prefix:
  assumes "is_abs p" and "\<not> is_abs q"
  shows "\<not> has_prefix (with_sep (path_clean p)) (with_sep (path_clean q))"
proof -
  have "\<not> is_abs (path_clean q)" and "path_clean q \<noteq> []" using assms(2) by simp_all
  then obtain c cs where q: "path_clean q = c # cs" and "c \<noteq> slash"
    by (cases "path_clean q") auto
  have "is_abs (path_clean p)" using assms(1) by simp
  then obtain ps where "path_clean p = slash # ps" by (auto simp: is_abs_iff)
  with q \<open>c \<noteq> slash\<close> show ?thesis by (auto simp: with_sep_def has_prefix_iff)
qed

text \<open>An entry of a list, as a directory: a rooted entry covers what lies below it.\<close>

definition covers :: "string \<Rightarrow> fpath \<Rightarrow> bool" where
  "covers entry r \<longleftrightarrow> is_abs entry \<and> prefix (path_comps entry) r"

lemma spelled_prefix_covers:
  assumes "clean_ok True r"
  shows "has_prefix (with_sep (spell_path True r)) (with_sep (path_clean e)) \<longleftrightarrow> covers e r"
proof -
  have ab: "is_abs (spell_path True r)" using assms by simp
  have pc: "path_clean (spell_path True r) = spell_path True r"
    using assms by (rule spell_path_clean)
  show ?thesis
  proof (cases "is_abs e")
    case True
    with with_sep_prefix_iff [OF ab True] assms pc show ?thesis
      by (simp add: covers_def path_comps_spell)
  next
    case False
    with relative_no_prefix [OF ab False] pc show ?thesis by (simp add: covers_def)
  qed
qed

text \<open>What the guard decides for a path whose real spelling is known.\<close>

lemma guard_check_real:
  assumes "clean_ok True r" and "eval_symlinks fs cwd (path_clean p) = Inr (spell_path True r)"
  shows "guard_check fs cwd (new_path_guard allowed blocked) p = Inr () \<longleftrightarrow>
         (\<forall>b \<in> set blocked. \<not> covers b r) \<and> (allowed = [] \<or> (\<exists>a \<in> set allowed. covers a r))"
proof -
  have cand: "(if \<not> has_suffix s ''/'' then s @ ''/'' else s) = with_sep s" for s
    by (simp add: with_sep_def)
  have bl: "list_ex (\<lambda>b. has_prefix (with_sep (spell_path True r)) b) (clean_prefixes ps) \<longleftrightarrow>
            (\<exists>b \<in> set ps. covers b r)" for ps
    by (simp add: clean_prefixes_with_sep list_ex_iff spelled_prefix_covers [OF assms(1)])
  have em: "clean_prefixes allowed = [] \<longleftrightarrow> allowed = []" by (simp add: clean_prefixes_def)
  show ?thesis
    by (simp add: guard_check_def new_path_guard_def Let_def assms(2) cand bl em)
qed

section \<open>What the guard promises\<close>

text \<open>C1: for a rooted path that spells no \<open>..\<close> and that the kernel can walk to \<open>r\<close>, the path
  guard decides exactly by \<open>r\<close>: the check passes if and only if no rooted blocked entry lies at
  or above \<open>r\<close> and, when the allow list is not empty, some rooted allowed entry does.  Symbolic
  links anywhere in the path, names that merely start like an entry (\<open>/proc2\<close>), doubled
  separators and \<open>.\<close> do not change the decision.\<close>

theorem guard_exact:
  assumes "is_abs p" and "''..'' \<notin> set (split_char slash p)" and "resolve fs cwd p = Inr r"
  shows "guard_check fs cwd (new_path_guard allowed blocked) p = Inr () \<longleftrightarrow>
         (\<forall>b \<in> set blocked. \<not> covers b r) \<and> (allowed = [] \<or> (\<exists>a \<in> set allowed. covers a r))"
  by (rule guard_check_real) (rule resolve_eval_symlinks [OF assms])+

section \<open>A small file system\<close>

text \<open>\<open>/var/run\<close> is a link to \<open>/run\<close>, as on current Linux systems, and an operator's home
  holds a link to \<open>/etc\<close>.\<close>

definition sample_fs :: fsys where
  "sample_fs =
     [ ([''etc''], FDir), ([''etc'', ''shadow''], FFile ''secret''),
       ([''run''], FDir), ([''var''], FDir), ([''var'', ''run''], FLink ''/run''),
       ([''home''], FDir), ([''home'', ''op''], FDir),
       ([''home'', ''op'', ''conf''], FLink ''/etc''),
       ([''home'', ''op'', ''notes''], FFile ''hello'') ]"

lemmas walk_eval = resolve_def kernel_links_def start_dir_def sample_fs_def fs_node_def
  eval_symlinks_def go_links_def dest_real_def dest_up_def path_clean_def spell_path_def
  guard_check_def new_path_guard_def clean_prefixes_def has_suffix_def has_prefix_def is_abs_def

theorem guard_exact_witness:
  "resolve sample_fs [] ''/home/op//conf/./shadow'' = Inr [''etc'', ''shadow''] \<and>
   guard_check sample_fs [] (new_path_guard [''/home/op''] [''/root'']) ''/home/op//conf/./shadow'' \<noteq> Inr ()"
proof -
  have r: "resolve sample_fs [] ''/home/op//conf/./shadow'' = Inr [''etc'', ''shadow'']"
    by code_simp
  moreover have "is_abs ''/home/op//conf/./shadow''" by simp
  moreover have "''..'' \<notin> set (split_char slash ''/home/op//conf/./shadow'')" by code_simp
  ultimately have "guard_check sample_fs [] (new_path_guard [''/home/op''] [''/root'']) ''/home/op//conf/./shadow'' = Inr ()
     \<longleftrightarrow> (\<forall>b \<in> set [''/root'']. \<not> covers b [''etc'', ''shadow'']) \<and>
         ([''/home/op''] = [] \<or> (\<exists>a \<in> set [''/home/op'']. covers a [''etc'', ''shadow'']))"
    by (intro guard_exact)
  moreover have "\<not> covers ''/home/op'' [''etc'', ''shadow'']" by code_simp
  ultimately show ?thesis using r by simp
qed

text \<open>the two escapes the guard leaves open.  A path that climbs with \<open>..\<close> out of a link is
  cleaned lexically before its links are resolved, so the guard judges \<open>/var/etc/shadow\<close>, which
  does not exist, while the kernel opens \<open>/etc/shadow\<close>: the check passes with \<open>/etc\<close> blocked and
  only \<open>/var\<close> allowed.  A relative path is judged by its relative spelling, which no rooted entry
  is a prefix of, so it passes every block list.\<close>

theorem guard_escapes:
  "guard_check sample_fs [] (new_path_guard [''/var''] [''/etc'']) ''/var/run/../etc/shadow'' = Inr () \<and>
   resolve sample_fs [] ''/var/run/../etc/shadow'' = Inr [''etc'', ''shadow''] \<and>
   guard_check sample_fs [''home''] (new_path_guard [] [''/etc'']) ''../etc/shadow'' = Inr () \<and>
   resolve sample_fs [''home''] ''../etc/shadow'' = Inr [''etc'', ''shadow'']"
  by code_simp

end
