(* ===== verification/File_Ops.thy ===== *)
theory File_Ops
  imports Path_Guard "HOL-Library.List_Lexorder" "HOL-Library.Char_ord"
begin

text \<open>
  The agent's file tools (\<open>internal/sysplane-agent/fileops\<close>): \<open>ReadFile\<close>, \<open>ListDirectory\<close>,
  \<open>StatFile\<close>, \<open>CheckPathExists\<close>, \<open>SearchFileContent\<close> and \<open>WriteFile\<close>.  Each takes the outcome of
  decoding its JSON arguments and returns the result it would encode; \<open>write_file\<close> also returns the
  file system it leaves.  A file does not change while a tool reads it.
\<close>

section \<open>The environment of a call\<close>

record file_meta =
  fm_size :: int
  fm_perm :: string
  fm_mtime :: int

record file_env =
  fe_fs :: fsys
  fe_cwd :: fpath
  fe_meta :: "fpath \<Rightarrow> file_meta"

fun errno_text :: "walk_error \<Rightarrow> string" where
  "errno_text ENOENT = ''no such file or directory''"
| "errno_text ENOTDIR = ''not a directory''"
| "errno_text ELOOP = ''too many levels of symbolic links''"

fun create_text :: "create_error \<Rightarrow> string" where
  "create_text (CreateWalk e) = errno_text e"
| "create_text EEXIST = ''file exists''"
| "create_text EISDIR = ''is a directory''"

definition path_error :: "string \<Rightarrow> string \<Rightarrow> string \<Rightarrow> string" where
  "path_error what p msg = what @ '' '' @ p @ '': '' @ msg"

definition os_open :: "file_env \<Rightarrow> string \<Rightarrow> walk_error + (fpath \<times> fnode)" where
  "os_open env p = os_stat (fe_fs env) (fe_cwd env) p"

fun node_bytes :: "fnode \<Rightarrow> string" where
  "node_bytes (FFile s) = s"
| "node_bytes (FOther s) = s"
| "node_bytes _ = []"

text \<open>
  A context that is cancelled after a number of further polls, with its error; \<open>None\<close> is never
  cancelled.  \<open>poll\<close> is the \<open>select\<close> on \<open>ctx.Done()\<close> with a default branch.
\<close>

type_synonym go_ctx = "(nat \<times> string) option"

fun poll :: "go_ctx \<Rightarrow> go_ctx go_result" where
  "poll None = Inr None"
| "poll (Some (0, e)) = Inl e"
| "poll (Some (Suc n, e)) = Inr (Some (n, e))"

section \<open>\<open>bufio.Scanner\<close> over lines\<close>

abbreviation nl :: char where "nl \<equiv> CHR 0x0A"

definition raw_lines :: "string \<Rightarrow> string list" where
  "raw_lines s = (if s = [] then [] else let ps = split_char nl s in if last ps = [] then butlast ps else ps)"

definition drop_cr :: "string \<Rightarrow> string" where
  "drop_cr l = (if l \<noteq> [] \<and> last l = CHR 0x0D then butlast l else l)"

text \<open>A line with its terminator has to fit the scanner's buffer.\<close>

definition too_long :: "int \<Rightarrow> string \<Rightarrow> bool" where
  "too_long buf l \<longleftrightarrow> buf \<le> int (length l)"

definition scan_error :: string where
  "scan_error = ''bufio.Scanner: token too long''"

definition default_scan_buf :: int where "default_scan_buf = 65536"

section \<open>\<open>ReadFile\<close>\<close>

record read_params =
  rp_path :: string
  rp_encoding :: string
  rp_offset :: int
  rp_length :: int
  rp_head :: int
  rp_tail :: int
  rp_max_lines :: int

record read_result =
  rr_path :: string
  rr_content :: string
  rr_encoding :: string
  rr_lines :: int
  rr_truncated :: bool
  rr_is_binary :: bool
  rr_size :: int

definition binary_check_bytes :: nat where "binary_check_bytes = 512"

definition join_lines :: "string list \<Rightarrow> string" where
  "join_lines ls = (if ls = [] then [] else concat (map (\<lambda>l. l @ [nl]) (butlast ls)) @ last ls)"

fun lines_loop :: "int \<Rightarrow> int \<Rightarrow> go_ctx \<Rightarrow> string list \<Rightarrow> string list \<Rightarrow> (string list \<times> bool) go_result" where
  "lines_loop head_n max_n ctx acc [] = Inr (acc, False)"
| "lines_loop head_n max_n ctx acc (raw # raws) =
     (if too_long default_scan_buf raw then Inl (''read_file: scan: '' @ scan_error)
      else case poll ctx of
        Inl e \<Rightarrow> Inl e
      | Inr ctx' \<Rightarrow>
          let acc' = acc @ [drop_cr raw] in
          if head_n > 0 \<and> int (length acc') \<ge> head_n then Inr (acc', True)
          else if max_n > 0 \<and> int (length acc') \<ge> max_n then Inr (acc', True)
          else lines_loop head_n max_n ctx' acc' raws)"

fun tail_loop :: "nat \<Rightarrow> go_ctx \<Rightarrow> string list \<Rightarrow> nat \<Rightarrow> nat \<Rightarrow> string list \<Rightarrow> (string list \<times> nat \<times> nat) go_result" where
  "tail_loop n ctx ring idx seen [] = Inr (ring, idx, seen)"
| "tail_loop n ctx ring idx seen (raw # raws) =
     (if too_long default_scan_buf raw then Inl (''read_file tail: '' @ scan_error)
      else case poll ctx of
        Inl e \<Rightarrow> Inl e
      | Inr ctx' \<Rightarrow> tail_loop n ctx' (ring[idx mod n := drop_cr raw]) (idx + 1) (seen + 1) raws)"

definition read_tail :: "go_ctx \<Rightarrow> string \<Rightarrow> string \<Rightarrow> nat \<Rightarrow> int \<Rightarrow> read_result go_result" where
  "read_tail ctx path content n size_bytes =
     (case tail_loop n ctx (replicate n []) 0 0 (raw_lines content) of
        Inl e \<Rightarrow> Inl e
      | Inr (ring, idx, seen) \<Rightarrow>
          let ls = (if seen \<le> n then take seen ring
                    else let start = idx mod n in drop start ring @ take start ring)
          in Inr \<lparr> rr_path = path, rr_content = join_lines ls, rr_encoding = ''text'',
                   rr_lines = int (length ls), rr_truncated = (seen > n), rr_is_binary = False,
                   rr_size = size_bytes \<rparr>)"

definition read_range :: "go_ctx \<Rightarrow> read_params \<Rightarrow> string \<Rightarrow> int \<Rightarrow> read_result go_result" where
  "read_range ctx p content size_bytes =
     (if rp_offset p < 0 then Inl ''read_file: offset must be >= 0''
      else let len = (if rp_length p \<le> 0 then 4096 else rp_length p);
               remaining = max 0 (size_bytes - rp_offset p);
               read_len = min len remaining;
               buf = take (nat read_len) (drop (nat (rp_offset p)) content)
           in case poll ctx of
                Inl e \<Rightarrow> Inl e
              | Inr _ \<Rightarrow>
                  Inr \<lparr> rr_path = rp_path p, rr_content = buf, rr_encoding = ''utf-8'',
                        rr_lines = int (length (filter (\<lambda>c. c = nl) buf)) + 1,
                        rr_truncated = (rp_offset p + int (length buf) < size_bytes),
                        rr_is_binary = False, rr_size = size_bytes \<rparr>)"

definition read_file :: "file_env \<Rightarrow> path_guard \<Rightarrow> int \<Rightarrow> go_ctx \<Rightarrow> read_params go_result \<Rightarrow> read_result go_result" where
  "read_file env g max_mb ctx args =
     (case args of
        Inl e \<Rightarrow> Inl (''read_file: invalid args: '' @ e)
      | Inr p \<Rightarrow>
     (case guard_check (fe_fs env) (fe_cwd env) g (rp_path p) of
        Inl e \<Rightarrow> Inl e
      | Inr _ \<Rightarrow>
     (case os_stat (fe_fs env) (fe_cwd env) (rp_path p) of
        Inl e \<Rightarrow> Inl (''read_file: '' @ path_error ''stat'' (rp_path p) (errno_text e))
      | Inr (dest, node) \<Rightarrow>
     if node = FDir then Inl (''read_file: '' @ go_quote (rp_path p) @ '' is a directory'')
     else let size_bytes = fm_size (fe_meta env dest) in
     (case os_open env (rp_path p) of
        Inl e \<Rightarrow> Inl (''read_file: '' @ path_error ''open'' (rp_path p) (errno_text e))
      | Inr (_, opened) \<Rightarrow>
     let content = node_bytes opened; max_bytes = wrap64 (max_mb * 1024 * 1024) in
     if CHR 0x00 \<in> set (take binary_check_bytes content) then
       Inr \<lparr> rr_path = rp_path p, rr_content = [], rr_encoding = ''text'', rr_lines = 0,
             rr_truncated = False, rr_is_binary = True, rr_size = size_bytes \<rparr>
     else if size_bytes > max_bytes then
       Inl (''read_file: file size '' @ dec_of_int size_bytes @ '' bytes exceeds limit ''
            @ dec_of_int max_bytes @ '' bytes'')
     else if rp_offset p > 0 \<or> rp_length p > 0 then read_range ctx p content size_bytes
     else if rp_tail p > 0 then read_tail ctx (rp_path p) content (nat (rp_tail p)) size_bytes
     else
     (case lines_loop (rp_head p) (rp_max_lines p) ctx [] (raw_lines content) of
        Inl e \<Rightarrow> Inl e
      | Inr (ls, truncated) \<Rightarrow>
          Inr \<lparr> rr_path = rp_path p, rr_content = join_lines ls, rr_encoding = ''text'',
                rr_lines = int (length ls), rr_truncated = truncated, rr_is_binary = False,
                rr_size = size_bytes \<rparr>)))))"

section \<open>\<open>ListDirectory\<close>\<close>

record list_params =
  lp_path :: string
  lp_show_hidden :: bool

record file_entry =
  en_name :: string
  en_type :: string
  en_size :: int
  en_mtime :: int
  en_perm :: string

record list_result =
  lr_path :: string
  lr_items :: "file_entry list"
  lr_total :: int

fun entry_type :: "fnode \<Rightarrow> string" where
  "entry_type FDir = ''directory''"
| "entry_type (FLink _) = ''symlink''"
| "entry_type (FFile _) = ''file''"
| "entry_type (FOther _) = ''other''"

text \<open>\<open>os.ReadDir\<close> returns the entries of a directory sorted by name.\<close>

definition dir_names :: "fsys \<Rightarrow> fpath \<Rightarrow> string list" where
  "dir_names fs dir = sort (remdups (map last (filter (\<lambda>k. k \<noteq> [] \<and> butlast k = dir) (gkeys fs))))"

definition os_read_dir :: "file_env \<Rightarrow> string \<Rightarrow> walk_error + (fpath \<times> string list)" where
  "os_read_dir env p =
     (case os_stat (fe_fs env) (fe_cwd env) p of
        Inl e \<Rightarrow> Inl e
      | Inr (dest, node) \<Rightarrow> if node = FDir then Inr (dest, dir_names (fe_fs env) dest) else Inl ENOTDIR)"

definition hidden_name :: "string \<Rightarrow> bool" where
  "hidden_name nm \<longleftrightarrow> nm \<noteq> [] \<and> hd nm = CHR ''.''"

fun list_loop :: "file_env \<Rightarrow> fpath \<Rightarrow> bool \<Rightarrow> go_ctx \<Rightarrow> file_entry list \<Rightarrow> string list \<Rightarrow> file_entry list go_result" where
  "list_loop env dir show_hidden ctx items [] = Inr items"
| "list_loop env dir show_hidden ctx items (nm # nms) =
     (case poll ctx of
        Inl e \<Rightarrow> Inl e
      | Inr ctx' \<Rightarrow>
          if \<not> show_hidden \<and> hidden_name nm then list_loop env dir show_hidden ctx' items nms
          else (case fs_node (fe_fs env) (dir @ [nm]) of
                  None \<Rightarrow> list_loop env dir show_hidden ctx' items nms
                | Some node \<Rightarrow>
                    let m = fe_meta env (dir @ [nm]) in
                    list_loop env dir show_hidden ctx'
                      (items @ [\<lparr> en_name = nm, en_type = entry_type node, en_size = fm_size m,
                                 en_mtime = fm_mtime m, en_perm = fm_perm m \<rparr>]) nms))"

definition list_directory :: "file_env \<Rightarrow> path_guard \<Rightarrow> go_ctx \<Rightarrow> list_params go_result \<Rightarrow> list_result go_result" where
  "list_directory env g ctx args =
     (case args of
        Inl e \<Rightarrow> Inl (''list_directory: invalid args: '' @ e)
      | Inr p \<Rightarrow>
     (case guard_check (fe_fs env) (fe_cwd env) g (lp_path p) of
        Inl e \<Rightarrow> Inl e
      | Inr _ \<Rightarrow>
     (case os_read_dir env (lp_path p) of
        Inl e \<Rightarrow> Inl (''list_directory: '' @ path_error ''open'' (lp_path p) (errno_text e))
      | Inr (dest, names) \<Rightarrow>
     (case list_loop env dest (lp_show_hidden p) ctx [] names of
        Inl e \<Rightarrow> Inl e
      | Inr items \<Rightarrow>
          Inr \<lparr> lr_path = path_clean (lp_path p), lr_items = items,
                lr_total = int (length items) \<rparr>))))"

section \<open>\<open>StatFile\<close> and \<open>CheckPathExists\<close>\<close>

record stat_result =
  st_path :: string
  st_name :: string
  st_type :: string
  st_size :: int
  st_perm :: string
  st_mtime :: int
  st_is_symlink :: bool
  st_link_target :: string

text \<open>The name \<open>os.Lstat\<close> puts into its result.\<close>

definition base_name :: "string \<Rightarrow> string" where
  "base_name p =
     (let d = dropWhile (\<lambda>c. c = slash) (rev p);
          t = (if d = [] then take 1 p else rev d)
      in if length t \<le> 1 then t else last (split_char slash t))"

fun link_target :: "fnode \<Rightarrow> string" where
  "link_target (FLink t) = t"
| "link_target _ = []"

fun is_link :: "fnode \<Rightarrow> bool" where
  "is_link (FLink _) = True"
| "is_link _ = False"

definition stat_file :: "file_env \<Rightarrow> path_guard \<Rightarrow> string go_result \<Rightarrow> stat_result go_result" where
  "stat_file env g args =
     (case args of
        Inl e \<Rightarrow> Inl (''stat_file: invalid args: '' @ e)
      | Inr path \<Rightarrow>
     (case guard_check (fe_fs env) (fe_cwd env) g path of
        Inl e \<Rightarrow> Inl e
      | Inr _ \<Rightarrow>
     (case os_lstat (fe_fs env) (fe_cwd env) path of
        Inl e \<Rightarrow> Inl (''stat_file: '' @ path_error ''lstat'' path (errno_text e))
      | Inr (dest, node) \<Rightarrow>
          let m = fe_meta env dest in
          Inr \<lparr> st_path = path_clean path, st_name = base_name path, st_type = entry_type node,
                st_size = fm_size m, st_perm = fm_perm m, st_mtime = fm_mtime m,
                st_is_symlink = is_link node, st_link_target = link_target node \<rparr>)))"

record exists_result =
  xr_path :: string
  xr_exists :: bool
  xr_type :: string

definition check_path_exists :: "file_env \<Rightarrow> path_guard \<Rightarrow> string go_result \<Rightarrow> exists_result go_result" where
  "check_path_exists env g args =
     (case args of
        Inl e \<Rightarrow> Inl (''check_path_exists: invalid args: '' @ e)
      | Inr path \<Rightarrow>
     (case guard_check (fe_fs env) (fe_cwd env) g path of
        Inl e \<Rightarrow> Inl e
      | Inr _ \<Rightarrow>
     (case os_lstat (fe_fs env) (fe_cwd env) path of
        Inl e \<Rightarrow>
          if e = ENOENT then Inr \<lparr> xr_path = path_clean path, xr_exists = False, xr_type = [] \<rparr>
          else Inl (''check_path_exists: '' @ path_error ''lstat'' path (errno_text e))
      | Inr (_, node) \<Rightarrow>
          Inr \<lparr> xr_path = path_clean path, xr_exists = True, xr_type = entry_type node \<rparr>)))"

section \<open>\<open>SearchFileContent\<close>\<close>

text \<open>
  \<open>compile\<close> stands for \<open>regexp.Compile\<close>: the matcher of a pattern, or the reason it is refused.
\<close>

record search_params =
  sp_path :: string
  sp_pattern :: string
  sp_ignore_case :: bool
  sp_invert_match :: bool
  sp_show_line_nums :: bool
  sp_count_only :: bool
  sp_context_before :: int
  sp_context_after :: int
  sp_max_matches :: int
  sp_fixed_string :: bool

record match_line =
  ml_line_num :: int
  ml_content :: string
  ml_context :: string

record search_result =
  sr_path :: string
  sr_pattern :: string
  sr_matches :: "match_line list"
  sr_count :: int

type_synonym regexp_compile = "string \<Rightarrow> (string \<Rightarrow> bool) go_result"

definition max_line_length :: int where "max_line_length = 1024 * 1024"

definition make_match_line :: "search_params \<Rightarrow> nat \<Rightarrow> string \<Rightarrow> string \<Rightarrow> match_line" where
  "make_match_line p idx content ctx =
     \<lparr> ml_line_num = (if sp_show_line_nums p then int idx + 1 else 0),
       ml_content = content, ml_context = ctx \<rparr>"

definition line_matcher :: "regexp_compile \<Rightarrow> search_params \<Rightarrow> (string \<Rightarrow> bool) go_result" where
  "line_matcher compile p =
     (if sp_fixed_string p then
        Inr (\<lambda>l. if sp_ignore_case p then str_contains (to_lower l) (to_lower (sp_pattern p))
                 else str_contains l (sp_pattern p))
      else (case compile ((if sp_ignore_case p then ''(?i)'' else []) @ sp_pattern p) of
              Inl e \<Rightarrow> Inl (''search_file_content: invalid pattern: '' @ e)
            | Inr m \<Rightarrow> Inr m))"

fun collect_lines :: "go_ctx \<Rightarrow> string list \<Rightarrow> string list \<Rightarrow> (go_ctx \<times> string list) go_result" where
  "collect_lines ctx acc [] = Inr (ctx, acc)"
| "collect_lines ctx acc (raw # raws) =
     (if too_long max_line_length raw then Inl (''search_file_content: scan: '' @ scan_error)
      else case poll ctx of
        Inl e \<Rightarrow> Inl e
      | Inr ctx' \<Rightarrow> collect_lines ctx' (acc @ [drop_cr raw]) raws)"

text \<open>The lines emitted so far, and the indices recorded as added, in the order of adding.\<close>

type_synonym search_state = "go_ctx \<times> match_line list \<times> nat list"

fun add_lines :: "search_params \<Rightarrow> string list \<Rightarrow> string \<Rightarrow> nat list \<Rightarrow> search_state \<Rightarrow> search_state go_result" where
  "add_lines p all_lines lab [] st = Inr st"
| "add_lines p all_lines lab (b # bs) (ctx, ms, added) =
     (case poll ctx of
        Inl e \<Rightarrow> Inl e
      | Inr ctx' \<Rightarrow>
          if b \<in> set added then add_lines p all_lines lab bs (ctx', ms, added)
          else add_lines p all_lines lab bs
                 (ctx', ms @ [make_match_line p b (all_lines ! b) lab], added @ [b]))"

definition before_range :: "search_params \<Rightarrow> nat \<Rightarrow> nat list" where
  "before_range p i = [nat (max 0 (wrap64 (int i - sp_context_before p))) ..< i]"

definition after_range :: "search_params \<Rightarrow> nat \<Rightarrow> nat \<Rightarrow> nat list" where
  "after_range p n i = [i + 1 ..< nat (min (int n - 1) (wrap64 (int i + sp_context_after p)) + 1)]"

fun search_loop :: "search_params \<Rightarrow> (string \<Rightarrow> bool) \<Rightarrow> string list \<Rightarrow> nat \<Rightarrow> string list \<Rightarrow> int \<Rightarrow>
    search_state \<Rightarrow> (int \<times> match_line list \<times> nat list) go_result" where
  "search_loop p m all_lines i [] count (ctx, ms, added) = Inr (count, ms, added)"
| "search_loop p m all_lines i (line # rest) count (ctx, ms, added) =
     (case poll ctx of
        Inl e \<Rightarrow> Inl e
      | Inr ctx1 \<Rightarrow>
     let matched = (if sp_invert_match p then \<not> m line else m line) in
     if \<not> matched then search_loop p m all_lines (i + 1) rest count (ctx1, ms, added)
     else if sp_count_only p then search_loop p m all_lines (i + 1) rest (count + 1) (ctx1, ms, added)
     else if sp_max_matches p > 0 \<and> count + 1 > sp_max_matches p then Inr (count + 1, ms, added)
     else
     (case add_lines p all_lines ''before'' (before_range p i) (ctx1, ms, added) of
        Inl e \<Rightarrow> Inl e
      | Inr (ctx2, ms2, added2) \<Rightarrow>
     let (ms3, added3) =
       (if i \<in> set added2 then (ms2, added2)
        else (ms2 @ [make_match_line p i line []], added2 @ [i])) in
     (case add_lines p all_lines ''after'' (after_range p (length all_lines) i) (ctx2, ms3, added3) of
        Inl e \<Rightarrow> Inl e
      | Inr st \<Rightarrow> search_loop p m all_lines (i + 1) rest (count + 1) st)))"

definition search_file_content ::
  "file_env \<Rightarrow> regexp_compile \<Rightarrow> path_guard \<Rightarrow> go_ctx \<Rightarrow> search_params go_result \<Rightarrow> search_result go_result" where
  "search_file_content env compile g ctx args =
     (case args of
        Inl e \<Rightarrow> Inl (''search_file_content: invalid args: '' @ e)
      | Inr p \<Rightarrow>
     (case guard_check (fe_fs env) (fe_cwd env) g (sp_path p) of
        Inl e \<Rightarrow> Inl e
      | Inr _ \<Rightarrow>
     if sp_pattern p = [] then Inl ''search_file_content: pattern is required''
     else
     (case line_matcher compile p of
        Inl e \<Rightarrow> Inl e
      | Inr m \<Rightarrow>
     (case os_open env (sp_path p) of
        Inl e \<Rightarrow> Inl (''search_file_content: '' @ path_error ''open'' (sp_path p) (errno_text e))
      | Inr (_, node) \<Rightarrow>
     if node = FDir then
       Inl (''search_file_content: scan: '' @ path_error ''read'' (sp_path p) ''is a directory'')
     else
     (case collect_lines ctx [] (raw_lines (node_bytes node)) of
        Inl e \<Rightarrow> Inl e
      | Inr (ctx', all_lines) \<Rightarrow>
     (case search_loop p m all_lines 0 all_lines 0 (ctx', [], []) of
        Inl e \<Rightarrow> Inl e
      | Inr (count, ms, _) \<Rightarrow>
          Inr \<lparr> sr_path = sp_path p, sr_pattern = sp_pattern p, sr_matches = ms,
                sr_count = count \<rparr>))))))"

section \<open>\<open>WriteFile\<close>\<close>

record write_params =
  wp_path :: string
  wp_content :: string
  wp_overwrite :: bool

record write_result =
  wr_path :: string
  wr_bytes_written :: int
  wr_created :: bool

text \<open>What opening for writing and writing the content does to the node it reaches: \<open>O_EXCL\<close> has
  just created it, \<open>O_TRUNC\<close> has emptied it; a device swallows the bytes.\<close>

definition write_node :: "fsys \<Rightarrow> fpath \<Rightarrow> string \<Rightarrow> fsys" where
  "write_node fs dest content =
     (case fs_node fs dest of
        Some (FOther _) \<Rightarrow> fs
      | _ \<Rightarrow> gupd dest (FFile content) fs)"

definition write_file :: "file_env \<Rightarrow> path_guard \<Rightarrow> go_ctx \<Rightarrow> write_params go_result \<Rightarrow> write_result go_result \<times> fsys" where
  "write_file env g ctx args =
     (let fs = fe_fs env in
      case args of
        Inl e \<Rightarrow> (Inl (''write_file: invalid args: '' @ e), fs)
      | Inr p \<Rightarrow>
     (case guard_check fs (fe_cwd env) g (wp_path p) of
        Inl e \<Rightarrow> (Inl e, fs)
      | Inr _ \<Rightarrow>
     (case poll ctx of
        Inl e \<Rightarrow> (Inl e, fs)
      | Inr _ \<Rightarrow>
     let created = (os_stat fs (fe_cwd env) (wp_path p) = Inl ENOENT) in
     (case open_create fs (fe_cwd env) (\<not> wp_overwrite p) (wp_path p) of
        Inl e \<Rightarrow> (Inl (''write_file: '' @ path_error ''open'' (wp_path p) (create_text e)), fs)
      | Inr dest \<Rightarrow>
          (Inr \<lparr> wr_path = path_clean (wp_path p), wr_bytes_written = int (length (wp_content p)),
                 wr_created = created \<rparr>,
           write_node fs dest (wp_content p))))))"

section \<open>The ring buffer of \<open>readTail\<close>\<close>

definition ring_ok :: "nat \<Rightarrow> string list \<Rightarrow> string list \<Rightarrow> bool" where
  "ring_ok n ring ls \<longleftrightarrow>
     length ring = n \<and> (\<forall>i < length ls. length ls \<le> i + n \<longrightarrow> ring ! (i mod n) = ls ! i)"

lemma ring_ok_step:
  assumes "0 < n" and "ring_ok n ring ls"
  shows "ring_ok n (ring[length ls mod n := l]) (ls @ [l])"
proof -
  have "(ring[length ls mod n := l]) ! (i mod n) = (ls @ [l]) ! i"
    if i: "i < Suc (length ls)" "Suc (length ls) \<le> i + n" for i
  proof (cases "i = length ls")
    case True
    with assms show ?thesis by (simp add: ring_ok_def)
  next
    case False
    with i have lt: "i < length ls" by simp
    have "i mod n \<noteq> length ls mod n"
    proof
      assume "i mod n = length ls mod n"
      then have "n dvd length ls - i" using lt by (metis less_imp_le mod_eq_dvd_iff_nat)
      moreover have "0 < length ls - i" "length ls - i < n" using lt i by auto
      ultimately show False by (meson nat_dvd_not_less)
    qed
    with assms lt i show ?thesis by (simp add: ring_ok_def nth_append)
  qed
  with assms(2) show ?thesis by (simp add: ring_ok_def)
qed

lemma tail_loop_ring:
  assumes "0 < n" and "tail_loop n ctx ring (length ls) seen raws = Inr (ring', idx', seen')"
    and "ring_ok n ring ls"
  shows "ring_ok n ring' (ls @ map drop_cr raws)" and "idx' = length ls + length raws"
    and "seen' = seen + length raws"
  using assms(2,3)
proof (induction raws arbitrary: ctx ring ls seen)
  case Nil
  { case 1 with Nil show ?case by simp }
  { case 2 with Nil show ?case by simp }
  { case 3 with Nil show ?case by simp }
next
  case (Cons raw raws)
  have step: "\<exists>ctx'. tail_loop n ctx' (ring[length ls mod n := drop_cr raw])
        (length (ls @ [drop_cr raw])) (Suc seen) raws = Inr (ring', idx', seen')"
    if "tail_loop n ctx ring (length ls) seen (raw # raws) = Inr (ring', idx', seen')"
    for ctx ring ls seen
    using that by (auto split: if_split_asm sum.split_asm)
  { case 1
    from step [OF 1(1)] obtain ctx' where t: "tail_loop n ctx' (ring[length ls mod n := drop_cr raw])
        (length (ls @ [drop_cr raw])) (Suc seen) raws = Inr (ring', idx', seen')" by blast
    from Cons.IH(1) [OF t ring_ok_step [OF assms(1) 1(2)]] show ?case by simp }
  { case 2
    from step [OF 2(1)] obtain ctx' where t: "tail_loop n ctx' (ring[length ls mod n := drop_cr raw])
        (length (ls @ [drop_cr raw])) (Suc seen) raws = Inr (ring', idx', seen')" by blast
    from Cons.IH(2) [OF t ring_ok_step [OF assms(1) 2(2)]] show ?case by simp }
  { case 3
    from step [OF 3(1)] obtain ctx' where t: "tail_loop n ctx' (ring[length ls mod n := drop_cr raw])
        (length (ls @ [drop_cr raw])) (Suc seen) raws = Inr (ring', idx', seen')" by blast
    from Cons.IH(3) [OF t ring_ok_step [OF assms(1) 3(2)]] show ?case by simp }
qed

lemma ring_unroll:
  assumes "0 < n" and "ring_ok n ring ls"
  shows "(if length ls \<le> n then take (length ls) ring
          else drop (length ls mod n) ring @ take (length ls mod n) ring) = drop (length ls - n) ls"
proof (cases "length ls \<le> n")
  case True
  have "take (length ls) ring ! i = ls ! i" if "i < length ls" for i
    using that True assms by (auto simp: ring_ok_def)
  with True assms have "take (length ls) ring = ls"
    by (intro nth_equalityI) (auto simp: ring_ok_def)
  with True show ?thesis by simp
next
  case False
  have len: "length ring = n" using assms by (simp add: ring_ok_def)
  have rot: "drop (length ls mod n) ring @ take (length ls mod n) ring = rotate (length ls) ring"
    using len by (simp add: rotate_drop_take)
  have "rotate (length ls) ring ! j = ls ! (length ls - n + j)" if j: "j < n" for j
  proof -
    have i: "length ls - n + j < length ls" "length ls \<le> length ls - n + j + n" using False j by auto
    have "(length ls + j) mod n = (length ls - n + j) mod n"
      using False by (metis add.commute add.left_commute le_add_diff_inverse2 mod_add_self2 nat_le_linear)
    then have "rotate (length ls) ring ! j = ring ! ((length ls - n + j) mod n)"
      using j len by (simp add: nth_rotate)
    also have "\<dots> = ls ! (length ls - n + j)"
      using assms(2) i by (simp add: ring_ok_def)
    finally show ?thesis .
  qed
  then have "rotate (length ls) ring = drop (length ls - n) ls"
    using len False by (intro nth_equalityI) auto
  with False rot show ?thesis by simp
qed

definition text_lines :: "string \<Rightarrow> string list" where
  "text_lines content = map drop_cr (raw_lines content)"

lemma read_tail_lines:
  assumes "0 < n" and "read_tail ctx path content n size_bytes = Inr res"
  shows "rr_content res = join_lines (drop (length (text_lines content) - n) (text_lines content))"
    and "rr_lines res = int (min n (length (text_lines content)))"
    and "rr_truncated res \<longleftrightarrow> n < length (text_lines content)"
    and "\<not> rr_is_binary res"
proof -
  let ?ls = "text_lines content"
  obtain ring idx seen where t: "tail_loop n ctx (replicate n []) 0 0 (raw_lines content) = Inr (ring, idx, seen)"
    and res: "res = \<lparr> rr_path = path,
        rr_content = join_lines (if seen \<le> n then take seen ring
                       else drop (idx mod n) ring @ take (idx mod n) ring),
        rr_encoding = ''text'',
        rr_lines = int (length (if seen \<le> n then take seen ring
                       else drop (idx mod n) ring @ take (idx mod n) ring)),
        rr_truncated = (seen > n), rr_is_binary = False, rr_size = size_bytes \<rparr>"
    using assms(2) by (auto simp: read_tail_def Let_def split: sum.split_asm)
  have "ring_ok n (replicate n []) []" by (simp add: ring_ok_def)
  note loop = tail_loop_ring [OF assms(1), of ctx "replicate n []" "[]" 0, simplified, OF t this]
  have len: "idx = length ?ls" "seen = length ?ls" using loop by (simp_all add: text_lines_def)
  have "ring_ok n ring ?ls" using loop(1) by (simp add: text_lines_def)
  note unroll = ring_unroll [OF assms(1) this]
  show "rr_content res = join_lines (drop (length ?ls - n) ?ls)"
    and "rr_lines res = int (min n (length ?ls))"
    and "rr_truncated res \<longleftrightarrow> n < length ?ls" and "\<not> rr_is_binary res"
    unfolding res len unroll by (simp_all add: min_def)
qed

section \<open>The context windows of a search\<close>

definition covered :: "search_params \<Rightarrow> (nat \<Rightarrow> bool) \<Rightarrow> nat \<Rightarrow> nat \<Rightarrow> bool" where
  "covered p hit i j \<longleftrightarrow>
     (\<exists>k < i. hit k \<and> int k - sp_context_before p \<le> int j \<and> int j \<le> int k + sp_context_after p)"

definition shown :: "search_params \<Rightarrow> string list \<Rightarrow> match_line list \<Rightarrow> nat list \<Rightarrow> bool" where
  "shown p all_lines ms added \<longleftrightarrow>
     map ml_content ms = map ((!) all_lines) added \<and>
     map ml_line_num ms = map (\<lambda>j. if sp_show_line_nums p then int j + 1 else 0) added"

lemma shown_snoc:
  "shown p all_lines ms added \<Longrightarrow>
   shown p all_lines (ms @ [make_match_line p b (all_lines ! b) lab]) (added @ [b])"
  by (simp add: shown_def make_match_line_def)

lemma add_lines_added:
  assumes "add_lines p all_lines lab bs (ctx, ms, added) = Inr (ctx', ms', added')"
    and "distinct bs"
  shows "added' = added @ filter (\<lambda>b. b \<notin> set added) bs"
  using assms
proof (induction bs arbitrary: ctx ms added)
  case Nil
  then show ?case by simp
next
  case (Cons b bs)
  then obtain ctx1 where poll: "poll ctx = Inr ctx1" by (cases "poll ctx") auto
  show ?case
  proof (cases "b \<in> set added")
    case True
    with Cons poll show ?thesis by simp
  next
    case False
    have "filter (\<lambda>x. x \<notin> set (added @ [b])) bs = filter (\<lambda>x. x \<notin> set added) bs"
      using Cons.prems(2) by (intro filter_cong) auto
    with Cons.prems poll False Cons.IH show ?thesis by fastforce
  qed
qed

lemma add_lines_shown:
  assumes "add_lines p all_lines lab bs (ctx, ms, added) = Inr (ctx', ms', added')"
    and "shown p all_lines ms added"
  shows "shown p all_lines ms' added'"
  using assms
proof (induction bs arbitrary: ctx ms added)
  case Nil
  then show ?case by simp
next
  case (Cons b bs)
  then obtain ctx1 where poll: "poll ctx = Inr ctx1" by (cases "poll ctx") auto
  show ?case
  proof (cases "b \<in> set added")
    case True
    with Cons.prems poll Cons.IH [of ctx1 ms added] show ?thesis by simp
  next
    case False
    with Cons.prems poll Cons.IH [of ctx1 _ "added @ [b]"] shown_snoc show ?thesis by fastforce
  qed
qed

lemma covered_Suc:
  "covered p hit (Suc i) j \<longleftrightarrow> covered p hit i j \<or>
     (hit i \<and> int i - sp_context_before p \<le> int j \<and> int j \<le> int i + sp_context_after p)"
  by (auto simp: covered_def less_Suc_eq)

text \<open>A new window extends the covered lines at their end, so they stay in order.\<close>

lemma window_extends:
  assumes hi: "hit i" and bd: "0 \<le> sp_context_before p" "0 \<le> sp_context_after p" and "i < n"
    and lo: "lo = nat (max 0 (int i - sp_context_before p))"
    and up: "up = nat (min (int n - 1) (int i + sp_context_after p) + 1)"
  shows "filter (covered p hit i) [0..<n] @ filter (\<lambda>j. j \<notin> set (filter (covered p hit i) [0..<n])) [lo..<up]
         = filter (covered p hit (Suc i)) [0..<n]" (is "?l @ ?r = ?s")
proof (rule sorted_distinct_set_unique)
  have late: "x \<le> y" if x: "covered p hit i x" and y: "\<not> covered p hit i y" "lo \<le> y" for x y
  proof -
    from x obtain k where k: "k < i" "hit k" "int x \<le> int k + sp_context_after p"
      by (auto simp: covered_def)
    have "int k - sp_context_before p \<le> int y" using k(1) y(2) lo by linarith
    with y(1) k have "int k + sp_context_after p < int y" by (auto simp: covered_def)
    with k(3) show ?thesis by simp
  qed
  show "sorted (?l @ ?r)"
    using late by (auto simp: sorted_append sorted_wrt_filter up)
  show "distinct (?l @ ?r)" by auto
  show "sorted ?s" by (simp add: sorted_wrt_filter)
  show "distinct ?s" by simp
  have in_window: "(lo \<le> j \<and> j < up) \<longleftrightarrow>
      (j < n \<and> int i - sp_context_before p \<le> int j \<and> int j \<le> int i + sp_context_after p)" for j
    unfolding lo up by linarith
  show "set (?l @ ?r) = set ?s"
    using hi by (auto simp: covered_Suc in_window)
qed

definition search_bounds :: "search_params \<Rightarrow> nat \<Rightarrow> bool" where
  "search_bounds p n \<longleftrightarrow>
     0 \<le> sp_context_before p \<and> sp_context_before p < 2 ^ 62 \<and>
     0 \<le> sp_context_after p \<and> sp_context_after p < 2 ^ 62 \<and> int n < 2 ^ 62"

definition line_hit :: "search_params \<Rightarrow> (string \<Rightarrow> bool) \<Rightarrow> string list \<Rightarrow> nat \<Rightarrow> bool" where
  "line_hit p m all_lines j \<longleftrightarrow> m (all_lines ! j) \<noteq> sp_invert_match p"

lemma search_step:
  assumes hit: "line_hit p m all_lines i" and i: "i < length all_lines"
    and p: "\<not> sp_count_only p" "sp_max_matches p \<le> 0" and bd: "search_bounds p (length all_lines)"
    and run: "search_loop p m all_lines i (all_lines ! i # rest) count (ctx, ms, added) = Inr r"
    and added: "added = filter (covered p (line_hit p m all_lines) i) [0..<length all_lines]"
    and sh: "shown p all_lines ms added"
  obtains ctx' ms' where "search_loop p m all_lines (i + 1) rest (count + 1)
      (ctx', ms', filter (covered p (line_hit p m all_lines) (Suc i)) [0..<length all_lines]) = Inr r"
    and "shown p all_lines ms' (filter (covered p (line_hit p m all_lines) (Suc i)) [0..<length all_lines])"
proof -
  let ?n = "length all_lines"
  obtain ctx1 where poll: "poll ctx = Inr ctx1" using run by (cases "poll ctx") auto
  define ms3 where "ms3 ms2 added2 = (if i \<in> set added2 then ms2 else ms2 @ [make_match_line p i (all_lines ! i) []])" for ms2 added2
  define added3 where "added3 added2 = (if i \<in> set added2 then added2 else added2 @ [i])" for added2
  have matched: "(if sp_invert_match p then \<not> m (all_lines ! i) else m (all_lines ! i)) = True"
    using hit by (simp add: line_hit_def)
  have pair: "(if i \<in> set added2 then (ms2, added2)
      else (ms2 @ [make_match_line p i (all_lines ! i) []], added2 @ [i])) = (ms3 ms2 added2, added3 added2)" for ms2 added2
    by (simp add: ms3_def added3_def)
  have nolim: "\<not> (sp_max_matches p > 0 \<and> count + 1 > sp_max_matches p)" using p(2) by simp
  have run': "(case add_lines p all_lines ''before'' (before_range p i) (ctx1, ms, added) of
      Inl e \<Rightarrow> Inl e
    | Inr (ctx2, ms2, added2) \<Rightarrow>
        (case add_lines p all_lines ''after'' (after_range p ?n i) (ctx2, ms3 ms2 added2, added3 added2) of
           Inl e \<Rightarrow> Inl e
         | Inr st \<Rightarrow> search_loop p m all_lines (i + 1) rest (count + 1) st)) = Inr r"
    using run unfolding search_loop.simps poll sum.case Let_def matched
    by (simp only: pair nolim p(1) if_False not_True_eq_False prod.case)
  then obtain ctx2 ms2 added2 where
    b: "add_lines p all_lines ''before'' (before_range p i) (ctx1, ms, added) = Inr (ctx2, ms2, added2)"
    by (cases "add_lines p all_lines ''before'' (before_range p i) (ctx1, ms, added)") auto
  with run' obtain ctx4 ms4 added4 where
    a: "add_lines p all_lines ''after'' (after_range p ?n i) (ctx2, ms3 ms2 added2, added3 added2) = Inr (ctx4, ms4, added4)"
    and rest: "search_loop p m all_lines (i + 1) rest (count + 1) (ctx4, ms4, added4) = Inr r"
    by (cases "add_lines p all_lines ''after'' (after_range p ?n i) (ctx2, ms3 ms2 added2, added3 added2)") auto
  define lo where "lo = nat (max 0 (int i - sp_context_before p))"
  define up where "up = nat (min (int ?n - 1) (int i + sp_context_after p) + 1)"
  have wr: "wrap64 (int i - sp_context_before p) = int i - sp_context_before p"
    "wrap64 (int i + sp_context_after p) = int i + sp_context_after p"
    using bd i by (intro wrap64_id; simp add: in_int64_def min_int64_def max_int64_def search_bounds_def)+
  have rng: "before_range p i = [lo..<i]" "after_range p ?n i = [i + 1..<up]"
    by (simp_all add: before_range_def after_range_def wr lo_def up_def)
  have lo_i: "lo \<le> i" and i_up: "i + 1 \<le> up"
    using bd i by (auto simp: lo_def up_def search_bounds_def)
  then have win: "[lo..<up] = [lo..<i] @ i # [i + 1..<up]"
    using upt_add_eq_append [of lo i "up - i"] upt_conv_Cons [of i up] by simp
  have "added4 = added @ filter (\<lambda>j. j \<notin> set added) [lo..<up]"
  proof -
    have a2: "added2 = added @ filter (\<lambda>j. j \<notin> set added) [lo..<i]"
      using add_lines_added [OF b] rng by simp
    have a3: "added3 added2 = added @ filter (\<lambda>j. j \<notin> set added) ([lo..<i] @ [i])"
      using a2 by (auto simp: added3_def)
    have "filter (\<lambda>j. j \<notin> set (added3 added2)) [i + 1..<up] = filter (\<lambda>j. j \<notin> set added) [i + 1..<up]"
      by (rule filter_cong) (auto simp: a3)
    then have "added4 = added3 added2 @ filter (\<lambda>j. j \<notin> set added) [i + 1..<up]"
      using add_lines_added [OF a] rng by simp
    with a3 win show ?thesis by simp
  qed
  also have "\<dots> = filter (covered p (line_hit p m all_lines) (Suc i)) [0..<?n]"
    unfolding added using bd
    by (intro window_extends [where hit = "line_hit p m all_lines" and p = p, OF hit _ _ i lo_def up_def]) (auto simp: search_bounds_def)
  finally have a4: "added4 = filter (covered p (line_hit p m all_lines) (Suc i)) [0..<?n]" .
  have "shown p all_lines ms2 added2" by (rule add_lines_shown [OF b sh])
  then have "shown p all_lines (ms3 ms2 added2) (added3 added2)"
    by (simp add: ms3_def added3_def shown_snoc)
  then have "shown p all_lines ms4 added4" by (rule add_lines_shown [OF a])
  with rest a4 that show ?thesis by blast
qed

lemma search_loop_windows:
  assumes p: "\<not> sp_count_only p" "sp_max_matches p \<le> 0" "search_bounds p (length all_lines)"
    and "search_loop p m all_lines i rest count (ctx, ms, added) = Inr (count', ms', added')"
    and "rest = drop i all_lines" and "i \<le> length all_lines"
    and "added = filter (covered p (line_hit p m all_lines) i) [0..<length all_lines]"
    and "shown p all_lines ms added"
  shows "shown p all_lines ms' (filter (covered p (line_hit p m all_lines) (length all_lines)) [0..<length all_lines]) \<and>
         count' = count + int (length (filter (line_hit p m all_lines) [i..<length all_lines]))"
  using assms(4-)
proof (induction rest arbitrary: i count ctx ms added)
  case Nil
  then have "i = length all_lines" by simp
  with Nil show ?case by simp
next
  case (Cons line rest)
  from Cons.prems(2,3) have i: "i < length all_lines" by (cases "i = length all_lines") auto
  from Cons.prems(2) i have line: "line = all_lines ! i" and rest: "rest = drop (i + 1) all_lines"
    by (simp_all add: Cons_nth_drop_Suc [symmetric])
  have upt: "[i..<length all_lines] = i # [i + 1..<length all_lines]"
    using i by (simp add: upt_conv_Cons)
  show ?case
  proof (cases "line_hit p m all_lines i")
    case True
    from search_step [OF True i p Cons.prems(1) [unfolded line] Cons.prems(4,5)]
    obtain ctx2 ms2 where l: "search_loop p m all_lines (i + 1) rest (count + 1)
        (ctx2, ms2, filter (covered p (line_hit p m all_lines) (Suc i)) [0..<length all_lines]) = Inr (count', ms', added')"
      and s: "shown p all_lines ms2 (filter (covered p (line_hit p m all_lines) (Suc i)) [0..<length all_lines])"
      by blast
    from Cons.IH [OF l rest] i s upt True show ?thesis by simp
  next
    case False
    obtain ctx1 where poll: "poll ctx = Inr ctx1" using Cons.prems(1) by (cases "poll ctx") auto
    have "\<not> (if sp_invert_match p then \<not> m line else m line)"
      using False line by (simp add: line_hit_def split: if_split_asm)
    with Cons.prems(1) poll have l: "search_loop p m all_lines (i + 1) rest count (ctx1, ms, added) = Inr (count', ms', added')"
      by (simp add: Let_def)
    have cov: "covered p (line_hit p m all_lines) (i + 1) = covered p (line_hit p m all_lines) i"
      using False by (auto simp: covered_Suc fun_eq_iff)
    from Cons.IH [OF l rest] i Cons.prems(4,5) upt False cov show ?thesis by simp
  qed
qed

lemma collect_lines_all:
  "collect_lines ctx acc raws = Inr (ctx', ls) \<Longrightarrow> ls = acc @ map drop_cr raws"
proof (induction raws arbitrary: ctx acc)
  case Nil
  then show ?case by simp
next
  case (Cons raw raws)
  then obtain ctx1 where "collect_lines ctx1 (acc @ [drop_cr raw]) raws = Inr (ctx', ls)"
    by (auto split: if_split_asm sum.split_asm)
  from Cons.IH [OF this] show ?case by simp
qed

section \<open>Writing\<close>

text \<open>
  Where \<open>open_create\<close> ends there was no directory and no link, and with \<open>O_EXCL\<close> nothing; once a
  file is there, walking the same path ends there too.
\<close>

lemma cwalk_ends:
  assumes "cwalk fs excl links cur cs = Inr dest"
  shows "(fs_node fs dest = None \<or> \<not> excl \<and> (\<exists>s. fs_node fs dest = Some (FFile s) \<or> fs_node fs dest = Some (FOther s))) \<and>
         (fs_node fs' = (fs_node fs)(dest := Some (FFile new)) \<longrightarrow> kwalk fs' links cur cs = Inr dest) \<and>
         (fs_node fs dest \<noteq> None \<longrightarrow> kwalk fs links cur cs = Inr dest)"
  using assms
proof (induction fs excl links cur cs rule: cwalk.induct)
  case (1 fs excl links cur)
  then show ?case by simp
next
  case (2 fs excl links cur c cs)
  let ?fin = "cs = [] \<and> (c = [] \<or> c = ''.'' \<or> c = ''..'')"
  let ?tr = "cs \<noteq> [] \<and> list_all (\<lambda>d. d = []) cs"
  have n1: "\<not> ?fin" using "2.prems" by (cases ?fin) simp_all
  consider (skip) "c = [] \<or> c = ''.''" | (up) "\<not> (c = [] \<or> c = ''.'')" "c = ''..''"
    | (plain) "\<not> (c = [] \<or> c = ''.'')" "c \<noteq> ''..''" by blast
  then show ?case
  proof cases
    case skip
    with "2.IH"(1) [OF n1 skip] "2.prems" n1 show ?thesis by auto
  next
    case up
    with "2.IH"(2) [OF n1 up] "2.prems" n1 show ?thesis by simp
  next
    case plain
    have n2: "\<not> ?tr" using "2.prems" n1 plain by (cases ?tr) simp_all
    show ?thesis
    proof (cases "fs_node fs (cur @ [c])")
      case None
      with "2.prems" n1 n2 plain have "dest = cur @ [c]" "cs = []" by (simp_all split: if_split_asm)
      with None plain show ?thesis by simp
    next
      case (Some nd)
      show ?thesis
      proof (cases nd)
        case FDir
        with "2.prems" n1 n2 plain Some have ne: "cs \<noteq> []" by (simp split: if_split_asm)
        from "2.prems" n1 n2 plain Some FDir ne have "cwalk fs excl links (cur @ [c]) cs = Inr dest" by simp
        note ih = "2.IH"(3) [OF n1 plain n2 Some FDir ne this]
        with Some FDir have "cur @ [c] \<noteq> dest" by auto
        with ih Some FDir plain show ?thesis by simp
      next
        case (FFile x)
        with "2.prems" n1 n2 plain Some have "dest = cur @ [c]" "cs = []" "\<not> excl" by (simp_all split: if_split_asm)
        with Some FFile plain show ?thesis by simp
      next
        case (FOther x)
        with "2.prems" n1 n2 plain Some have "dest = cur @ [c]" "cs = []" "\<not> excl" by (simp_all split: if_split_asm)
        with Some FOther plain show ?thesis by simp
      next
        case (FLink t)
        have nx: "\<not> (excl \<and> cs = [])" using "2.prems" n1 n2 plain Some FLink by (cases "excl \<and> cs = []") simp_all
        have l0: "links \<noteq> 0" using "2.prems" n1 n2 plain Some FLink nx by (cases "links = 0") (simp_all split: if_split_asm)
        from "2.prems" n1 n2 plain Some FLink nx l0
        have "cwalk fs excl (links - 1) (if is_abs t then [] else cur) (split_char slash t @ cs) = Inr dest"
          by (simp split: if_split_asm)
        note ih = "2.IH"(4) [OF n1 plain n2 Some FLink nx l0 this]
        with Some FLink have "cur @ [c] \<noteq> dest" by auto
        with ih Some FLink plain l0 show ?thesis by simp
      qed
    qed
  qed
qed

lemma fs_node_gupd: "r \<noteq> [] \<Longrightarrow> fs_node (gupd r n fs) = (fs_node fs)(r := Some n)"
  by (rule ext) (simp add: fs_node_def)

text \<open>What a search result shows of the lines \<open>ls\<close> of a file: the union of the context windows of
  the matching lines, in order, and the number of matching lines.\<close>

definition shows_windows :: "search_params \<Rightarrow> (string \<Rightarrow> bool) \<Rightarrow> string list \<Rightarrow> search_result \<Rightarrow> bool" where
  "shows_windows p m ls res \<longleftrightarrow>
     (let hit = (\<lambda>i. m (ls ! i) \<noteq> sp_invert_match p);
          js = filter (\<lambda>j. \<exists>i < length ls. hit i \<and> int i - sp_context_before p \<le> int j \<and>
                         int j \<le> int i + sp_context_after p) [0..<length ls]
      in map ml_content (sr_matches res) = map ((!) ls) js \<and>
         map ml_line_num (sr_matches res) = map (\<lambda>j. if sp_show_line_nums p then int j + 1 else 0) js \<and>
         sr_count res = int (length (filter hit [0..<length ls])))"

section \<open>Properties of the file tools\<close>

text \<open>A file system to run the tools on.\<close>

definition sample_env :: file_env where
  "sample_env = \<lparr> fe_fs = ([''srv''], FDir) # ([''srv'', ''log''], FFile (''a'' @ nl # ''bb'' @ nl # ''ccc'' @ nl # ''bd'')) # sample_fs,
     fe_cwd = [], fe_meta = (\<lambda>r. \<lparr> fm_size = 9, fm_perm = ''-rw-r--r--'', fm_mtime = 0 \<rparr>) \<rparr>"

definition no_guard :: path_guard where
  "no_guard = new_path_guard [] []"

definition tail_params :: read_params where
  "tail_params = \<lparr> rp_path = ''/srv/log'', rp_encoding = [], rp_offset = 0, rp_length = 0, rp_head = 0,
     rp_tail = 2, rp_max_lines = 0 \<rparr>"

definition grep_params :: search_params where
  "grep_params = \<lparr> sp_path = ''/srv/log'', sp_pattern = ''b'', sp_ignore_case = False, sp_invert_match = False,
     sp_show_line_nums = True, sp_count_only = False, sp_context_before = 0, sp_context_after = 1,
     sp_max_matches = 0, sp_fixed_string = True \<rparr>"

definition no_regexp :: regexp_compile where
  "no_regexp pat = Inl ''unsupported''"

text \<open>C30: a successful tail read of a text file returns the last \<open>tail\<close> lines of the file, or all
  of them when there are fewer, with their number, and says truncated exactly when lines were left
  out.  The ring buffer of the code loses nothing and keeps the order, whatever the number of lines
  and wherever it wraps.\<close>

theorem tail_is_last_lines:
  assumes "read_file env g max_mb ctx (Inr p) = Inr res"
    and "\<not> rr_is_binary res" and "rp_offset p \<le> 0" and "rp_length p \<le> 0" and "0 < rp_tail p"
  shows "\<exists>dest node. os_open env (rp_path p) = Inr (dest, node) \<and>
           (let ls = text_lines (node_bytes node); n = nat (rp_tail p)
            in rr_content res = join_lines (drop (length ls - n) ls) \<and>
               rr_lines res = int (min n (length ls)) \<and>
               (rr_truncated res \<longleftrightarrow> n < length ls))"
proof -
  obtain dest node size_bytes where o: "os_open env (rp_path p) = Inr (dest, node)"
    and t: "read_tail ctx (rp_path p) (node_bytes node) (nat (rp_tail p)) size_bytes = Inr res"
    using assms unfolding read_file_def
    by (auto simp: Let_def os_open_def split: sum.split_asm if_split_asm prod.split_asm)
  have "0 < nat (rp_tail p)" using assms(5) by simp
  from o read_tail_lines [OF this t] show ?thesis by (simp add: Let_def)
qed

theorem tail_is_last_lines_witness:
  "\<exists>res. read_file sample_env no_guard 1 None (Inr tail_params) = Inr res \<and>
     rr_content res = ''ccc'' @ nl # ''bd'' \<and> rr_truncated res"
proof -
  obtain res where r: "read_file sample_env no_guard 1 None (Inr tail_params) = Inr res" "\<not> rr_is_binary res"
  proof
    show "read_file sample_env no_guard 1 None (Inr tail_params) =
        Inr \<lparr> rr_path = ''/srv/log'', rr_content = ''ccc'' @ nl # ''bd'', rr_encoding = ''text'', rr_lines = 2,
              rr_truncated = True, rr_is_binary = False, rr_size = 9 \<rparr>" by code_simp
  qed simp
  have o: "os_open sample_env ''/srv/log'' =
      Inr ([''srv'', ''log''], FFile (''a'' @ nl # ''bb'' @ nl # ''ccc'' @ nl # ''bd''))" by code_simp
  have ls: "text_lines (''a'' @ nl # ''bb'' @ nl # ''ccc'' @ nl # ''bd'') = [''a'', ''bb'', ''ccc'', ''bd'']"
    by code_simp
  have "join_lines [''ccc'', ''bd''] = ''ccc'' @ nl # ''bd''" by code_simp
  with tail_is_last_lines [OF r] o ls r(1) show ?thesis by (auto simp: tail_params_def Let_def)
qed

text \<open>C31: a search without a match limit shows exactly the lines that lie in the context window of a
  matching line (\<open>before\<close> lines above it to \<open>after\<close> lines below it), each once and in the order of
  the file, numbered from one when numbers are asked for, and counts the matching lines; overlapping
  windows are merged.  The bounds say that the context sizes and the file stay far from the range of
  \<open>int\<close>.\<close>

theorem search_shows_windows:
  assumes "search_file_content env compile g ctx (Inr p) = Inr res"
    and "\<not> sp_count_only p" and "sp_max_matches p \<le> 0"
    and "\<forall>dest node. os_open env (sp_path p) = Inr (dest, node) \<longrightarrow>
           search_bounds p (length (raw_lines (node_bytes node)))"
  shows "\<exists>dest node m. os_open env (sp_path p) = Inr (dest, node) \<and> line_matcher compile p = Inr m \<and>
           shows_windows p m (text_lines (node_bytes node)) res"
proof -
  obtain dest node m ctx' all_lines count ms added where
    o: "os_open env (sp_path p) = Inr (dest, node)" and m: "line_matcher compile p = Inr m"
    and c: "collect_lines ctx [] (raw_lines (node_bytes node)) = Inr (ctx', all_lines)"
    and l: "search_loop p m all_lines 0 all_lines 0 (ctx', [], []) = Inr (count, ms, added)"
    and res: "sr_matches res = ms" "sr_count res = count"
    using assms(1) unfolding search_file_content_def
    by (auto simp: Let_def split: sum.split_asm if_split_asm prod.split_asm)
  have ls: "all_lines = text_lines (node_bytes node)"
    using collect_lines_all [OF c] by (simp add: text_lines_def)
  then have "search_bounds p (length all_lines)"
    using assms(4) o by (simp add: text_lines_def)
  note win = search_loop_windows [OF assms(2,3) this l]
  have "covered p (line_hit p m all_lines) 0 = (\<lambda>_. False)" by (simp add: covered_def fun_eq_iff)
  with win have "shown p all_lines ms (filter (covered p (line_hit p m all_lines) (length all_lines)) [0..<length all_lines])"
    and "count = int (length (filter (line_hit p m all_lines) [0..<length all_lines]))"
    by (simp_all add: shown_def)
  moreover have "line_hit p m all_lines = (\<lambda>i. m (all_lines ! i) \<noteq> sp_invert_match p)"
    by (simp add: line_hit_def fun_eq_iff)
  moreover have "covered p hit n = (\<lambda>j. \<exists>i < n. hit i \<and> int i - sp_context_before p \<le> int j \<and>
      int j \<le> int i + sp_context_after p)" for hit n
    by (simp add: covered_def fun_eq_iff)
  ultimately show ?thesis
    using o m res ls
    by (intro exI [of _ dest] exI [of _ node] exI [of _ m]) (simp add: shows_windows_def Let_def shown_def)
qed

theorem search_shows_windows_witness:
  "\<exists>res. search_file_content sample_env no_regexp no_guard None (Inr grep_params) = Inr res \<and>
     map ml_line_num (sr_matches res) = [2, 3, 4] \<and> sr_count res = 2"
proof -
  obtain res where r: "search_file_content sample_env no_regexp no_guard None (Inr grep_params) = Inr res"
  proof
    show "search_file_content sample_env no_regexp no_guard None (Inr grep_params) =
      Inr \<lparr> sr_path = ''/srv/log'', sr_pattern = ''b'', sr_matches =
        [\<lparr> ml_line_num = 2, ml_content = ''bb'', ml_context = [] \<rparr>,
         \<lparr> ml_line_num = 3, ml_content = ''ccc'', ml_context = ''after'' \<rparr>,
         \<lparr> ml_line_num = 4, ml_content = ''bd'', ml_context = [] \<rparr>], sr_count = 2 \<rparr>" by code_simp
  qed
  have o: "os_open sample_env ''/srv/log'' =
      Inr ([''srv'', ''log''], FFile (''a'' @ nl # ''bb'' @ nl # ''ccc'' @ nl # ''bd''))" by code_simp
  have len: "length (raw_lines (''a'' @ nl # ''bb'' @ nl # ''ccc'' @ nl # ''bd'')) = 4" by code_simp
  have m: "line_matcher no_regexp grep_params = Inr (\<lambda>l. str_contains l ''b'')"
    by (simp add: line_matcher_def grep_params_def)
  have "search_bounds grep_params 4" by (simp add: search_bounds_def grep_params_def)
  then have bd: "\<forall>dest node. os_open sample_env (sp_path grep_params) = Inr (dest, node) \<longrightarrow>
      search_bounds grep_params (length (raw_lines (node_bytes node)))"
    using o len by (simp add: grep_params_def)
  have par: "\<not> sp_count_only grep_params" "sp_max_matches grep_params \<le> 0" "sp_path grep_params = ''/srv/log''"
    by (simp_all add: grep_params_def)
  from search_shows_windows [OF r par(1,2) bd] obtain dest node m' where
    f: "os_open sample_env (sp_path grep_params) = Inr (dest, node)" "line_matcher no_regexp grep_params = Inr m'"
    and c0: "shows_windows grep_params m' (text_lines (node_bytes node)) res" by blast
  have "node = FFile (''a'' @ nl # ''bb'' @ nl # ''ccc'' @ nl # ''bd'')" using f(1) o par(3) by simp
  moreover have "m' = (\<lambda>l. str_contains l ''b'')" using f(2) m by simp
  ultimately have c: "shows_windows grep_params (\<lambda>l. str_contains l ''b'')
      (text_lines (''a'' @ nl # ''bb'' @ nl # ''ccc'' @ nl # ''bd'')) res" using c0 by (simp only: node_bytes.simps)
  have e: "(let ls = text_lines (''a'' @ nl # ''bb'' @ nl # ''ccc'' @ nl # ''bd'');
            hit = (\<lambda>i. str_contains (ls ! i) ''b'' \<noteq> sp_invert_match grep_params);
            js = filter (\<lambda>j. \<exists>i < length ls. hit i \<and> int i - sp_context_before grep_params \<le> int j \<and>
                               int j \<le> int i + sp_context_after grep_params) [0..<length ls]
        in (map (\<lambda>j. if sp_show_line_nums grep_params then int j + 1 else 0) js,
            int (length (filter hit [0..<length ls])))) = ([2, 3, 4], 2)" by code_simp
  note c' = c [unfolded shows_windows_def Let_def] and e' = e [unfolded Let_def prod.inject]
  have "map ml_line_num (sr_matches res) = [2, 3, 4]"
    by (rule trans [OF c' [THEN conjunct2, THEN conjunct1] e' [THEN conjunct1]])
  moreover have "sr_count res = 2"
    by (rule trans [OF c' [THEN conjunct2, THEN conjunct2] e' [THEN conjunct2]])
  ultimately show ?thesis using r by (intro exI [of _ res] conjI)
qed

text \<open>C29: a successful write lands where the kernel then finds it: a \<open>stat\<close> of the same path reaches
  a regular file with exactly the new content, and nothing else in the file system has changed;
  without \<open>overwrite\<close> there was nothing at that place before.  Only a device swallows the bytes.\<close>

theorem write_lands_where_stat_looks:
  assumes "write_file env g ctx (Inr p) = (Inr res, fs')"
  shows "\<exists>dest. (\<forall>q. q \<noteq> dest \<longrightarrow> fs_node fs' q = fs_node (fe_fs env) q) \<and>
           (\<not> wp_overwrite p \<longrightarrow> fs_node (fe_fs env) dest = None) \<and>
           (os_stat fs' (fe_cwd env) (wp_path p) = Inr (dest, FFile (wp_content p)) \<or>
            fs' = fe_fs env \<and> (\<exists>s. fs_node (fe_fs env) dest = Some (FOther s)))"
proof -
  let ?fs = "fe_fs env"
  obtain dest where c: "open_create ?fs (fe_cwd env) (\<not> wp_overwrite p) (wp_path p) = Inr dest"
    and fs': "fs' = write_node ?fs dest (wp_content p)"
    using assms by (auto simp: write_file_def Let_def split: sum.split_asm)
  from c have ne: "wp_path p \<noteq> []" and w: "cwalk ?fs (\<not> wp_overwrite p) kernel_links
      (start_dir (fe_cwd env) (wp_path p)) (split_char slash (wp_path p)) = Inr dest"
    by (simp_all add: open_create_def split: if_split_asm)
  note ends = cwalk_ends [OF w, of fs' "wp_content p"]
  have d: "dest \<noteq> []" using ends by auto
  show ?thesis
  proof (cases "\<exists>s. fs_node ?fs dest = Some (FOther s)")
    case True
    then have "fs' = ?fs" by (auto simp: fs' write_node_def)
    with True ends show ?thesis by auto
  next
    case False
    then have "fs' = gupd dest (FFile (wp_content p)) ?fs"
      using ends by (auto simp: fs' write_node_def)
    with d have upd: "fs_node fs' = (fs_node ?fs)(dest := Some (FFile (wp_content p)))"
      by (simp add: fs_node_gupd)
    with ends have "os_stat fs' (fe_cwd env) (wp_path p) = Inr (dest, FFile (wp_content p))"
      using ne by (simp add: os_stat_def resolve_def)
    with upd ends show ?thesis by auto
  qed
qed

definition note_params :: write_params where
  "note_params = \<lparr> wp_path = ''/srv/new'', wp_content = ''x'', wp_overwrite = False \<rparr>"

theorem write_lands_where_stat_looks_witness:
  "\<exists>res fs'. write_file sample_env no_guard None (Inr note_params) = (Inr res, fs') \<and>
     os_stat fs' [] ''/srv/new'' = Inr ([''srv'', ''new''], FFile ''x'')"
proof -
  define fs' where "fs' = snd (write_file sample_env no_guard None (Inr note_params))"
  have "fst (write_file sample_env no_guard None (Inr note_params)) =
      Inr \<lparr> wr_path = ''/srv/new'', wr_bytes_written = 1, wr_created = True \<rparr>" by code_simp
  then obtain res where w: "write_file sample_env no_guard None (Inr note_params) = (Inr res, fs')"
    unfolding fs'_def by (metis prod.collapse)
  from write_lands_where_stat_looks [OF w] obtain dest where
    d: "\<not> wp_overwrite note_params \<longrightarrow> fs_node (fe_fs sample_env) dest = None"
    and s: "os_stat fs' (fe_cwd sample_env) (wp_path note_params) = Inr (dest, FFile (wp_content note_params)) \<or>
       fs' = fe_fs sample_env \<and> (\<exists>s. fs_node (fe_fs sample_env) dest = Some (FOther s))" by blast
  have "fs_node (fe_fs sample_env) dest = None" using d by (simp add: note_params_def)
  with s have "os_stat fs' (fe_cwd sample_env) (wp_path note_params) = Inr (dest, FFile (wp_content note_params))" by auto
  moreover have "os_stat fs' [] ''/srv/new'' = Inr ([''srv'', ''new''], FFile ''x'')"
    unfolding fs'_def by code_simp
  ultimately show ?thesis using w by blast
qed

text \<open>C32: no tool gets past a denied path: when the guard refuses the path, every file tool answers
  with the guard's error, and a write leaves the file system as it was.\<close>

theorem denied_path_stops_every_tool:
  assumes "guard_check (fe_fs env) (fe_cwd env) g path = Inl e"
  shows "read_file env g max_mb ctx (Inr (rp\<lparr>rp_path := path\<rparr>)) = Inl e \<and>
         list_directory env g ctx (Inr (lp\<lparr>lp_path := path\<rparr>)) = Inl e \<and>
         stat_file env g (Inr path) = Inl e \<and> check_path_exists env g (Inr path) = Inl e \<and>
         search_file_content env compile g ctx (Inr (sp\<lparr>sp_path := path\<rparr>)) = Inl e \<and>
         write_file env g ctx (Inr (wp\<lparr>wp_path := path\<rparr>)) = (Inl e, fe_fs env)"
  using assms
  by (simp add: read_file_def list_directory_def stat_file_def check_path_exists_def
      search_file_content_def write_file_def Let_def)

theorem denied_path_stops_every_tool_witness:
  "stat_file sample_env (new_path_guard [] [''/etc'']) (Inr ''/home/op/conf/shadow'') =
     Inl (''fileops: path '' @ go_quote ''/home/op/conf/shadow'' @ '' is blocked'')"
proof -
  have "guard_check (fe_fs sample_env) (fe_cwd sample_env) (new_path_guard [] [''/etc'']) ''/home/op/conf/shadow'' =
      Inl (''fileops: path '' @ go_quote ''/home/op/conf/shadow'' @ '' is blocked'')" by code_simp
  from denied_path_stops_every_tool [OF this] show ?thesis by blast
qed

section \<open>Where the tools surprise\<close>

text \<open>A file whose directory is reached through a link is created outside the allowed tree: the
  guard cannot resolve a path that does not exist yet and judges its spelling.\<close>

lemma write_escapes_guard:
  "(case write_file sample_env (new_path_guard [''/home/op''] [''/etc'']) None
       (Inr \<lparr> wp_path = ''/home/op/conf/cron'', wp_content = ''x'', wp_overwrite = False \<rparr>) of
     (r, fs') \<Rightarrow> is_ok r \<and> fs_node fs' [''etc'', ''cron''] = Some (FFile ''x''))"
  by code_simp

text \<open>With a limit of one the match count says two, and a file of exactly \<open>head\<close> lines is reported
  as truncated.\<close>

lemma search_limit_counts_one_more:
  "map_sum id (\<lambda>r. (length (sr_matches r), sr_count r))
     (search_file_content sample_env no_regexp no_guard None
       (Inr (grep_params\<lparr> sp_max_matches := 1, sp_context_after := 0 \<rparr>))) = Inr (1, 2)"
  by code_simp

lemma exact_head_reported_truncated:
  "map_sum id (\<lambda>r. (rr_lines r, rr_truncated r))
     (read_file sample_env no_guard 1 None (Inr (tail_params\<lparr> rp_tail := 0, rp_head := 4 \<rparr>))) = Inr (4, True)"
  by code_simp

end
