(* ===== verification/Cmd_Exec.thy ===== *)
theory Cmd_Exec
  imports Go_Path
begin

text \<open>
  \<open>internal/sysplane-agent/cmdexec/process.go\<close>: running a whitelisted command with bounded output.
  The operating system is a parameter: it says what comes of starting a process.  \<open>cmd.Wait\<close>
  closes the pipes when the process ends, and the code calls it without waiting for the two copying
  goroutines, so how much of the written output they have read by then is part of that parameter.
\<close>

section \<open>Types\<close>

record run_params =
  ru_command :: string
  ru_args :: "string list"
  ru_dir :: string
  ru_timeout_sec :: int
  ru_max_output_bytes :: int

record run_result =
  rs_command :: string
  rs_args :: "string list"
  rs_stdout :: string
  rs_stderr :: string
  rs_exit_code :: int
  rs_success :: bool
  rs_truncated :: bool
  rs_duration_ms :: int

record runner =
  rn_allowed :: "string list"

record launch =
  ln_command :: string
  ln_args :: "string list"
  ln_dir :: string
  ln_timeout_sec :: "int option"

datatype wait_outcome = WaitOk | WaitExit int | WaitFailed string

text \<open>What starting a process leads to: pipes that cannot be made or a start that fails, or the
  chunks it writes to each pipe, how many of them the copiers read before \<open>Wait\<close> closes the pipe,
  what \<open>Wait\<close> returns and what \<open>ctx.Err()\<close> is by then.\<close>

record process_run =
  pr_stdout_pipe_err :: "string option"
  pr_stderr_pipe_err :: "string option"
  pr_start_err :: "string option"
  pr_stdout :: "string list"
  pr_stderr :: "string list"
  pr_stdout_read :: nat
  pr_stderr_read :: nat
  pr_wait :: wait_outcome
  pr_ctx_err :: "string option"
  pr_elapsed_ms :: int

type_synonym os_exec = "launch \<Rightarrow> process_run"

section \<open>The whitelist\<close>

fun allowed_loop :: "string list \<Rightarrow> string list \<Rightarrow> string list" where
  "allowed_loop allowed [] = allowed"
| "allowed_loop allowed (raw # rest) =
     (let command = trim_space raw in
      if command = [] then allowed_loop allowed rest
      else allowed_loop (List.insert (path_clean command) allowed) rest)"

definition new_runner :: "string list \<Rightarrow> runner" where
  "new_runner allowed_commands = \<lparr> rn_allowed = allowed_loop [] allowed_commands \<rparr>"

section \<open>\<open>limitBuffer\<close>\<close>

record limit_buffer =
  lb_limit :: int
  lb_buf :: string
  lb_truncated :: bool

definition limit_write :: "string \<Rightarrow> limit_buffer \<Rightarrow> int \<times> limit_buffer" where
  "limit_write p b =
     (let n = int (length p) in
      if lb_limit b \<le> 0 then (n, b)
      else let remaining = lb_limit b - int (length (lb_buf b)) in
        if remaining > 0 then
          if n > remaining then (n, b\<lparr>lb_buf := lb_buf b @ take (nat remaining) p, lb_truncated := True\<rparr>)
          else (n, b\<lparr>lb_buf := lb_buf b @ p\<rparr>)
        else (n, b\<lparr>lb_truncated := True\<rparr>))"

definition new_limit_buffer :: "int \<Rightarrow> limit_buffer" where
  "new_limit_buffer limit = \<lparr> lb_limit = limit, lb_buf = [], lb_truncated = False \<rparr>"

text \<open>\<open>io.Copy\<close> writes what it reads, chunk by chunk.\<close>

definition copy_to_buffer :: "string list \<Rightarrow> limit_buffer \<Rightarrow> limit_buffer" where
  "copy_to_buffer chunks b = fold (\<lambda>p b. snd (limit_write p b)) chunks b"

section \<open>\<open>Run\<close>\<close>

definition default_max_output_bytes :: int where "default_max_output_bytes = 256 * 1024"

definition launch_of :: "run_params \<Rightarrow> string \<Rightarrow> launch" where
  "launch_of p command =
     \<lparr> ln_command = command, ln_args = ru_args p, ln_dir = ru_dir p,
       ln_timeout_sec = (if ru_timeout_sec p > 0 then Some (ru_timeout_sec p) else None) \<rparr>"

definition collect_run :: "run_params \<Rightarrow> string \<Rightarrow> process_run \<Rightarrow> run_result go_result" where
  "collect_run p command r =
     (case pr_stdout_pipe_err r of Some e \<Rightarrow> Inl (''run_process: stdout pipe: '' @ e) | None \<Rightarrow>
      case pr_stderr_pipe_err r of Some e \<Rightarrow> Inl (''run_process: stderr pipe: '' @ e) | None \<Rightarrow>
      case pr_start_err r of Some e \<Rightarrow> Inl (''run_process: start '' @ command @ '': '' @ e) | None \<Rightarrow>
      let limit = (if ru_max_output_bytes p \<le> 0 then default_max_output_bytes else ru_max_output_bytes p);
          out = copy_to_buffer (take (pr_stdout_read r) (pr_stdout r)) (new_limit_buffer limit);
          err = copy_to_buffer (take (pr_stderr_read r) (pr_stderr r)) (new_limit_buffer limit);
          result = (\<lambda>code ok. \<lparr> rs_command = command, rs_args = ru_args p, rs_stdout = lb_buf out,
                     rs_stderr = lb_buf err, rs_exit_code = code, rs_success = ok,
                     rs_truncated = (lb_truncated out \<or> lb_truncated err),
                     rs_duration_ms = pr_elapsed_ms r \<rparr>)
      in (case pr_wait r of
            WaitOk \<Rightarrow> Inr (result 0 True)
          | WaitExit code \<Rightarrow>
              (case pr_ctx_err r of Some e \<Rightarrow> Inl e | None \<Rightarrow> Inr (result code False))
          | WaitFailed e \<Rightarrow>
              (case pr_ctx_err r of Some e' \<Rightarrow> Inl e'
               | None \<Rightarrow> Inl (''run_process: wait '' @ command @ '': '' @ e))))"

text \<open>The result of a call, with the process it launched, if it launched one.\<close>

definition runner_run :: "os_exec \<Rightarrow> runner \<Rightarrow> run_params go_result \<Rightarrow> run_result go_result \<times> launch option" where
  "runner_run os r args =
     (case args of
        Inl e \<Rightarrow> (Inl (''run_process: invalid args: '' @ e), None)
      | Inr p \<Rightarrow>
          let command = path_clean (trim_space (ru_command p)) in
          if command = [] \<or> command = ''.'' then (Inl ''run_process: command is required'', None)
          else if \<not> is_abs command then (Inl ''run_process: command must be an absolute path'', None)
          else if rn_allowed r = [] then (Inl ''run_process: command execution is disabled on this agent'', None)
          else if command \<notin> set (rn_allowed r)
          then (Inl (''run_process: command '' @ go_quote command @ '' is not in security.allowed_commands''), None)
          else let l = launch_of p command in (collect_run p command (os l), Some l))"

definition run_process :: "os_exec \<Rightarrow> run_params go_result \<Rightarrow> run_result go_result \<times> launch option" where
  "run_process os args = runner_run os (new_runner []) args"

section \<open>Lemmas\<close>

lemma allowed_loop_set:
  "set (allowed_loop allowed cmds) =
     set allowed \<union> {path_clean (trim_space c) | c. c \<in> set cmds \<and> trim_space c \<noteq> []}"
  by (induction cmds arbitrary: allowed) (auto simp: Let_def)

text \<open>The buffer holds the first \<open>limit\<close> bytes of what was written, and says so.\<close>

definition buffer_ok :: "int \<Rightarrow> string \<Rightarrow> limit_buffer \<Rightarrow> bool" where
  "buffer_ok limit written b \<longleftrightarrow> lb_limit b = limit \<and> lb_buf b = take (nat limit) written \<and>
     (lb_truncated b \<longleftrightarrow> nat limit < length written)"

lemma limit_write_ok:
  assumes "0 < limit" and "buffer_ok limit w b" and "p \<noteq> []"
  shows "buffer_ok limit (w @ p) (snd (limit_write p b))"
proof -
  have b: "lb_limit b = limit" "lb_buf b = take (nat limit) w" "lb_truncated b \<longleftrightarrow> nat limit < length w"
    using assms(2) by (simp_all add: buffer_ok_def)
  have len: "0 < length p" using assms(3) by simp
  show ?thesis
  proof (cases "length w < nat limit")
    case True
    then have rem: "limit - int (length (lb_buf b)) = limit - int (length w)" "0 < limit - int (length w)"
      using b by auto
    show ?thesis
    proof (cases "int (length p) > limit - int (length w)")
      case True
      moreover have "nat (limit - int (length w)) = nat limit - length w" by simp
      ultimately show ?thesis
        using assms(1) b rem \<open>length w < nat limit\<close> by (simp add: limit_write_def buffer_ok_def Let_def)
    next
      case False
      with assms(1) b rem \<open>length w < nat limit\<close> show ?thesis
        by (simp add: limit_write_def buffer_ok_def Let_def)
    qed
  next
    case False
    with assms(1) b have "limit - int (length (lb_buf b)) \<le> 0" by simp
    moreover have "nat limit < length w + length p" using False len by linarith
    ultimately show ?thesis using assms(1) b False
      by (simp add: limit_write_def buffer_ok_def Let_def)
  qed
qed

lemma copy_to_buffer_ok:
  assumes "0 < limit" and "\<forall>p \<in> set chunks. p \<noteq> []" and "buffer_ok limit w b"
  shows "buffer_ok limit (w @ concat chunks) (copy_to_buffer chunks b)"
  using assms(2,3)
proof (induction chunks arbitrary: w b)
  case Nil
  then show ?case by (simp add: copy_to_buffer_def)
next
  case (Cons p chunks)
  then have "buffer_ok limit (w @ p) (snd (limit_write p b))"
    using limit_write_ok [OF assms(1)] by simp
  from Cons.IH [OF _ this] Cons.prems show ?case by (simp add: copy_to_buffer_def)
qed

lemma new_buffer_ok: "buffer_ok limit [] (new_limit_buffer limit)"
  by (simp add: buffer_ok_def new_limit_buffer_def)

lemmas copied_ok = copy_to_buffer_ok [OF _ _ new_buffer_ok, simplified]

section \<open>Properties\<close>

text \<open>C12: A process is started exactly for a command on the whitelist: its cleaned path is the
  cleaned spelling of a non-blank entry of \<open>allowed_commands\<close> and absolute.  The process that is
  started is that cleaned path, with the requested arguments; an empty list, or one with
  blank entries only, starts nothing.\<close>

theorem launches_only_whitelisted:
  "snd (runner_run os (new_runner cmds) (Inr p)) =
     (let command = path_clean (trim_space (ru_command p)) in
      if is_abs command \<and> (\<exists>c \<in> set cmds. trim_space c \<noteq> [] \<and> path_clean (trim_space c) = command)
      then Some (launch_of p command) else None)"
proof -
  let ?command = "path_clean (trim_space (ru_command p))"
  have mem: "?command \<in> set (allowed_loop [] cmds) \<longleftrightarrow>
      (\<exists>c \<in> set cmds. trim_space c \<noteq> [] \<and> path_clean (trim_space c) = ?command)"
    unfolding allowed_loop_set by (simp, metis)
  have dot: "is_abs ?command \<Longrightarrow> ?command \<noteq> [] \<and> ?command \<noteq> ''.''" by (auto simp: is_abs_iff)
  show ?thesis
  proof (cases "is_abs ?command \<and> ?command \<in> set (allowed_loop [] cmds)")
    case True
    then have "allowed_loop [] cmds \<noteq> []" by auto
    with True dot mem show ?thesis by (simp add: runner_run_def new_runner_def Let_def)
  next
    case False
    with mem show ?thesis by (auto simp: runner_run_def new_runner_def Let_def)
  qed
qed

text \<open>C33: Output is bounded and the bound is reported: the result holds the first
  \<open>max_output_bytes\<close> bytes (256 KiB when the request gives none) of what was read from each pipe,
  and \<open>truncated\<close> says exactly whether more was read from one of them.  Chunks as \<open>io.Copy\<close>
  delivers them are not empty.\<close>

theorem output_bounded:
  assumes "fst (runner_run os r (Inr p)) = Inr res"
    and "snd (runner_run os r (Inr p)) = Some l"
    and "\<forall>c \<in> set (pr_stdout (os l)) \<union> set (pr_stderr (os l)). c \<noteq> []"
  shows "let limit = nat (if ru_max_output_bytes p \<le> 0 then 262144 else ru_max_output_bytes p);
             out = concat (take (pr_stdout_read (os l)) (pr_stdout (os l)));
             err = concat (take (pr_stderr_read (os l)) (pr_stderr (os l)))
         in rs_stdout res = take limit out \<and> rs_stderr res = take limit err \<and>
            (rs_truncated res \<longleftrightarrow> limit < length out \<or> limit < length err)"
proof -
  let ?limit = "if ru_max_output_bytes p \<le> 0 then default_max_output_bytes else ru_max_output_bytes p"
  have lim: "0 < ?limit" "?limit = (if ru_max_output_bytes p \<le> 0 then 262144 else ru_max_output_bytes p)"
    by (simp_all add: default_max_output_bytes_def)
  have "\<forall>c \<in> set (take (pr_stdout_read (os l)) (pr_stdout (os l))). c \<noteq> []"
    and "\<forall>c \<in> set (take (pr_stderr_read (os l)) (pr_stderr (os l))). c \<noteq> []"
    using assms(3) by (auto dest: in_set_takeD)
  note out = copied_ok [OF lim(1) this(1)] and err = copied_ok [OF lim(1) this(2)]
  obtain command where "fst (runner_run os r (Inr p)) = collect_run p command (os l)"
    using assms(2) by (auto simp: runner_run_def Let_def split: if_split_asm)
  with assms(1) have "collect_run p command (os l) = Inr res" by simp
  with out err show ?thesis
    unfolding lim(2) collect_run_def
    by (auto simp: Let_def buffer_ok_def default_max_output_bytes_def
        split: option.split_asm wait_outcome.split_asm)
qed

section \<open>An example\<close>

definition echo_os :: "nat \<Rightarrow> os_exec" where
  "echo_os n l = \<lparr> pr_stdout_pipe_err = None, pr_stderr_pipe_err = None, pr_start_err = None,
     pr_stdout = [''hello''], pr_stderr = [], pr_stdout_read = n, pr_stderr_read = 0,
     pr_wait = WaitOk, pr_ctx_err = None, pr_elapsed_ms = 1 \<rparr>"

definition echo_params :: run_params where
  "echo_params = \<lparr> ru_command = ''/bin//echo'', ru_args = [''hello''], ru_dir = [], ru_timeout_sec = 0,
     ru_max_output_bytes = 3 \<rparr>"

theorem launches_only_whitelisted_witness:
  "snd (runner_run (echo_os 1) (new_runner ['' /bin/echo'']) (Inr echo_params)) =
     Some (launch_of echo_params ''/bin/echo'')"
  by (subst launches_only_whitelisted) code_simp

theorem output_bounded_witness:
  "\<exists>res. fst (runner_run (echo_os 1) (new_runner ['' /bin/echo'']) (Inr echo_params)) = Inr res \<and>
     rs_stdout res = ''hel'' \<and> rs_truncated res"
proof -
  define l where "l = launch_of echo_params ''/bin/echo''"
  obtain res where r: "fst (runner_run (echo_os 1) (new_runner ['' /bin/echo'']) (Inr echo_params)) = Inr res"
  proof
    show "fst (runner_run (echo_os 1) (new_runner ['' /bin/echo'']) (Inr echo_params)) =
      Inr \<lparr> rs_command = ''/bin/echo'', rs_args = [''hello''], rs_stdout = ''hel'', rs_stderr = [],
            rs_exit_code = 0, rs_success = True, rs_truncated = True, rs_duration_ms = 1 \<rparr>" by code_simp
  qed
  have "snd (runner_run (echo_os 1) (new_runner ['' /bin/echo'']) (Inr echo_params)) = Some l"
    unfolding l_def by code_simp
  from output_bounded [OF r this] have "rs_stdout res = ''hel'' \<and> rs_truncated res"
    by (simp add: echo_os_def echo_params_def Let_def)
  with r show ?thesis by blast
qed

text \<open>Output can be lost without a trace: when \<open>Wait\<close> returns before the copier has read, the
  process that wrote \<open>hello\<close> and ended well is reported as a success with empty, complete output.\<close>

lemma output_lost_silently:
  "map_sum id (\<lambda>r. (rs_stdout r, rs_success r, rs_truncated r))
     (fst (runner_run (echo_os 0) (new_runner [''/bin/echo'']) (Inr echo_params))) = Inr ([], True, False)"
  by code_simp

end
