(* ===== verification/Api_Proxy.thy ===== *)
theory Api_Proxy
  imports Go_Path
begin

text \<open>
  \<open>internal/sysplane-agent/apiproxy/proxy.go\<close>: HTTP calls to services on the agent's own machine.
  Name resolution, the parsers of package \<open>net\<close> and the services that answer are parameters; the
  port policy, the loopback check of every connection and the redirect loop of \<open>http.Client\<close> are
  modelled.
\<close>

section \<open>Types\<close>

record proxy_policy =
  pp_allow_privileged_ports :: bool
  pp_allowed_ports :: "int list"

text \<open>Addresses by their bytes; \<open>IPv4\<close> is every address for which \<open>To4\<close> is not nil.\<close>

datatype ip_addr = IPv4 int int int int | IPv6 "int list"

fun is_loopback :: "ip_addr \<Rightarrow> bool" where
  "is_loopback (IPv4 a b c d) \<longleftrightarrow> a = 127"
| "is_loopback (IPv6 bs) \<longleftrightarrow> bs = replicate 15 0 @ [1]"

record net_env =
  ne_split_host_port :: "string \<Rightarrow> (string \<times> string) go_result"
  ne_lookup_host :: "string \<Rightarrow> (string list) go_result"
  ne_parse_ip :: "string \<Rightarrow> ip_addr option"

record call_params =
  cp_port :: int
  cp_path :: string
  cp_method :: string
  cp_headers :: "(string, string) gomap"
  cp_body :: string

record call_result =
  cx_request_url :: string
  cx_status_code :: int
  cx_headers :: "(string, string) gomap"
  cx_body :: string
  cx_body_is_json :: bool
  cx_duration_ms :: int

text \<open>A request goes to the address of its URL; a redirect carries the request that
  \<open>net/http\<close> derives from it.\<close>

record http_req =
  hq_addr :: string
  hq_method :: string
  hq_path :: string
  hq_headers :: "(string, string) gomap"
  hq_body :: "string option"

datatype http_reply =
    Reply int "(string, string) gomap" string
  | RedirectTo http_req
  | NoAnswer string

type_synonym http_world = "string \<Rightarrow> http_req \<Rightarrow> http_reply"

section \<open>The port policy\<close>

definition check_port :: "proxy_policy \<Rightarrow> int \<Rightarrow> string option" where
  "check_port cfg port =
     (if port \<le> 0 \<or> port > 65535 then Some (''proxy_local_api: invalid port '' @ dec_of_int port)
      else if \<not> pp_allow_privileged_ports cfg \<and> port < 1024
      then Some (''proxy_local_api: privileged port '' @ dec_of_int port @ '' not allowed'')
      else if pp_allowed_ports cfg \<noteq> [] \<and> port \<notin> set (pp_allowed_ports cfg)
      then Some (''proxy_local_api: port '' @ dec_of_int port @ '' not in allowed list'')
      else None)"

section \<open>Dialing\<close>

fun check_ips :: "net_env \<Rightarrow> string \<Rightarrow> ip_addr option \<Rightarrow> string list \<Rightarrow> (ip_addr option) go_result" where
  "check_ips net host first [] = Inr first"
| "check_ips net host first (ip # ips) =
     (case ne_parse_ip net ip of
        None \<Rightarrow> Inl (''apiproxy: resolved '' @ go_quote host @ '' to non-loopback IP '' @ ip)
      | Some parsed \<Rightarrow>
          if \<not> is_loopback parsed
          then Inl (''apiproxy: resolved '' @ go_quote host @ '' to non-loopback IP '' @ ip)
          else check_ips net host (if first = None then Some parsed else first) ips)"

fun dial_addr :: "ip_addr option \<Rightarrow> string \<Rightarrow> string" where
  "dial_addr (Some (IPv6 bs)) port = ''[::1]:'' @ port"
| "dial_addr _ port = ''127.0.0.1:'' @ port"

definition dial_context :: "net_env \<Rightarrow> string \<Rightarrow> string go_result" where
  "dial_context net addr =
     (case ne_split_host_port net addr of
        Inl e \<Rightarrow> Inl (''apiproxy: parse addr '' @ go_quote addr @ '': '' @ e)
      | Inr (host, port) \<Rightarrow>
     (case ne_lookup_host net host of
        Inl e \<Rightarrow> Inl (''apiproxy: resolve '' @ go_quote host @ '': '' @ e)
      | Inr ips \<Rightarrow>
     (case check_ips net host None ips of
        Inl e \<Rightarrow> Inl e
      | Inr first \<Rightarrow> Inr (dial_addr first port))))"

text \<open>\<open>http.Client.Do\<close> follows redirects and gives up after ten requests.  The list holds the
  addresses that were dialed.\<close>

fun client_do :: "net_env \<Rightarrow> http_world \<Rightarrow> nat \<Rightarrow> http_req
    \<Rightarrow> (int \<times> (string, string) gomap \<times> string) go_result \<times> string list" where
  "client_do net world 0 req = (Inl ''stopped after 10 redirects'', [])"
| "client_do net world (Suc n) req =
     (case dial_context net (hq_addr req) of
        Inl e \<Rightarrow> (Inl e, [])
      | Inr d \<Rightarrow>
          (case world d req of
             Reply code hs body \<Rightarrow> (Inr (code, hs, body), [d])
           | NoAnswer e \<Rightarrow> (Inl e, [d])
           | RedirectTo req' \<Rightarrow> (let (r, ds) = client_do net world n req' in (r, d # ds))))"

section \<open>\<open>Call\<close>\<close>

record call_env =
  ce_net :: net_env
  ce_world :: http_world
  ce_build_err :: "string \<Rightarrow> string \<Rightarrow> string option"
  ce_json_valid :: "string \<Rightarrow> bool"
  ce_elapsed_ms :: int

definition call_url :: "int \<Rightarrow> string \<Rightarrow> string" where
  "call_url port path = ''http://127.0.0.1:'' @ dec_of_int port @ path"

definition proxy_call :: "call_env \<Rightarrow> proxy_policy \<Rightarrow> call_params go_result \<Rightarrow> call_result go_result \<times> string list" where
  "proxy_call env cfg args =
     (case args of
        Inl e \<Rightarrow> (Inl (''proxy_local_api: invalid args: '' @ e), [])
      | Inr p \<Rightarrow>
     (case check_port cfg (cp_port p) of
        Some e \<Rightarrow> (Inl e, [])
      | None \<Rightarrow>
     let meth = (if cp_method p = [] then ''GET'' else cp_method p);
         path = (if has_prefix (cp_path p) ''/'' then cp_path p else ''/'' @ cp_path p);
         url = call_url (cp_port p) path in
     (case ce_build_err env meth url of
        Some e \<Rightarrow> (Inl (''proxy_local_api: build request: '' @ e), [])
      | None \<Rightarrow>
     let req = \<lparr> hq_addr = ''127.0.0.1:'' @ dec_of_int (cp_port p), hq_method = meth, hq_path = path,
                 hq_headers = cp_headers p, hq_body = (if cp_body p = [] then None else Some (cp_body p)) \<rparr> in
     (case client_do (ce_net env) (ce_world env) 10 req of
        (Inl e, ds) \<Rightarrow> (Inl (''proxy_local_api: '' @ e), ds)
      | (Inr (code, hs, body), ds) \<Rightarrow>
          (Inr \<lparr> cx_request_url = url, cx_status_code = code, cx_headers = hs, cx_body = body,
                 cx_body_is_json = (ce_json_valid env body \<and> body \<noteq> []),
                 cx_duration_ms = ce_elapsed_ms env \<rparr>, ds)))))"

section \<open>Properties\<close>

definition loopback_addr :: "string \<Rightarrow> bool" where
  "loopback_addr a \<longleftrightarrow> has_prefix a ''127.0.0.1:'' \<or> has_prefix a ''[::1]:''"

lemma dial_addr_loopback: "loopback_addr (dial_addr f port)"
proof (cases f)
  case None
  then show ?thesis by (simp add: loopback_addr_def has_prefix_def)
next
  case (Some x)
  then show ?thesis by (cases x) (simp_all add: loopback_addr_def has_prefix_def)
qed

lemma dial_context_loopback: "dial_context net addr = Inr d \<Longrightarrow> loopback_addr d"
  by (auto simp: dial_context_def dial_addr_loopback split: sum.split_asm prod.split_asm)

lemma client_do_dials:
  "(\<forall>d \<in> set (snd (client_do net world n req)). loopback_addr d) \<and> length (snd (client_do net world n req)) \<le> n"
proof (induction n arbitrary: req)
  case 0
  then show ?case by simp
next
  case (Suc n)
  show ?case
  proof (cases "dial_context net (hq_addr req)")
    case (Inl e)
    then show ?thesis by simp
  next
    case (Inr d)
    have d: "loopback_addr d" using Inr by (rule dial_context_loopback)
    show ?thesis
    proof (cases "world d req")
      case (RedirectTo req')
      obtain r ds where rec: "client_do net world n req' = (r, ds)" by fastforce
      with Suc.IH [of req'] Inr RedirectTo d show ?thesis by simp
    qed (simp_all add: Inr d)
  qed
qed

text \<open>C34: Whatever the arguments, the resolver and the services answer, redirects included, a call
  only ever connects to loopback addresses, it makes at most ten connections, and it makes none
  at all when the port policy refuses the requested port.\<close>

theorem proxy_stays_on_loopback:
  "(\<forall>d \<in> set (snd (proxy_call env cfg args)). loopback_addr d) \<and>
   length (snd (proxy_call env cfg args)) \<le> 10 \<and>
   (\<forall>p. args = Inr p \<and> check_port cfg (cp_port p) \<noteq> None \<longrightarrow> snd (proxy_call env cfg args) = [])"
proof -
  have ds: "(\<forall>d \<in> set ds. loopback_addr d) \<and> length ds \<le> 10"
    if c: "client_do (ce_net env) (ce_world env) 10 req = (r, ds)" for req r ds
    using client_do_dials [of "ce_net env" "ce_world env" 10 req] unfolding c by simp
  show ?thesis
  proof (cases args)
    case (Inl e)
    then show ?thesis by (simp add: proxy_call_def)
  next
    case (Inr p)
    show ?thesis
    proof (cases "check_port cfg (cp_port p)")
      case (Some e)
      with Inr show ?thesis by (simp add: proxy_call_def)
    next
      case None
      define meth where "meth = (if cp_method p = [] then ''GET'' else cp_method p)"
      define path where "path = (if has_prefix (cp_path p) ''/'' then cp_path p else ''/'' @ cp_path p)"
      obtain r ds' where c: "client_do (ce_net env) (ce_world env) 10
          \<lparr> hq_addr = ''127.0.0.1:'' @ dec_of_int (cp_port p), hq_method = meth, hq_path = path,
            hq_headers = cp_headers p, hq_body = (if cp_body p = [] then None else Some (cp_body p)) \<rparr> = (r, ds')"
        by fastforce
      have "snd (proxy_call env cfg args) = [] \<or> snd (proxy_call env cfg args) = ds'"
        unfolding proxy_call_def Inr sum.case None option.case Let_def
          meth_def [symmetric] path_def [symmetric] c
        by (cases "ce_build_err env meth (call_url (cp_port p) path)"; cases r) auto
      with ds [OF c] None Inr show ?thesis by auto
    qed
  qed
qed

definition sample_net :: net_env where
  "sample_net = \<lparr> ne_split_host_port = (\<lambda>a. case split_char (CHR '':'') a of [h, p] \<Rightarrow> Inr (h, p) | _ \<Rightarrow> Inl ''bad''),
     ne_lookup_host = (\<lambda>h. Inr [h]),
     ne_parse_ip = (\<lambda>s. if s = ''127.0.0.1'' then Some (IPv4 127 0 0 1) else if s = ''10.0.0.5'' then Some (IPv4 10 0 0 5) else None) \<rparr>"

definition redirecting_world :: http_world where
  "redirecting_world d req =
     (if d = ''127.0.0.1:9''
      then RedirectTo \<lparr> hq_addr = (if hq_path req = ''/out'' then ''10.0.0.5:80'' else ''127.0.0.1:7''), hq_method = ''GET'',
             hq_path = ''/admin'', hq_headers = [], hq_body = None \<rparr>
      else Reply 200 [] ''ok'')"

definition sample_call_env :: call_env where
  "sample_call_env = \<lparr> ce_net = sample_net, ce_world = redirecting_world, ce_build_err = (\<lambda>_ _. None),
     ce_json_valid = (\<lambda>_. False), ce_elapsed_ms = 0 \<rparr>"

definition sample_call :: "string \<Rightarrow> call_params" where
  "sample_call path = \<lparr> cp_port = 9, cp_path = path, cp_method = [], cp_headers = [], cp_body = [] \<rparr>"

definition only_9 :: proxy_policy where
  "only_9 = \<lparr> pp_allow_privileged_ports = True, pp_allowed_ports = [9] \<rparr>"

theorem proxy_stays_on_loopback_witness:
  "snd (proxy_call sample_call_env only_9 (Inr (sample_call ''/out''))) = [''127.0.0.1:9''] \<and>
   snd (proxy_call sample_call_env only_9 (Inr ((sample_call ''/'')\<lparr>cp_port := 22\<rparr>))) = []"
proof -
  have "snd (proxy_call sample_call_env only_9 (Inr ((sample_call ''/'')\<lparr>cp_port := 22\<rparr>))) = []"
    using proxy_stays_on_loopback [of sample_call_env only_9 "Inr ((sample_call ''/'')\<lparr>cp_port := 22\<rparr>)"]
    by (simp add: check_port_def only_9_def)
  moreover have "snd (proxy_call sample_call_env only_9 (Inr (sample_call ''/out''))) = [''127.0.0.1:9'']"
    by code_simp
  ultimately show ?thesis by simp
qed

text \<open>The port policy judges only the first request: a service on a permitted port can redirect the
  call to another port, which the policy refuses.\<close>

lemma redirect_leaves_port_policy:
  "snd (proxy_call sample_call_env only_9 (Inr (sample_call ''/''))) = [''127.0.0.1:9'', ''127.0.0.1:7''] \<and>
   check_port only_9 7 \<noteq> None"
  by code_simp

end
