(* ===== verification/Hardware.thy ===== *)
theory Hardware
  imports Prelude
begin

text \<open>
  \<open>internal/sysplane-agent/collector/hardware.go\<close>: the hardware report.  What gopsutil reads from the
  machine is the record \<open>probes\<close>; the five goroutines write disjoint sections, so their order does
  not matter and each is a function of its own probes.  Floating-point values pass through
  unchanged.
\<close>

record cpu_info =
  ci_model_name :: string
  ci_physical_cores :: int
  ci_logical_cores :: int
  ci_usage_percent :: "rat list"

record mem_info =
  mi_total_bytes :: int
  mi_available_bytes :: int
  mi_used_bytes :: int
  mi_used_percent :: rat

record disk_info =
  di_device :: string
  di_mountpoint :: string
  di_fstype :: string
  di_total_bytes :: int
  di_free_bytes :: int
  di_used_percent :: rat

record net_info =
  ni_name :: string
  ni_hardware_addr :: string
  ni_addrs :: "string list"
  ni_bytes_sent :: int
  ni_bytes_recv :: int

record system_info =
  si_hostname :: string
  si_os :: string
  si_platform :: string
  si_platform_version :: string
  si_kernel_version :: string
  si_uptime_seconds :: int
  si_boot_time :: int

record hardware_info =
  hw_cpu :: cpu_info
  hw_memory :: mem_info
  hw_disks :: "disk_info list"
  hw_network :: "net_info list"
  hw_system :: system_info

record disk_usage =
  du_total :: int
  du_free :: int
  du_used_percent :: rat

record probes =
  pb_cpu_models :: "(string list) go_result"
  pb_cpu_counts :: "bool \<Rightarrow> int"
  pb_cpu_percent :: "(rat list) go_result"
  pb_memory :: "mem_info go_result"
  pb_partitions :: "((string \<times> string \<times> string) list) go_result"
  pb_usage :: "string \<Rightarrow> disk_usage go_result"
  pb_interfaces :: "((string \<times> string \<times> string list) list) go_result"
  pb_counters :: "(string \<times> int \<times> int) list"
  pb_host :: "system_info go_result"

definition empty_cpu :: cpu_info where
  "empty_cpu = \<lparr> ci_model_name = [], ci_physical_cores = 0, ci_logical_cores = 0, ci_usage_percent = [] \<rparr>"

definition empty_mem :: mem_info where
  "empty_mem = \<lparr> mi_total_bytes = 0, mi_available_bytes = 0, mi_used_bytes = 0, mi_used_percent = 0 \<rparr>"

definition empty_system :: system_info where
  "empty_system = \<lparr> si_hostname = [], si_os = [], si_platform = [], si_platform_version = [],
     si_kernel_version = [], si_uptime_seconds = 0, si_boot_time = 0 \<rparr>"

definition collect_cpu :: "probes \<Rightarrow> cpu_info" where
  "collect_cpu pb =
     (case pb_cpu_models pb of
        Inl _ \<Rightarrow> empty_cpu
      | Inr [] \<Rightarrow> empty_cpu
      | Inr (model # _) \<Rightarrow>
          \<lparr> ci_model_name = model, ci_physical_cores = pb_cpu_counts pb False,
            ci_logical_cores = pb_cpu_counts pb True,
            ci_usage_percent = (case pb_cpu_percent pb of Inl _ \<Rightarrow> [] | Inr us \<Rightarrow> us) \<rparr>)"

definition collect_memory :: "probes \<Rightarrow> mem_info" where
  "collect_memory pb = (case pb_memory pb of Inl _ \<Rightarrow> empty_mem | Inr m \<Rightarrow> m)"

fun disk_loop :: "(string \<Rightarrow> disk_usage go_result) \<Rightarrow> (string \<times> string \<times> string) list \<Rightarrow> disk_info list \<Rightarrow> disk_info list" where
  "disk_loop usage [] acc = acc"
| "disk_loop usage ((dev, mnt, fstype) # parts) acc =
     (case usage mnt of
        Inl _ \<Rightarrow> disk_loop usage parts acc
      | Inr u \<Rightarrow> disk_loop usage parts (acc @
          [\<lparr> di_device = dev, di_mountpoint = mnt, di_fstype = fstype, di_total_bytes = du_total u,
             di_free_bytes = du_free u, di_used_percent = du_used_percent u \<rparr>]))"

definition collect_disks :: "probes \<Rightarrow> disk_info list" where
  "collect_disks pb = (case pb_partitions pb of Inl _ \<Rightarrow> [] | Inr parts \<Rightarrow> disk_loop (pb_usage pb) parts [])"

definition counter_map :: "(string \<times> int \<times> int) list \<Rightarrow> (string, int \<times> int) gomap" where
  "counter_map cs = fold (\<lambda>(n, c) m. gupd n c m) cs []"

definition net_row :: "(string, int \<times> int) gomap \<Rightarrow> string \<times> string \<times> string list \<Rightarrow> net_info" where
  "net_row counters = (\<lambda>(name, hw, addrs).
     let (sent, recv) = (case map_of counters name of None \<Rightarrow> (0, 0) | Some c \<Rightarrow> c)
     in \<lparr> ni_name = name, ni_hardware_addr = hw, ni_addrs = addrs, ni_bytes_sent = sent, ni_bytes_recv = recv \<rparr>)"

definition collect_network :: "probes \<Rightarrow> net_info list" where
  "collect_network pb =
     (case pb_interfaces pb of
        Inl _ \<Rightarrow> []
      | Inr ifs \<Rightarrow> map (net_row (counter_map (pb_counters pb))) ifs)"

text \<open>\<open>int64(info.BootTime)\<close> converts an unsigned value.\<close>

definition collect_system :: "probes \<Rightarrow> system_info" where
  "collect_system pb =
     (case pb_host pb of Inl _ \<Rightarrow> empty_system | Inr h \<Rightarrow> h\<lparr>si_boot_time := wrap64 (si_boot_time h)\<rparr>)"

definition get_hardware_info :: "probes \<Rightarrow> hardware_info go_result" where
  "get_hardware_info pb =
     Inr \<lparr> hw_cpu = collect_cpu pb, hw_memory = collect_memory pb, hw_disks = collect_disks pb,
           hw_network = collect_network pb, hw_system = collect_system pb \<rparr>"

lemma disk_loop_append: "disk_loop usage parts acc = acc @ disk_loop usage parts []"
proof (induction parts arbitrary: acc)
  case Nil
  then show ?case by simp
next
  case (Cons p parts)
  obtain dev mnt fstype where p: "p = (dev, mnt, fstype)" by (cases p)
  show ?case
  proof (cases "usage mnt")
    case (Inl e)
    have "disk_loop usage parts acc = acc @ disk_loop usage parts []" by (rule Cons.IH)
    with p Inl show ?thesis by simp
  next
    case (Inr u)
    define x where "x = \<lparr> di_device = dev, di_mountpoint = mnt, di_fstype = fstype, di_total_bytes = du_total u,
             di_free_bytes = du_free u, di_used_percent = du_used_percent u \<rparr>"
    have "disk_loop usage parts (acc @ [x]) = (acc @ [x]) @ disk_loop usage parts []" by (rule Cons.IH)
    moreover have "disk_loop usage parts [x] = [x] @ disk_loop usage parts []" by (rule Cons.IH)
    ultimately show ?thesis using p Inr by (simp add: x_def)
  qed
qed

lemma disk_loop_mounts:
  "map di_mountpoint (disk_loop usage parts []) = filter (\<lambda>m. is_ok (usage m)) (map (\<lambda>(d, m, f). m) parts)"
proof (induction parts)
  case Nil
  then show ?case by simp
next
  case (Cons p parts)
  obtain dev mnt fstype where p: "p = (dev, mnt, fstype)" by (cases p)
  show ?case
  proof (cases "usage mnt")
    case (Inl e)
    with p Cons.IH show ?thesis by simp
  next
    case (Inr u)
    define x where "x = \<lparr> di_device = dev, di_mountpoint = mnt, di_fstype = fstype, di_total_bytes = du_total u,
             di_free_bytes = du_free u, di_used_percent = du_used_percent u \<rparr>"
    have "disk_loop usage parts [x] = [x] @ disk_loop usage parts []" by (rule disk_loop_append)
    moreover have "di_mountpoint x = mnt" by (simp add: x_def)
    ultimately show ?thesis using p Inr Cons.IH by (simp add: x_def)
  qed
qed

text \<open>The report never fails: what cannot be read is left empty, and the disks are those
  partitions whose usage can be read, in the order of the system.\<close>

lemma hardware_report_total:
  "\<exists>hw. get_hardware_info pb = Inr hw \<and>
     map di_mountpoint (hw_disks hw) =
       (case pb_partitions pb of Inl _ \<Rightarrow> []
        | Inr parts \<Rightarrow> filter (\<lambda>m. is_ok (pb_usage pb m)) (map (\<lambda>(d, m, f). m) parts)) \<and>
     (case pb_interfaces pb of Inl _ \<Rightarrow> hw_network hw = []
      | Inr ifs \<Rightarrow> map ni_name (hw_network hw) = map fst ifs)"
  by (auto simp: get_hardware_info_def collect_disks_def disk_loop_mounts collect_network_def net_row_def
      split: sum.split prod.split)

end
