(* ===== verification/Agent_Core.thy ===== *)
theory Agent_Core
  imports File_Ops Cmd_Exec Api_Proxy Hardware Configs Router Dialer "HOL-Library.Multiset"
begin

text \<open>
  \<open>internal/sysplane-agent/agent.go\<close>: the table of tools, the security settings that can be changed
  while the agent runs, and the dispatch of tool and cancel requests to goroutines.

  A goroutine that runs a tool is a task; its handler takes effect in one step, at any time
  after the request has come and with any state of its context, so tasks interleave freely.  JSON and
  YAML are parameters (\<open>tool_codec\<close>, \<open>yaml_codec\<close>), the machine the agent runs on is \<open>agent_host\<close>.
\<close>

section \<open>Parameters\<close>

record tool_codec =
  tc_list :: "string \<Rightarrow> list_params go_result"
  tc_path :: "string \<Rightarrow> string go_result"
  tc_read :: "string \<Rightarrow> read_params go_result"
  tc_write :: "string \<Rightarrow> write_params go_result"
  tc_search :: "string \<Rightarrow> search_params go_result"
  tc_run :: "string \<Rightarrow> run_params go_result"
  tc_call :: "string \<Rightarrow> call_params go_result"
  tc_security :: "string \<Rightarrow> security go_result"
  te_list :: "list_result \<Rightarrow> string"
  te_stat :: "stat_result \<Rightarrow> string"
  te_exists :: "exists_result \<Rightarrow> string"
  te_read :: "read_result \<Rightarrow> string"
  te_write :: "write_result \<Rightarrow> string"
  te_search :: "search_result \<Rightarrow> string"
  te_run :: "run_result \<Rightarrow> string"
  te_call :: "call_result \<Rightarrow> string"
  te_hardware :: "hardware_info \<Rightarrow> string"
  te_security :: "security \<Rightarrow> string"

text \<open>YAML: text to a map (\<open>None\<close> for a document that leaves the map nil), a map to text, and the
  decoding of a map into the configuration struct.\<close>

datatype yval = YStr string | YInt int | YBool bool | YStrs "string list" | YInts "int list" | YMap "(string \<times> yval) list"

type_synonym ymap = "(string \<times> yval) list"

record yaml_codec =
  yc_to_map :: "string \<Rightarrow> (ymap option) go_result"
  yc_of_map :: "ymap \<Rightarrow> string go_result"
  yc_struct :: "ymap \<Rightarrow> agent_config go_result"

definition yaml_config :: "yaml_codec \<Rightarrow> string \<Rightarrow> agent_config go_result" where
  "yaml_config y data =
     (case yc_to_map y data of
        Inl e \<Rightarrow> Inl e
      | Inr m \<Rightarrow> yc_struct y (case m of None \<Rightarrow> [] | Some kvs \<Rightarrow> kvs))"

record agent_host =
  ah_codec :: tool_codec
  ah_yaml :: yaml_codec
  ah_cwd :: fpath
  ah_meta :: "fpath \<Rightarrow> file_meta"
  ah_exec :: os_exec
  ah_call :: call_env
  ah_regexp :: regexp_compile
  ah_probes :: probes

section \<open>State\<close>

record task =
  tk_id :: string
  tk_tool :: string
  tk_args :: string
  tk_canceled :: bool
  tk_done :: bool

record agent =
  ag_cfg :: agent_config
  ag_security :: security
  ag_fs :: fsys
  ag_tasks :: "task list"
  ag_cancel_fns :: "(string, nat) gomap"
  ag_out :: "tunnel_msg list"
  ag_crashed :: bool

definition new_agent :: "agent_config \<Rightarrow> fsys \<Rightarrow> agent" where
  "new_agent cfg fs = \<lparr> ag_cfg = cfg, ag_security = ac_security cfg, ag_fs = fs, ag_tasks = [],
     ag_cancel_fns = [], ag_out = [], ag_crashed = False \<rparr>"

definition agent_env :: "agent_host \<Rightarrow> agent \<Rightarrow> file_env" where
  "agent_env h a = \<lparr> fe_fs = ag_fs a, fe_cwd = ah_cwd h, fe_meta = ah_meta h \<rparr>"

definition agent_path_guard :: "agent \<Rightarrow> path_guard" where
  "agent_path_guard a = new_path_guard (sec_allowed_paths (ag_security a)) (sec_blocked_paths (ag_security a))"

section \<open>The security settings\<close>

text \<open>A handler answers, fails, or panics; a panic in a goroutine ends the process.\<close>

datatype handled = Answer string | Failed string | Panicked

definition handle_get_config :: "agent_host \<Rightarrow> agent \<Rightarrow> handled" where
  "handle_get_config h a = Answer (te_security (ah_codec h) (ag_security a))"

definition yaml_security_map :: "security \<Rightarrow> ymap" where
  "yaml_security_map sec =
     [(''allowed_paths'', YStrs (sec_allowed_paths sec)), (''blocked_paths'', YStrs (sec_blocked_paths sec)),
      (''max_file_size_mb'', YInt (sec_max_file_size_mb sec)),
      (''allow_privileged_ports'', YBool (sec_allow_privileged_ports sec)),
      (''allowed_ports'', YInts (sec_allowed_ports sec)), (''allowed_commands'', YStrs (sec_allowed_commands sec))]"

text \<open>\<open>persistSecurityConfig\<close>; storing into the nil map of an empty document panics.\<close>

datatype persisted = PersistErr string | PersistPanic | PersistOk fsys

definition read_whole_file :: "agent_host \<Rightarrow> fsys \<Rightarrow> string \<Rightarrow> string go_result" where
  "read_whole_file h fs path =
     (case os_stat fs (ah_cwd h) path of
        Inl e \<Rightarrow> Inl (path_error ''open'' path (errno_text e))
      | Inr (_, node) \<Rightarrow> if node = FDir then Inl (path_error ''read'' path ''is a directory'') else Inr (node_bytes node))"

definition persist_security_config :: "agent_host \<Rightarrow> string \<Rightarrow> security \<Rightarrow> fsys \<Rightarrow> persisted" where
  "persist_security_config h path sec fs =
     (case read_whole_file h fs path of
        Inl e \<Rightarrow> PersistErr e
      | Inr data \<Rightarrow>
     (case yc_to_map (ah_yaml h) data of
        Inl e \<Rightarrow> PersistErr e
      | Inr None \<Rightarrow> PersistPanic
      | Inr (Some raw) \<Rightarrow>
     (case yc_of_map (ah_yaml h) (gupd ''security'' (YMap (yaml_security_map sec)) raw) of
        Inl e \<Rightarrow> PersistErr e
      | Inr out \<Rightarrow>
     (case open_create fs (ah_cwd h) False path of
        Inl e \<Rightarrow> PersistErr (path_error ''open'' path (create_text e))
      | Inr dest \<Rightarrow> PersistOk (write_node fs dest out)))))"

definition check_new_commands :: "string list \<Rightarrow> string option" where
  "check_new_commands cmds =
     check_commands ''allowed_commands must not contain empty values''
       (\<lambda>c. ''allowed_commands: '' @ go_quote c @ '' must be an absolute path'') cmds"

definition handle_set_config :: "agent_host \<Rightarrow> string \<Rightarrow> agent \<Rightarrow> handled \<times> agent" where
  "handle_set_config h args a =
     (case tc_security (ah_codec h) args of
        Inl e \<Rightarrow> (Failed (''invalid security config: '' @ e), a)
      | Inr sec \<Rightarrow>
     (case check_new_commands (sec_allowed_commands sec) of
        Some e \<Rightarrow> (Failed e, a)
      | None \<Rightarrow>
     if ac_config_path (ag_cfg a) \<noteq> [] then
       (case persist_security_config h (ac_config_path (ag_cfg a)) sec (ag_fs a) of
          PersistErr e \<Rightarrow> (Failed (''persist config: '' @ e), a)
        | PersistPanic \<Rightarrow> (Panicked, a)
        | PersistOk fs' \<Rightarrow> (Answer (te_security (ah_codec h) sec), a\<lparr>ag_fs := fs', ag_security := sec\<rparr>))
     else (Answer (te_security (ah_codec h) sec), a\<lparr>ag_security := sec\<rparr>)))"

section \<open>The table of tools\<close>

definition answered :: "('r \<Rightarrow> string) \<Rightarrow> 'r go_result \<Rightarrow> handled" where
  "answered enc r = (case r of Inl e \<Rightarrow> Failed e | Inr x \<Rightarrow> Answer (enc x))"

definition agent_tools :: "string list" where
  "agent_tools = [''list_directory'', ''stat_file'', ''check_path_exists'', ''read_file'', ''write_file'',
     ''search_file_content'', ''get_hardware_info'', ''run_process'', ''proxy_local_api'',
     ''get_agent_config'', ''set_agent_config'']"

definition agent_handler :: "agent_host \<Rightarrow> go_ctx \<Rightarrow> string \<Rightarrow> string \<Rightarrow> agent \<Rightarrow> (handled \<times> agent) option" where
  "agent_handler h ctx tool args a =
     (let c = ah_codec h; env = agent_env h a; g = agent_path_guard a; sec = ag_security a in
      if tool = ''list_directory'' then Some (answered (te_list c) (list_directory env g ctx (tc_list c args)), a)
      else if tool = ''stat_file'' then Some (answered (te_stat c) (stat_file env g (tc_path c args)), a)
      else if tool = ''check_path_exists'' then Some (answered (te_exists c) (check_path_exists env g (tc_path c args)), a)
      else if tool = ''read_file'' then
        Some (answered (te_read c) (read_file env g (sec_max_file_size_mb sec) ctx (tc_read c args)), a)
      else if tool = ''write_file'' then
        (let (r, fs') = write_file env g ctx (tc_write c args) in Some (answered (te_write c) r, a\<lparr>ag_fs := fs'\<rparr>))
      else if tool = ''search_file_content'' then
        Some (answered (te_search c) (search_file_content env (ah_regexp h) g ctx (tc_search c args)), a)
      else if tool = ''get_hardware_info'' then Some (answered (te_hardware c) (get_hardware_info (ah_probes h)), a)
      else if tool = ''run_process'' then
        Some (answered (te_run c) (fst (runner_run (ah_exec h) (new_runner (sec_allowed_commands sec)) (tc_run c args))), a)
      else if tool = ''proxy_local_api'' then
        Some (answered (te_call c) (fst (proxy_call (ah_call h)
          \<lparr> pp_allow_privileged_ports = sec_allow_privileged_ports sec, pp_allowed_ports = sec_allowed_ports sec \<rparr>
          (tc_call c args))), a)
      else if tool = ''get_agent_config'' then Some (handle_get_config h a, a)
      else if tool = ''set_agent_config'' then Some (handle_set_config h args a)
      else None)"

section \<open>Dispatch\<close>

definition agent_dispatch :: "tunnel_msg \<Rightarrow> agent \<Rightarrow> agent" where
  "agent_dispatch msg a =
     (case get_cancel_request msg of
        Some rid \<Rightarrow>
          (case map_of (ag_cancel_fns a) rid of
             None \<Rightarrow> a
           | Some i \<Rightarrow> a\<lparr>ag_cancel_fns := gdel rid (ag_cancel_fns a),
               ag_tasks := (ag_tasks a)[i := (ag_tasks a ! i)\<lparr>tk_canceled := True\<rparr>]\<rparr>)
      | None \<Rightarrow>
     (case get_tool_request msg of
        None \<Rightarrow> a
      | Some req \<Rightarrow>
          a\<lparr>ag_cancel_fns := gupd (tq_request_id req) (length (ag_tasks a)) (ag_cancel_fns a),
            ag_tasks := ag_tasks a @ [\<lparr> tk_id = tq_request_id req, tk_tool = tq_tool_name req,
              tk_args = tq_args_json req, tk_canceled = False, tk_done = False \<rparr>]\<rparr>))"

definition error_msg :: "string \<Rightarrow> string \<Rightarrow> string \<Rightarrow> tunnel_msg" where
  "error_msg rid code msg = MErrorResponse \<lparr> er_request_id = rid, er_code = code, er_message = msg \<rparr>"

definition task_finish :: "nat \<Rightarrow> tunnel_msg \<Rightarrow> agent \<Rightarrow> agent" where
  "task_finish i msg a =
     a\<lparr>ag_out := ag_out a @ [msg],
       ag_tasks := (ag_tasks a)[i := (ag_tasks a ! i)\<lparr>tk_done := True\<rparr>],
       ag_cancel_fns := gdel (tk_id (ag_tasks a ! i)) (ag_cancel_fns a)\<rparr>"

definition task_run :: "agent_host \<Rightarrow> go_ctx \<Rightarrow> nat \<Rightarrow> agent \<Rightarrow> agent" where
  "task_run h ctx i a =
     (let t = ag_tasks a ! i in
      case agent_handler h ctx (tk_tool t) (tk_args t) a of
        None \<Rightarrow> task_finish i (error_msg (tk_id t) ''TOOL_NOT_FOUND''
                  (''tool '' @ go_quote (tk_tool t) @ '' not found'')) a
      | Some (Failed e, a') \<Rightarrow> task_finish i (error_msg (tk_id t) ''TOOL_ERROR'' e) a'
      | Some (Answer json, a') \<Rightarrow> task_finish i (MToolResponse (tk_id t) json) a'
      | Some (Panicked, a') \<Rightarrow> a'\<lparr>ag_crashed := True\<rparr>)"

datatype agent_event = AgMessage tunnel_msg | AgRun nat go_ctx

fun agent_step :: "agent_host \<Rightarrow> agent_event \<Rightarrow> agent \<Rightarrow> agent option" where
  "agent_step h (AgMessage msg) a = (if ag_crashed a then None else Some (agent_dispatch msg a))"
| "agent_step h (AgRun i ctx) a =
     (if \<not> ag_crashed a \<and> i < length (ag_tasks a) \<and> \<not> tk_done (ag_tasks a ! i) then Some (task_run h ctx i a) else None)"

definition agent_reach :: "agent_host \<Rightarrow> agent_config \<Rightarrow> fsys \<Rightarrow> agent \<Rightarrow> bool" where
  "agent_reach h cfg fs a \<longleftrightarrow> (\<exists>es. reached (agent_step h) (new_agent cfg fs) es a)"

section \<open>Registration\<close>

definition agent_register_msg :: "agent_config \<Rightarrow> string go_result \<Rightarrow> string \<Rightarrow> string \<Rightarrow> string \<Rightarrow> tunnel_msg" where
  "agent_register_msg cfg os_hostname goos goarch git_tag =
     MRegisterRequest \<lparr> rq_hostname = (if ac_hostname cfg = []
          then (case os_hostname of Inl _ \<Rightarrow> [] | Inr n \<Rightarrow> n) else ac_hostname cfg),
       rq_ip = [], rq_os = goos @ ''/'' @ goarch, rq_agent_version = git_tag, rq_node_type = NODE_TYPE_AGENT,
       rq_proxy_path = [], rq_token = ac_upstream_token cfg \<rparr>"

text \<open>The dialer's settings: a heartbeat every 30 seconds and the configured reconnect delay.\<close>

definition agent_dialer_config :: "agent_config \<Rightarrow> dialer_config" where
  "agent_dialer_config cfg =
     \<lparr> dc_heartbeat_interval = 30 * second, dc_reconnect_max_delay = wrap64 (ac_reconnect_max_delay_sec cfg * second) \<rparr>"

section \<open>The invariant of the dispatcher\<close>

definition agent_inv :: "agent \<Rightarrow> bool" where
  "agent_inv a \<longleftrightarrow>
     (\<forall>rid i. map_of (ag_cancel_fns a) rid = Some i \<longrightarrow>
        i < length (ag_tasks a) \<and> tk_id (ag_tasks a ! i) = rid \<and> \<not> tk_done (ag_tasks a ! i)) \<and>
     mset (map response_id (ag_out a)) = mset (map (\<lambda>t. Some (tk_id t)) (filter tk_done (ag_tasks a)))"

definition same_tasks :: "agent \<Rightarrow> agent \<Rightarrow> bool" where
  "same_tasks a a' \<longleftrightarrow> ag_tasks a' = ag_tasks a \<and> ag_cancel_fns a' = ag_cancel_fns a \<and> ag_out a' = ag_out a \<and>
     ag_cfg a' = ag_cfg a \<and> ag_crashed a' = ag_crashed a"

lemma same_tasks_refl [simp]: "same_tasks a a"
  by (simp add: same_tasks_def)

lemma set_config_same_tasks: "handle_set_config h args a = (r, a') \<Longrightarrow> same_tasks a a'"
  by (auto simp: handle_set_config_def same_tasks_def
      split: sum.split_asm option.split_asm if_split_asm persisted.split_asm)

lemma handler_same_tasks:
  assumes "agent_handler h ctx tool args a = Some (r, a')"
  shows "same_tasks a a'"
proof -
  have w: "same_tasks a (a\<lparr>ag_fs := fs'\<rparr>)" for fs' by (simp add: same_tasks_def)
  obtain r0 a0 where s: "handle_set_config h args a = (r0, a0)" by fastforce
  obtain r1 fs1 where wf: "write_file (agent_env h a) (agent_path_guard a) ctx (tc_write (ah_codec h) args) = (r1, fs1)"
    by fastforce
  show ?thesis
    using assms set_config_same_tasks [OF s] w [of fs1]
    unfolding agent_handler_def Let_def s wf prod.case
    by (simp split: if_split_asm)
qed

lemma finished_update:
  "i < length ts \<Longrightarrow> \<not> tk_done (ts ! i) \<Longrightarrow>
   mset (map (\<lambda>t. Some (tk_id t)) (filter tk_done (ts[i := (ts ! i)\<lparr>tk_done := True\<rparr>]))) =
   add_mset (Some (tk_id (ts ! i))) (mset (map (\<lambda>t. Some (tk_id t)) (filter tk_done ts)))"
proof (induction ts arbitrary: i)
  case Nil
  then show ?case by simp
next
  case (Cons t ts)
  then show ?case by (cases i) auto
qed

lemma finished_cancel:
  "filter tk_done (ts[i := (ts ! i)\<lparr>tk_canceled := True\<rparr>]) = (if i < length ts \<and> tk_done (ts ! i)
     then (filter tk_done ts)[length (filter tk_done (take i ts)) := (ts ! i)\<lparr>tk_canceled := True\<rparr>]
     else filter tk_done ts)"
proof (induction ts arbitrary: i)
  case Nil
  then show ?case by simp
next
  case (Cons t ts)
  then show ?case by (cases i) auto
qed

lemma agent_inv_new: "agent_inv (new_agent cfg fs)"
  by (simp add: agent_inv_def new_agent_def)

lemma agent_inv_same: "same_tasks a a' \<Longrightarrow> agent_inv a \<Longrightarrow> agent_inv a'"
  by (simp add: agent_inv_def same_tasks_def)

lemma agent_inv_crash: "agent_inv a \<Longrightarrow> agent_inv (a\<lparr>ag_crashed := True\<rparr>)"
  by (simp add: agent_inv_def)

lemma agent_inv_dispatch:
  assumes "agent_inv a"
  shows "agent_inv (agent_dispatch msg a)"
proof (cases "get_cancel_request msg")
  case (Some rid)
  show ?thesis
  proof (cases "map_of (ag_cancel_fns a) rid")
    case None
    with Some assms show ?thesis by (simp add: agent_dispatch_def)
  next
    case i: (Some i)
    with assms have live: "i < length (ag_tasks a)" "\<not> tk_done (ag_tasks a ! i)"
      by (auto simp: agent_inv_def)
    have upd: "tk_id (((ag_tasks a)[i := (ag_tasks a ! i)\<lparr>tk_canceled := True\<rparr>]) ! j) = tk_id (ag_tasks a ! j) \<and>
        tk_done (((ag_tasks a)[i := (ag_tasks a ! i)\<lparr>tk_canceled := True\<rparr>]) ! j) = tk_done (ag_tasks a ! j)" for j
      using live(1) by (cases "j = i") auto
    show ?thesis
      using assms Some i live
      by (simp add: agent_dispatch_def agent_inv_def upd finished_cancel)
  qed
next
  case None
  show ?thesis
  proof (cases "get_tool_request msg")
    case n: None
    with None assms show ?thesis by (simp add: agent_dispatch_def)
  next
    case (Some req)
    with None assms show ?thesis
      by (auto simp: agent_dispatch_def agent_inv_def nth_append intro: less_SucI)
  qed
qed

lemma agent_inv_finish:
  assumes "agent_inv a" and i: "i < length (ag_tasks a)" "\<not> tk_done (ag_tasks a ! i)"
    and "response_id msg = Some (tk_id (ag_tasks a ! i))"
  shows "agent_inv (task_finish i msg a)"
proof -
  have upd: "tk_id (((ag_tasks a)[i := (ag_tasks a ! i)\<lparr>tk_done := True\<rparr>]) ! j) = tk_id (ag_tasks a ! j)" for j
    using i(1) by (cases "j = i") auto
  have fns: "j < length (ag_tasks a) \<and> tk_id (ag_tasks a ! j) = rid \<and>
      \<not> tk_done (((ag_tasks a)[i := (ag_tasks a ! i)\<lparr>tk_done := True\<rparr>]) ! j)"
    if "map_of (ag_cancel_fns a) rid = Some j" "rid \<noteq> tk_id (ag_tasks a ! i)" for rid j
  proof -
    from that(1) assms(1) have j: "j < length (ag_tasks a)" "tk_id (ag_tasks a ! j) = rid" "\<not> tk_done (ag_tasks a ! j)"
      by (auto simp: agent_inv_def)
    with that(2) have "j \<noteq> i" by auto
    with j show ?thesis by simp
  qed
  show ?thesis
    using assms fns finished_update [OF i]
    by (auto simp: agent_inv_def task_finish_def upd split: if_split_asm)
qed

lemma task_run_cases:
  obtains (finish) msg a' where "same_tasks a a'" "task_run h ctx i a = task_finish i msg a'"
      "response_id msg = Some (tk_id (ag_tasks a ! i))"
    | (crash) a' where "same_tasks a a'" "task_run h ctx i a = a'\<lparr>ag_crashed := True\<rparr>"
proof (cases "agent_handler h ctx (tk_tool (ag_tasks a ! i)) (tk_args (ag_tasks a ! i)) a")
  case None
  then have "task_run h ctx i a = task_finish i (error_msg (tk_id (ag_tasks a ! i)) ''TOOL_NOT_FOUND''
      (''tool '' @ go_quote (tk_tool (ag_tasks a ! i)) @ '' not found'')) a"
    by (simp add: task_run_def Let_def)
  then show ?thesis by (rule finish [OF same_tasks_refl]) (simp add: error_msg_def response_id_def)
next
  case (Some p)
  obtain r a' where p: "p = (r, a')" by (cases p)
  with Some have same: "same_tasks a a'" using handler_same_tasks by simp
  show ?thesis
  proof (cases r)
    case (Answer json)
    with Some p have "task_run h ctx i a = task_finish i (MToolResponse (tk_id (ag_tasks a ! i)) json) a'"
      by (simp add: task_run_def Let_def)
    then show ?thesis by (rule finish [OF same]) (simp add: response_id_def)
  next
    case (Failed e)
    with Some p have "task_run h ctx i a = task_finish i (error_msg (tk_id (ag_tasks a ! i)) ''TOOL_ERROR'' e) a'"
      by (simp add: task_run_def Let_def)
    then show ?thesis by (rule finish [OF same]) (simp add: error_msg_def response_id_def)
  next
    case Panicked
    with Some p have "task_run h ctx i a = a'\<lparr>ag_crashed := True\<rparr>" by (simp add: task_run_def Let_def)
    then show ?thesis by (rule crash [OF same])
  qed
qed

lemma agent_inv_step:
  assumes "agent_inv a" and "agent_step h ev a = Some a'"
  shows "agent_inv a'"
proof (cases ev)
  case (AgMessage msg)
  with assms agent_inv_dispatch show ?thesis by (auto split: if_split_asm)
next
  case (AgRun i ctx)
  with assms(2) have i: "i < length (ag_tasks a)" "\<not> tk_done (ag_tasks a ! i)" and a': "a' = task_run h ctx i a"
    by (auto split: if_split_asm)
  show ?thesis
  proof (cases rule: task_run_cases [of a h ctx i])
    case (finish msg b)
    then have "ag_tasks b = ag_tasks a" by (simp add: same_tasks_def)
    with finish i agent_inv_finish [of b i msg] agent_inv_same [OF finish(1) assms(1)] a' show ?thesis by simp
  next
    case (crash b)
    with agent_inv_crash agent_inv_same [OF crash(1) assms(1)] a' show ?thesis by simp
  qed
qed

interpretation agent_sys: step_system "agent_step h" "new_agent cfg fs" "\<lambda>_. agent_inv" for h cfg fs
  by unfold_locales (simp_all add: agent_inv_new agent_inv_step)

lemma agent_reach_inv: "agent_reach h cfg fs a \<Longrightarrow> agent_inv a"
  using agent_sys.inv_reached unfolding agent_reach_def by blast

section \<open>Properties\<close>


text \<open>C28: A cancel request touches only the request it names: in every reachable state it marks at
  most one task, an unfinished one with that id, and leaves every other task, the security settings
  and the file system as they are; an id that is unknown or finished changes nothing.\<close>

theorem cancel_hits_only_its_request:
  assumes "agent_reach h cfg fs a"
  shows "agent_dispatch (MCancelRequest rid) a = a \<or>
    (\<exists>i < length (ag_tasks a). tk_id (ag_tasks a ! i) = rid \<and> \<not> tk_done (ag_tasks a ! i) \<and>
       agent_dispatch (MCancelRequest rid) a =
         a\<lparr>ag_cancel_fns := gdel rid (ag_cancel_fns a),
           ag_tasks := (ag_tasks a)[i := (ag_tasks a ! i)\<lparr>tk_canceled := True\<rparr>]\<rparr>)"
proof (cases "map_of (ag_cancel_fns a) rid")
  case None
  then show ?thesis by (simp add: agent_dispatch_def get_cancel_request_def)
next
  case (Some i)
  with agent_reach_inv [OF assms] show ?thesis
    by (auto simp: agent_dispatch_def get_cancel_request_def agent_inv_def)
qed

text \<open>What the program relies on in the YAML library: encoding a map and decoding the text gives the
  same map, and the struct decoder reads the security section under its key and the other
  settings from the other keys.\<close>

definition yaml_ok :: "yaml_codec \<Rightarrow> bool" where
  "yaml_ok y \<longleftrightarrow>
     (\<forall>m out. yc_of_map y m = Inr out \<longrightarrow> (\<exists>m'. yc_to_map y out = Inr (Some m') \<and> map_of m' = map_of m)) \<and>
     (\<forall>m m' c sec. yc_struct y m = Inr c \<longrightarrow> (\<forall>k. k \<noteq> ''security'' \<longrightarrow> map_of m' k = map_of m k) \<longrightarrow>
        map_of m' ''security'' = Some (YMap (yaml_security_map sec)) \<longrightarrow> yc_struct y m' = Inr (c\<lparr>ac_security := sec\<rparr>))"

lemma check_new_commands_None: "check_new_commands cmds = None \<longleftrightarrow> list_all command_ok cmds"
  by (simp add: check_new_commands_def check_commands_None list_all_iff)

lemma persisted_file:
  assumes "persist_security_config h path sec fs = PersistOk fs'"
    and "os_stat fs (ah_cwd h) path = Inr (dest, FFile old)"
  obtains m out where "yc_to_map (ah_yaml h) old = Inr (Some m)"
    and "yc_of_map (ah_yaml h) (gupd ''security'' (YMap (yaml_security_map sec)) m) = Inr out"
    and "read_whole_file h fs' path = Inr out"
proof -
  have old: "read_whole_file h fs path = Inr old" using assms(2) by (simp add: read_whole_file_def)
  with assms(1) obtain m out dest' where m: "yc_to_map (ah_yaml h) old = Inr (Some m)"
    and out: "yc_of_map (ah_yaml h) (gupd ''security'' (YMap (yaml_security_map sec)) m) = Inr out"
    and c: "open_create fs (ah_cwd h) False path = Inr dest'" and fs': "fs' = write_node fs dest' out"
    by (auto simp: persist_security_config_def split: sum.split_asm option.split_asm)
  from c have ne: "path \<noteq> []" and w: "cwalk fs False kernel_links (start_dir (ah_cwd h) path) (split_char slash path) = Inr dest'"
    by (simp_all add: open_create_def split: if_split_asm)
  note ends = cwalk_ends [OF w, of fs' out]
  have "\<not> (\<exists>s. fs_node fs dest' = Some (FOther s))"
    using ends assms(2) ne by (auto simp: os_stat_def resolve_def)
  then have "fs' = gupd dest' (FFile out) fs" and "dest' \<noteq> []"
    using ends by (auto simp: fs' write_node_def)
  then have "fs_node fs' = (fs_node fs)(dest' := Some (FFile out))" by (simp add: fs_node_gupd)
  with ends ne have "os_stat fs' (ah_cwd h) path = Inr (dest', FFile out)"
    by (simp add: os_stat_def resolve_def)
  with m out that show ?thesis by (simp add: read_whole_file_def)
qed

lemma set_config_Answer:
  assumes "handle_set_config h args a = (Answer json, a')" and "ac_config_path (ag_cfg a) \<noteq> []"
  obtains sec where "tc_security (ah_codec h) args = Inr sec" "check_new_commands (sec_allowed_commands sec) = None"
    "persist_security_config h (ac_config_path (ag_cfg a)) sec (ag_fs a) = PersistOk (ag_fs a')" "ag_security a' = sec"
  using assms
  by (auto simp: handle_set_config_def split: sum.split_asm option.split_asm persisted.split_asm)

definition with_defaults :: "security \<Rightarrow> security" where
  "with_defaults sec = sec\<lparr>sec_max_file_size_mb := default_pos (sec_max_file_size_mb sec) 100,
     sec_blocked_paths := (if sec_blocked_paths sec = [] then [''/proc'', ''/sys'', ''/dev''] else sec_blocked_paths sec)\<rparr>"


text \<open>A change of the security settings is all or nothing: unless \<open>set_agent_config\<close> answers, the
  settings, the configuration file and everything else of the agent are as before.\<close>

theorem failed_set_config_changes_nothing:
  assumes "handle_set_config h args a = (r, a')" and "\<forall>json. r \<noteq> Answer json"
  shows "a' = a"
  using assms
  by (auto simp: handle_set_config_def split: sum.split_asm option.split_asm if_split_asm persisted.split_asm)

section \<open>An agent to apply the properties to\<close>

definition sample_security :: security where
  "sample_security = \<lparr> sec_allowed_paths = [], sec_blocked_paths = [''/etc''], sec_max_file_size_mb = 1,
     sec_allow_privileged_ports = False, sec_allowed_ports = [], sec_allowed_commands = [''/bin/ls''] \<rparr>"

definition sample_codec :: tool_codec where
  "sample_codec = \<lparr> tc_list = (\<lambda>_. Inl ''bad''), tc_path = Inr, tc_read = (\<lambda>_. Inl ''bad''), tc_write = (\<lambda>_. Inl ''bad''),
     tc_search = (\<lambda>_. Inl ''bad''), tc_run = (\<lambda>_. Inl ''bad''), tc_call = (\<lambda>_. Inl ''bad''),
     tc_security = (\<lambda>s. if s = ''new'' then Inr sample_security else Inl ''bad''),
     te_list = (\<lambda>_. ''{}''), te_stat = (\<lambda>_. ''{}''), te_exists = (\<lambda>_. ''{}''), te_read = (\<lambda>_. ''{}''), te_write = (\<lambda>_. ''{}''),
     te_search = (\<lambda>_. ''{}''), te_run = (\<lambda>_. ''{}''), te_call = (\<lambda>_. ''{}''), te_hardware = (\<lambda>_. ''{}''),
     te_security = (\<lambda>_. ''{}'') \<rparr>"

definition ystrs :: "yval option \<Rightarrow> string list" where
  "ystrs v = (case v of Some (YStrs xs) \<Rightarrow> xs | _ \<Rightarrow> [])"

definition sec_of_ymap :: "ymap \<Rightarrow> security" where
  "sec_of_ymap m = \<lparr> sec_allowed_paths = ystrs (map_of m ''allowed_paths''), sec_blocked_paths = ystrs (map_of m ''blocked_paths''),
     sec_max_file_size_mb = (case map_of m ''max_file_size_mb'' of Some (YInt i) \<Rightarrow> i | _ \<Rightarrow> 0),
     sec_allow_privileged_ports = (case map_of m ''allow_privileged_ports'' of Some (YBool b) \<Rightarrow> b | _ \<Rightarrow> False),
     sec_allowed_ports = (case map_of m ''allowed_ports'' of Some (YInts is) \<Rightarrow> is | _ \<Rightarrow> []),
     sec_allowed_commands = ystrs (map_of m ''allowed_commands'') \<rparr>"

definition sample_struct :: "ymap \<Rightarrow> agent_config" where
  "sample_struct m = sample_agent_config
     \<lparr>ac_security := (case map_of m ''security'' of Some (YMap s) \<Rightarrow> sec_of_ymap s | _ \<Rightarrow> sec_of_ymap [])\<rparr>"

definition sample_ymap :: ymap where
  "sample_ymap = [(''hostname'', YStr ''h'')]"

definition sample_yaml :: yaml_codec where
  "sample_yaml =
     (let new = gupd ''security'' (YMap (yaml_security_map sample_security)) sample_ymap in
      \<lparr> yc_to_map = (\<lambda>s. if s = ''before'' then Inr (Some sample_ymap) else if s = ''after'' then Inr (Some new) else Inl ''bad''),
        yc_of_map = (\<lambda>m. if m = new then Inr ''after'' else Inl ''bad''),
        yc_struct = (\<lambda>m. Inr (sample_struct m)) \<rparr>)"

lemma sec_of_yaml_security_map [simp]: "sec_of_ymap (yaml_security_map sec) = sec"
  by (simp add: sec_of_ymap_def yaml_security_map_def ystrs_def)

lemma sample_yaml_ok: "yaml_ok sample_yaml"
  by (auto simp: yaml_ok_def sample_yaml_def Let_def sample_struct_def split: if_split_asm)

definition sample_net_env :: call_env where
  "sample_net_env = sample_call_env"

definition sample_probes :: probes where
  "sample_probes = \<lparr> pb_cpu_models = Inl ''e'', pb_cpu_counts = (\<lambda>_. 0), pb_cpu_percent = Inl ''e'', pb_memory = Inl ''e'',
     pb_partitions = Inl ''e'', pb_usage = (\<lambda>_. Inl ''e''), pb_interfaces = Inl ''e'', pb_counters = [], pb_host = Inl ''e'' \<rparr>"

definition sample_host :: agent_host where
  "sample_host = \<lparr> ah_codec = sample_codec, ah_yaml = sample_yaml, ah_cwd = [],
     ah_meta = (\<lambda>_. \<lparr> fm_size = 0, fm_perm = [], fm_mtime = 0 \<rparr>), ah_exec = echo_os 0, ah_call = sample_call_env,
     ah_regexp = no_regexp, ah_probes = sample_probes \<rparr>"

definition agent_fs :: fsys where
  "agent_fs = ([''srv''], FDir) # ([''srv'', ''agent.yaml''], FFile ''before'') # sample_fs"

definition running_config :: agent_config where
  "running_config = (agent_apply_defaults (sample_struct sample_ymap))\<lparr>ac_config_path := ''/srv/agent.yaml''\<rparr>"

definition tool_call :: "string \<Rightarrow> string \<Rightarrow> string \<Rightarrow> agent_event" where
  "tool_call rid tool args = AgMessage (MToolRequest
     \<lparr> tq_request_id = rid, tq_tool_name = tool, tq_args_json = args, tq_target_host = ''h'' \<rparr>)"

definition one_task :: agent where
  "one_task = the (agent_step sample_host (tool_call ''r1'' ''stat_file'' ''/srv'') (new_agent running_config agent_fs))"

lemma one_task_reached: "agent_reach sample_host running_config agent_fs one_task"
proof -
  have "agent_step sample_host (tool_call ''r1'' ''stat_file'' ''/srv'') (new_agent running_config agent_fs) = Some one_task"
    by (simp add: one_task_def tool_call_def new_agent_def)
  then have "reached (agent_step sample_host) (new_agent running_config agent_fs)
    [tool_call ''r1'' ''stat_file'' ''/srv''] one_task" by (rule reached_one)
  then show ?thesis unfolding agent_reach_def by (rule exI)
qed

lemma one_task_simps [simp]:
  "ag_tasks one_task = [\<lparr> tk_id = ''r1'', tk_tool = ''stat_file'', tk_args = ''/srv'', tk_canceled = False, tk_done = False \<rparr>]"
  "ag_cancel_fns one_task = [(''r1'', 0)]" "\<not> ag_crashed one_task" "ag_out one_task = []"
  by (simp_all add: one_task_def tool_call_def new_agent_def agent_dispatch_def get_cancel_request_def get_tool_request_def)


theorem cancel_hits_only_its_request_witness:
  "tk_canceled (ag_tasks (agent_dispatch (MCancelRequest ''r1'') one_task) ! 0) \<and>
   agent_dispatch (MCancelRequest ''r2'') one_task = one_task"
proof
  have "agent_dispatch (MCancelRequest ''r1'') one_task \<noteq> one_task"
  proof
    assume "agent_dispatch (MCancelRequest ''r1'') one_task = one_task"
    then have "ag_cancel_fns (agent_dispatch (MCancelRequest ''r1'') one_task) = ag_cancel_fns one_task" by simp
    then show False by (simp add: agent_dispatch_def get_cancel_request_def)
  qed
  with cancel_hits_only_its_request [OF one_task_reached, of "''r1''"]
  show "tk_canceled (ag_tasks (agent_dispatch (MCancelRequest ''r1'') one_task) ! 0)" by auto
  show "agent_dispatch (MCancelRequest ''r2'') one_task = one_task"
    using cancel_hits_only_its_request [OF one_task_reached, of "''r2''"] by auto
qed

lemma running_config_loads:
  "agent_load (read_whole_file sample_host agent_fs) (yaml_config (ah_yaml sample_host)) ''/srv/agent.yaml'' = Inr running_config"
  by code_simp

lemma sample_set_config:
  "\<exists>a'. handle_set_config sample_host ''new'' (new_agent running_config agent_fs) = (Answer ''{}'', a') \<and>
     ag_security a' = sample_security"
proof -
  have "fst (handle_set_config sample_host ''new'' (new_agent running_config agent_fs)) = Answer ''{}''"
    and "ag_security (snd (handle_set_config sample_host ''new'' (new_agent running_config agent_fs))) = sample_security"
    by code_simp+
  then show ?thesis by (metis prod.collapse)
qed


theorem failed_set_config_changes_nothing_witness:
  "snd (handle_set_config sample_host ''junk'' (new_agent running_config agent_fs)) = new_agent running_config agent_fs"
proof -
  have "handle_set_config sample_host ''junk'' (new_agent running_config agent_fs) =
      (Failed ''invalid security config: bad'', new_agent running_config agent_fs)"
    by (simp add: handle_set_config_def sample_host_def sample_codec_def)
  from failed_set_config_changes_nothing [OF this] show ?thesis
    by (simp add: handle_set_config_def sample_host_def sample_codec_def)
qed

text \<open>The running agent takes the new section without the loader's defaults: a section that leaves the
  block list out opens \<open>/proc\<close>, \<open>/sys\<close> and \<open>/dev\<close>, and one that leaves the size limit out refuses every
  file of a byte or more, until the agent restarts.\<close>

lemma set_config_has_no_defaults:
  "agent_path_guard (a\<lparr>ag_security := sec\<lparr>sec_blocked_paths := [], sec_allowed_paths := []\<rparr>\<rparr>) = new_path_guard [] []"
  "guard_check fs cwd (new_path_guard [] []) p = Inr ()"
  by (simp_all add: agent_path_guard_def guard_check_def new_path_guard_def clean_prefixes_def)

text \<open>An empty configuration file makes \<open>set_agent_config\<close> panic, which ends the agent.\<close>

lemma empty_config_file_crashes:
  assumes "yc_to_map (ah_yaml h) data = Inr None" and "read_whole_file h fs path = Inr data"
  shows "persist_security_config h path sec fs = PersistPanic"
  using assms by (simp add: persist_security_config_def)

end
