(* ===== verification/Rpc_Spec.thy ===== *)
theory Rpc_Spec
  imports Router
begin

text \<open>
  What the router promises, without its machinery: a list of calls, each open with at most one
  answer at hand, or decided.  There is no table of pending requests, no slot to overwrite and no
  deferred delete; a response goes to the open call that bears its id.  The router of
  \<open>internal/sysplane-center/router/router.go\<close> implements this specification as long as request
  ids are not reused.
\<close>

section \<open>The specification\<close>

record rpc =
  rp_rid :: string
  rp_host :: string
  rp_answer :: "tunnel_msg option"
  rp_result :: "outcome option"

definition rpc_decide :: "outcome \<Rightarrow> rpc \<Rightarrow> rpc" where
  "rpc_decide out c = c\<lparr>rp_answer := None, rp_result := Some out\<rparr>"

definition rpc_answer :: "tunnel_msg \<Rightarrow> rpc \<Rightarrow> rpc" where
  "rpc_answer msg c =
     (if response_id msg = Some (rp_rid c) \<and> rp_result c = None \<and> rp_answer c = None
      then c\<lparr>rp_answer := Some msg\<rparr> else c)"

definition rpc_ctx_outcome :: "rpc \<Rightarrow> ctx_end \<Rightarrow> outcome" where
  "rpc_ctx_outcome c d =
     (let what = (case d of CtxCanceled \<Rightarrow> ''canceled'' | CtxDeadline \<Rightarrow> ''timeout'') in
      (what, Inl (GoErr (case d of CtxCanceled \<Rightarrow> SCanceled | CtxDeadline \<Rightarrow> STimeout)
         (''router: '' @ what @ '' waiting for response from '' @ rp_host c @ '' (request '' @ rp_rid c @ ''): '' @ what))))"

fun rpc_step :: "router_event \<Rightarrow> rpc list \<Rightarrow> rpc list" where
  "rpc_step (EvStart rid rec tool args) cs =
     cs @ [\<lparr>rp_rid = rid, rp_host = ar_hostname rec, rp_answer = None, rp_result = None\<rparr>]"
| "rpc_step (EvSent i None) cs = cs"
| "rpc_step (EvSent i (Some e)) cs =
     cs[i := rpc_decide (''error'', Inl (GoErr SNone (''router: send to agent '' @ rp_host (cs ! i) @ '': '' @ e))) (cs ! i)]"
| "rpc_step (EvDeliver msg) cs = map (rpc_answer msg) cs"
| "rpc_step (EvReceive i) cs =
     (case rp_answer (cs ! i) of None \<Rightarrow> cs | Some msg \<Rightarrow> cs[i := rpc_decide (reply_outcome msg) (cs ! i)])"
| "rpc_step (EvCtxDone i d) cs = cs[i := rpc_decide (rpc_ctx_outcome (cs ! i) d) (cs ! i)]"
| "rpc_step (EvReturn i) cs = cs"

section \<open>The abstraction\<close>

definition undecided :: "phase \<Rightarrow> bool" where
  "undecided p = (case p of Stored \<Rightarrow> True | Waiting \<Rightarrow> True | _ \<Rightarrow> False)"

lemma undecided_simps [simp]:
  "undecided Stored" "undecided Waiting" "\<not> undecided (Leaving out)" "\<not> undecided (Returned out)"
  by (simp_all add: undecided_def)

lemma undecided_live: "undecided p \<Longrightarrow> live p"
  by (cases p) simp_all

definition rpc_of :: "call \<Rightarrow> rpc" where
  "rpc_of c = \<lparr>rp_rid = cl_rid c, rp_host = cl_host c,
     rp_answer = (if undecided (cl_phase c) then cl_buf c else None),
     rp_result = (case cl_phase c of Leaving out \<Rightarrow> Some out | Returned out \<Rightarrow> Some out | _ \<Rightarrow> None)\<rparr>"

definition rpcs_of :: "router \<Rightarrow> rpc list" where
  "rpcs_of r = map rpc_of (rt_calls r)"

lemma rpcs_of_pending [simp]: "rpcs_of (r\<lparr>rt_pending := m\<rparr>) = rpcs_of r"
  by (simp add: rpcs_of_def)

lemma rpcs_of_emit [simp]: "rpcs_of (emit s m r) = rpcs_of r"
  by (simp add: rpcs_of_def emit_def)

lemma rpcs_of_update:
  "rpcs_of (r\<lparr>rt_calls := (rt_calls r)[i := c]\<rparr>) = (rpcs_of r)[i := rpc_of c]"
  by (simp add: rpcs_of_def map_update)

lemma rpcs_of_set_phase:
  "rpcs_of (set_phase i p r) = (rpcs_of r)[i := rpc_of ((rt_calls r ! i)\<lparr>cl_phase := p\<rparr>)]"
  by (simp add: set_phase_def rpcs_of_update)

lemma rpcs_of_nth: "i < length (rt_calls r) \<Longrightarrow> rpcs_of r ! i = rpc_of (rt_calls r ! i)"
  by (simp add: rpcs_of_def)

lemma rpcs_of_unchanged:
  "i < length (rt_calls r) \<Longrightarrow> rpc_of c = rpc_of (rt_calls r ! i) \<Longrightarrow> (rpcs_of r)[i := rpc_of c] = rpcs_of r"
  by (simp add: list_update_same_conv rpcs_of_def)

lemma rpc_of_decided:
  "rpc_of (c\<lparr>cl_phase := Leaving out\<rparr>) = rpc_decide out (rpc_of c)"
  "rpc_decide out (rpc_of (c\<lparr>cl_buf := b\<rparr>)) = rpc_decide out (rpc_of c)"
  by (simp_all add: rpc_of_def rpc_decide_def)

lemma rpc_ctx_outcome_of: "rpc_ctx_outcome (rpc_of c) d = ctx_outcome c d"
  by (cases d) (simp_all add: rpc_ctx_outcome_def ctx_outcome_def rpc_of_def Let_def)

section \<open>A response reaches the open call with its id\<close>

lemma rpc_answer_other: "response_id msg \<noteq> Some (cl_rid c) \<Longrightarrow> rpc_answer msg (rpc_of c) = rpc_of c"
  by (simp add: rpc_answer_def rpc_of_def)

lemma rpc_answer_decided: "\<not> undecided (cl_phase c) \<Longrightarrow> rpc_answer msg (rpc_of c) = rpc_of c"
  by (cases "cl_phase c") (simp_all add: rpc_answer_def rpc_of_def)

lemma rpc_answer_full: "cl_buf c = Some m \<Longrightarrow> rpc_answer msg (rpc_of c) = rpc_of c"
  by (cases "cl_phase c") (simp_all add: rpc_answer_def rpc_of_def)

lemma rpc_answer_slot:
  "response_id msg = Some (cl_rid c) \<Longrightarrow> cl_buf c = None \<Longrightarrow>
     rpc_answer msg (rpc_of c) = rpc_of (c\<lparr>cl_buf := Some msg\<rparr>)"
  by (cases "cl_phase c") (simp_all add: rpc_answer_def rpc_of_def)

lemma rpcs_of_deliver:
  assumes f: "all_filed r" and p: "pending_ok r" and d: "distinct (call_ids r)" and m: "response_id msg = Some rid"
  shows "rpcs_of (deliver rid msg r) = map (rpc_answer msg) (rpcs_of r)"
proof -
  have others: "rpc_answer msg (rpc_of (rt_calls r ! j)) = rpc_of (rt_calls r ! j)"
    if j: "j < length (rt_calls r)" and ne: "map_of (rt_pending r) rid \<noteq> Some j" for j
  proof (cases "cl_rid (rt_calls r ! j) = rid")
    case True
    with f j ne have "\<not> live (cl_phase (rt_calls r ! j))" by (auto simp: all_filed_def)
    then have "\<not> undecided (cl_phase (rt_calls r ! j))" using undecided_live by blast
    then show ?thesis by (rule rpc_answer_decided)
  next
    case False
    with m show ?thesis by (intro rpc_answer_other) simp
  qed
  show ?thesis
  proof (cases "map_of (rt_pending r) rid")
    case None
    with others show ?thesis by (simp add: deliver_def rpcs_of_def list_eq_iff_nth_eq)
  next
    case (Some i)
    with p have i: "i < length (rt_calls r)" "cl_rid (rt_calls r ! i) = rid" by (auto simp: pending_ok_def)
    show ?thesis
    proof (cases "cl_buf (rt_calls r ! i)")
      case None
      show ?thesis
      proof (rule nth_equalityI)
        fix j
        assume "j < length (rpcs_of (deliver rid msg r))"
        then have j: "j < length (rt_calls r)" using Some None by (simp add: deliver_def rpcs_of_def)
        show "rpcs_of (deliver rid msg r) ! j = map (rpc_answer msg) (rpcs_of r) ! j"
        proof (cases "j = i")
          case True
          with Some None i m show ?thesis
            by (simp add: deliver_def rpcs_of_update rpcs_of_def rpc_answer_slot)
        next
          case False
          with Some None j others [OF j] show ?thesis by (simp add: deliver_def rpcs_of_update rpcs_of_def)
        qed
      qed (simp add: deliver_def rpcs_of_def Some None)
    next
      case (Some m')
      with \<open>map_of (rt_pending r) rid = Some i\<close> have "deliver rid msg r = r" by (simp add: deliver_def)
      moreover have "rpc_answer msg (rpc_of (rt_calls r ! j)) = rpc_of (rt_calls r ! j)"
        if "j < length (rt_calls r)" for j
        using others [OF that] rpc_answer_full [OF Some] \<open>map_of (rt_pending r) rid = Some i\<close>
        by (cases "j = i") auto
      ultimately show ?thesis by (auto simp: rpcs_of_def list_eq_iff_nth_eq)
    qed
  qed
qed

section \<open>Simulation\<close>

lemma rpc_simulation_step:
  assumes f: "all_filed r" and p: "pending_ok r" and d: "distinct (call_ids r)"
    and st: "router_step e r = Some r'"
  shows "rpcs_of r' = rpc_step e (rpcs_of r)"
proof (cases e)
  case (EvStart rid rec tool args)
  with st show ?thesis by (auto simp: send_store_def rpcs_of_def rpc_of_def)
next
  case (EvSent i err)
  with st have i: "i < length (rt_calls r)" "cl_phase (rt_calls r ! i) = Stored" by (auto split: if_splits)
  show ?thesis
  proof (cases err)
    case None
    have "rpc_of ((rt_calls r ! i)\<lparr>cl_phase := Waiting\<rparr>) = rpc_of (rt_calls r ! i)" using i by (simp add: rpc_of_def)
    with EvSent None st i show ?thesis
      by (auto simp: Let_def rpcs_of_set_phase rpcs_of_unchanged)
  next
    case (Some m)
    with EvSent st i show ?thesis
      by (auto simp: Let_def rpcs_of_set_phase rpc_of_decided rpcs_of_nth send_failed_def)
        (simp add: rpc_of_def)
  qed
next
  case (EvDeliver msg)
  with st have r': "r' = deliver_from_message msg r" by simp
  show ?thesis
  proof (cases "response_id msg")
    case None
    with EvDeliver r' show ?thesis
      by (simp add: deliver_from_message_def rpc_answer_def rpcs_of_def)
  next
    case (Some rid)
    with EvDeliver r' rpcs_of_deliver [OF f p d Some] show ?thesis by (simp add: deliver_from_message_def)
  qed
next
  case (EvReceive i)
  with st obtain msg where i: "i < length (rt_calls r)" "cl_phase (rt_calls r ! i) = Waiting"
    and b: "cl_buf (rt_calls r ! i) = Some msg"
    and r': "r' = r\<lparr>rt_calls := (rt_calls r)[i := (rt_calls r ! i)\<lparr>cl_buf := None, cl_phase := Leaving (reply_outcome msg)\<rparr>]\<rparr>"
    by (auto split: if_splits option.splits)
  have "rp_answer (rpc_of (rt_calls r ! i)) = Some msg" using i b by (simp add: rpc_of_def)
  then show ?thesis unfolding r' EvReceive rpc_step.simps rpcs_of_update
    using i by (simp add: rpc_of_decided rpcs_of_nth)
next
  case (EvCtxDone i d)
  with st show ?thesis
    by (auto simp: Let_def rpcs_of_set_phase rpc_of_decided rpcs_of_nth rpc_ctx_outcome_of split: if_splits)
next
  case (EvReturn i)
  with st obtain out where i: "i < length (rt_calls r)" "cl_phase (rt_calls r ! i) = Leaving out"
    and r': "r' = (set_phase i (Returned out) r)\<lparr>rt_pending := gdel (cl_rid (rt_calls r ! i)) (rt_pending r)\<rparr>"
    by (auto split: if_splits phase.splits)
  have "rpc_of ((rt_calls r ! i)\<lparr>cl_phase := Returned out\<rparr>) = rpc_of (rt_calls r ! i)" using i by (simp add: rpc_of_def)
  with i EvReturn show ?thesis unfolding r' by (simp add: rpcs_of_set_phase rpcs_of_unchanged)
qed

interpretation router_rpc: simulation router_step "router_new t"
  "\<lambda>es r. router_inv es r \<and> (distinct (call_ids r) \<longrightarrow> all_filed r)"
  rpc_step "[]" rpcs_of "\<lambda>r. distinct (call_ids r)" for t
proof
  show "router_inv [] (router_new t) \<and> (distinct (call_ids (router_new t)) \<longrightarrow> all_filed (router_new t))"
    using router_sys.inv_init filed_sys.inv_init by blast
next
  fix es e r r'
  assume "router_inv es r \<and> (distinct (call_ids r) \<longrightarrow> all_filed r)" and "router_step e r = Some r'"
  then show "router_inv (es @ [e]) r' \<and> (distinct (call_ids r') \<longrightarrow> all_filed r')"
    using router_sys.inv_step filed_sys.inv_step by blast
next
  fix es e r r'
  assume "router_inv es r \<and> (distinct (call_ids r) \<longrightarrow> all_filed r)" and "distinct (call_ids r)"
    and "router_step e r = Some r'" and "distinct (call_ids r')"
  then show "rpcs_of r' = rpc_step e (rpcs_of r)"
    using rpc_simulation_step by (simp add: router_inv_def)
qed (simp_all add: rpcs_of_def router_new_def call_ids_step)

text \<open>C3: The router implements the specification: whatever happens, in whatever order, the calls
  as a client sees them (their ids, the answer at hand, the result decided) are those the
  specification computes from the same events, provided no request id is used twice.  Sending
  and the deferred delete are invisible; the shared table is only a way to find the open call.\<close>

theorem router_refines_rpc:
  assumes "router_run es (router_new t) = Some r" and "distinct (call_ids r)"
  shows "rpcs_of r = fold rpc_step es []"
  using assms by (simp add: router_rpc.abs_reached reach_run)

lemma rpc_one_call: "map rp_result (fold rpc_step one_call []) = [Some (''success'', Inr ''42'')]"
  by (simp add: one_call_def rpc_answer_def rpc_decide_def response_id_def reply_outcome_def)

theorem router_refines_rpc_witness:
  "\<exists>r. router_run one_call (router_new 5) = Some r \<and>
     map rp_result (rpcs_of r) = [Some (''success'', Inr ''42'')]"
proof -
  obtain r where r: "router_run one_call (router_new 5) = Some r" and ids: "map cl_rid (rt_calls r) = [''q'']"
    by (simp add: one_call_def run_simps)
  from ids have d: "distinct (call_ids r)" by (simp add: call_ids_def)
  have "rpcs_of r = fold rpc_step one_call []" by (rule router_refines_rpc [OF r d])
  then have "map rp_result (rpcs_of r) = [Some (''success'', Inr ''42'')]"
    using rpc_one_call by simp
  with r show ?thesis by (intro exI [where x = r] conjI)
qed

end
