(* ===== verification/Http_Lib.thy ===== *)
theory Http_Lib
  imports Go_Path
begin

text \<open>
  What the HTTP parts use of Go's standard library: \<open>url.PathEscape\<close> and \<open>url.PathUnescape\<close>
  over bytes, the path cleaning and the pattern matching of \<open>http.ServeMux\<close> for patterns
  without wildcards, and \<open>http.MaxBytesReader\<close>.
\<close>

section \<open>Percent encoding\<close>

text \<open>The bytes \<open>escape\<close> leaves alone in a path segment.\<close>

definition segment_char :: "char \<Rightarrow> bool" where
  "segment_char c \<longleftrightarrow>
     (let n = (of_char c :: nat) in
      (48 \<le> n \<and> n \<le> 57) \<or> (65 \<le> n \<and> n \<le> 90) \<or> (97 \<le> n \<and> n \<le> 122) \<or>
      c \<in> set ''-_.~$&+=:@'')"

definition upper_hex :: "nat \<Rightarrow> char" where
  "upper_hex n = (if n < 10 then char_of (48 + n) else char_of (55 + n))"

definition unhex :: "char \<Rightarrow> nat option" where
  "unhex c =
     (let n = (of_char c :: nat) in
      if 48 \<le> n \<and> n \<le> 57 then Some (n - 48)
      else if 97 \<le> n \<and> n \<le> 102 then Some (n - 87)
      else if 65 \<le> n \<and> n \<le> 70 then Some (n - 55)
      else None)"

definition escape_char :: "char \<Rightarrow> string" where
  "escape_char c =
     (if segment_char c then [c]
      else [CHR ''%'', upper_hex (of_char c div 16), upper_hex (of_char c mod 16)])"

definition path_escape :: "string \<Rightarrow> string" where
  "path_escape s = concat (map escape_char s)"

text \<open>\<open>url.PathUnescape\<close>: \<open>None\<close> for a broken escape.\<close>

fun path_unescape :: "string \<Rightarrow> string option" where
  "path_unescape [] = Some []"
| "path_unescape (c # cs) =
     (if c = CHR ''%'' then
        (case cs of
           h # l # rest \<Rightarrow>
             (case (unhex h, unhex l) of
                (Some a, Some b) \<Rightarrow> map_option (Cons (char_of (16 * a + b))) (path_unescape rest)
              | _ \<Rightarrow> None)
         | _ \<Rightarrow> None)
      else map_option (Cons c) (path_unescape cs))"

lemma unhex_upper_hex [simp]: "n < 16 \<Longrightarrow> unhex (upper_hex n) = Some n"
  by (auto simp: unhex_def upper_hex_def Let_def)

lemma upper_hex_neq_slash [simp]: "n < 16 \<Longrightarrow> upper_hex n \<noteq> slash"
  using unhex_upper_hex [of n] by (auto simp: unhex_def)

lemma segment_char_plain: "segment_char c \<Longrightarrow> c \<noteq> CHR ''%'' \<and> c \<noteq> slash"
  by (auto simp: segment_char_def)

lemma of_char_less [simp]: "(of_char c :: nat) < 256"
  by (metis of_char_mod_256 mod_less_divisor zero_less_numeral)

lemma unescape_escape_char: "path_unescape (escape_char c @ s) = map_option (Cons c) (path_unescape s)"
proof (cases "segment_char c")
  case True
  with segment_char_plain show ?thesis by (simp add: escape_char_def)
next
  case False
  have "(of_char c :: nat) div 16 < 16" using of_char_less [of c] by linarith
  moreover have "16 * (of_char c div 16) + of_char c mod 16 = (of_char c :: nat)" by simp
  ultimately show ?thesis using False by (simp add: escape_char_def)
qed

text \<open>Escaping is undone by unescaping, and escaped text has no separator in it.\<close>

lemma path_unescape_escape [simp]: "path_unescape (path_escape s) = Some s"
  unfolding path_escape_def by (induction s) (simp_all add: unescape_escape_char)

lemma path_unescape_escape_append:
  "path_unescape (path_escape s @ t) = map_option ((@) s) (path_unescape t)"
proof (induction s)
  case Nil
  then show ?case by (simp add: path_escape_def option.map_ident)
next
  case (Cons c s)
  then show ?case
    by (simp add: path_escape_def unescape_escape_char option.map_comp comp_def)
qed

lemma path_unescape_plain: "CHR ''%'' \<notin> set s \<Longrightarrow> path_unescape s = Some s"
  by (induction s) auto

lemma path_unescape_plain_append:
  "CHR ''%'' \<notin> set s \<Longrightarrow> path_unescape (s @ t) = map_option ((@) s) (path_unescape t)"
proof (induction s)
  case Nil
  then show ?case by (simp add: option.map_ident)
next
  case (Cons c s)
  then have "c \<noteq> CHR ''%''" by auto
  with Cons show ?case by (simp add: option.map_comp comp_def)
qed

lemma escape_char_no_slash: "slash \<notin> set (escape_char c)"
proof -
  have "(of_char c :: nat) div 16 < 16" using of_char_less [of c] by linarith
  then have "upper_hex (of_char c div 16) \<noteq> slash" and "upper_hex (of_char c mod 16) \<noteq> slash" by simp_all
  note hex = this [symmetric]
  show ?thesis
  proof (cases "segment_char c")
    case True
    with segment_char_plain [OF True] show ?thesis by (auto simp: escape_char_def)
  next
    case False
    with hex show ?thesis by (simp add: escape_char_def)
  qed
qed

lemma path_escape_no_slash: "slash \<notin> set (path_escape s)"
  using escape_char_no_slash by (auto simp: path_escape_def)

lemma escape_char_nonempty [simp]: "escape_char c \<noteq> []"
  by (simp add: escape_char_def)

lemma path_escape_Nil [simp]: "path_escape s = [] \<longleftrightarrow> s = []"
  by (cases s) (simp_all add: path_escape_def)

lemma path_escape_inj [simp]: "path_escape s = path_escape t \<longleftrightarrow> s = t"
  by (metis option.inject path_unescape_escape)

section \<open>Request bodies\<close>

text \<open>\<open>http.MaxBytesReader\<close>: the bytes a decoder gets to see, and whether it then meets an error
  instead of the end of the body.\<close>

definition limit_body :: "int \<Rightarrow> string \<Rightarrow> string \<times> bool" where
  "limit_body n body = (if int (length body) \<le> n then (body, False) else (take (nat n) body, True))"

section \<open>\<open>ServeMux\<close>\<close>

record 'h mux_pattern =
  mp_method :: "string option"
  mp_segs :: "string list"
  mp_subtree :: bool
  mp_handler :: 'h

datatype 'h mux_result = Serve 'h | MovedTo string | MethodNotAllowed | NotFound

definition mux_clean :: "string \<Rightarrow> string" where
  "mux_clean p0 =
     (if p0 = [] then ''/''
      else let p = (if has_prefix p0 ''/'' then p0 else ''/'' @ p0); np = path_clean p in
        if last p = slash \<and> np \<noteq> ''/''
        then (if length p = length np + 1 \<and> has_prefix p np then p else np @ ''/'')
        else np)"

definition segs_of :: "string \<Rightarrow> string list" where
  "segs_of path = split_char slash (drop 1 path)"

definition seg_text :: "string \<Rightarrow> string" where
  "seg_text seg = (case path_unescape seg of Some s \<Rightarrow> s | None \<Rightarrow> seg)"

definition pattern_matches :: "string list \<Rightarrow> 'h mux_pattern \<Rightarrow> bool" where
  "pattern_matches segs p \<longleftrightarrow>
     (if mp_subtree p
      then length (mp_segs p) < length segs \<and> map seg_text (take (length (mp_segs p)) segs) = mp_segs p
      else map seg_text segs = mp_segs p)"

text \<open>The match for a path: patterns of the request's method first, for \<open>HEAD\<close> also those of
  \<open>GET\<close>, then those without a method; among them the one with the most segments.\<close>

definition longest_match :: "string list \<Rightarrow> 'h mux_pattern list \<Rightarrow> 'h mux_pattern option" where
  "longest_match segs ps =
     fold (\<lambda>p best. if pattern_matches segs p \<and>
               (case best of None \<Rightarrow> True | Some b \<Rightarrow> length (mp_segs b) < length (mp_segs p) \<or> \<not> mp_subtree p)
             then Some p else best) ps None"

definition first_some :: "'a option \<Rightarrow> 'a option \<Rightarrow> 'a option" where
  "first_some a b = (case a of None \<Rightarrow> b | Some _ \<Rightarrow> a)"

definition tree_match :: "'h mux_pattern list \<Rightarrow> string \<Rightarrow> string \<Rightarrow> 'h mux_pattern option" where
  "tree_match ps meth path =
     (let of_method = (\<lambda>m. longest_match (segs_of path) (filter (\<lambda>p. mp_method p = m) ps)) in
      first_some (of_method (Some meth))
        (first_some (if meth = ''HEAD'' then of_method (Some ''GET'') else None) (of_method None)))"

definition exact_match :: "'h mux_pattern option \<Rightarrow> string \<Rightarrow> bool" where
  "exact_match m path =
     (case m of None \<Rightarrow> False
      | Some p \<Rightarrow> \<not> mp_subtree p \<or> (has_suffix path ''/'' \<and> length (mp_segs p) + 1 = length (segs_of path)))"

definition mux_dispatch :: "'h mux_pattern list \<Rightarrow> string \<Rightarrow> string \<Rightarrow> 'h mux_result" where
  "mux_dispatch ps meth escaped =
     (let path = mux_clean escaped; m = tree_match ps meth path in
      if \<not> exact_match m path \<and> \<not> has_suffix path ''/'' \<and> exact_match (tree_match ps meth (path @ ''/'')) (path @ ''/'')
      then MovedTo (path @ ''/'')
      else if path \<noteq> escaped then MovedTo path
      else case m of
        Some p \<Rightarrow> Serve (mp_handler p)
      | None \<Rightarrow> if \<exists>p \<in> set ps. mp_method p \<noteq> None \<and> pattern_matches (segs_of path) p then MethodNotAllowed else NotFound)"

lemma longest_match_in: "longest_match segs ps = Some p \<Longrightarrow> p \<in> set ps \<and> pattern_matches segs p"
proof -
  have "\<forall>p. fold (\<lambda>p best. if pattern_matches segs p \<and>
               (case best of None \<Rightarrow> True | Some b \<Rightarrow> length (mp_segs b) < length (mp_segs p) \<or> \<not> mp_subtree p)
             then Some p else best) ps best = Some p \<longrightarrow> best = Some p \<or> p \<in> set ps \<and> pattern_matches segs p"
    for best
    by (induction ps arbitrary: best) (auto split: if_splits)
  then show "longest_match segs ps = Some p \<Longrightarrow> p \<in> set ps \<and> pattern_matches segs p"
    unfolding longest_match_def by blast
qed

lemma tree_match_in:
  "tree_match ps meth path = Some p \<Longrightarrow>
     p \<in> set ps \<and> pattern_matches (segs_of path) p \<and>
     (case mp_method p of None \<Rightarrow> True | Some m \<Rightarrow> m = meth \<or> meth = ''HEAD'' \<and> m = ''GET'')"
  by (auto simp: tree_match_def Let_def first_some_def split: option.split_asm if_split_asm dest!: longest_match_in)

text \<open>A request is only ever served by a registered handler whose pattern it matches.\<close>

lemma mux_serves_match:
  assumes "mux_dispatch ps meth path = Serve h"
  shows "\<exists>p \<in> set ps. mp_handler p = h \<and> pattern_matches (segs_of path) p \<and>
           (case mp_method p of None \<Rightarrow> True | Some m \<Rightarrow> m = meth \<or> meth = ''HEAD'' \<and> m = ''GET'')"
proof -
  from assms obtain p where "tree_match ps meth (mux_clean path) = Some p" "mp_handler p = h" "mux_clean path = path"
    by (auto simp: mux_dispatch_def Let_def split: if_split_asm option.split_asm)
  with tree_match_in [of ps meth path p] show ?thesis by auto
qed

end
