(* ===== verification/Http_Api.thy ===== *)
theory Http_Api
  imports Http_Lib Admin_Invocations
begin

text \<open>
  \<open>internal/sysplane-center/httpapi/server.go\<close>: the HTTP API of the center.  \<open>api_serve\<close> is the
  handler \<open>NewHandler\<close> builds: the request id, the mux with its patterns, authentication per
  pattern, and one definition per handler method.  A handler maps a request and the state of the
  admin service to a response and a new state; a response body is the value handed to the JSON
  encoder.  Parameters, in \<open>http_env\<close>: the token catalog and SHA-256, the environment in which
  tools run (with the registry), how long targets take and in which order they finish, and the
  JSON decoder for each kind of body.  The status of a redirect is the library's.  A panic of the
  service (\<open>panic_error\<close>, status 0) stands for the connection \<open>net/http\<close> then drops.
\<close>

section \<open>Requests and responses\<close>

record http_request =
  rq_method :: string
  rq_path :: string
  rq_query :: "(string, string) gomap"
  rq_auth :: string
  rq_request_id :: string
  rq_content_length :: int
  rq_body :: string

text \<open>\<open>r.URL.Path\<close>; a request whose path does not decode never reaches a handler.\<close>

definition url_path :: "http_request \<Rightarrow> string" where
  "url_path r = seg_text (rq_path r)"

definition query_get :: "http_request \<Rightarrow> string \<Rightarrow> string" where
  "query_get r key = (case map_of (rq_query r) key of None \<Rightarrow> [] | Some v \<Rightarrow> v)"

record node_platform =
  np_os :: string
  np_arch :: string
  np_kernel :: string

record node_agent =
  na_version :: string
  na_connected_via :: "string list"

record node_response =
  nr_id :: string
  nr_hostname :: string
  nr_labels :: "(string, string) gomap"
  nr_status :: string
  nr_platform :: node_platform
  nr_agent :: node_agent
  nr_last_seen_at :: int
  nr_registered_at :: int

record capability =
  cb_name :: string
  cb_type :: string
  cb_risk_level :: string
  cb_enabled :: bool

record api_error =
  er_api_code :: string
  er_api_message :: string
  er_api_request_id :: string
  er_api_details :: params

datatype http_body =
    BodyNodes "node_response list_page"
  | BodyNode node_response
  | BodyCapabilities "capability list"
  | BodyTemplates "command_template list_page"
  | BodyTemplate command_template
  | BodyInvocations "invocation list_page"
  | BodyInvocation invocation
  | BodyCanceled invocation
  | BodyInvoked "invocation option" "invocation_result list"
  | BodyResults "invocation_result list"
  | BodyAudits "audit_event list_page"
  | BodyAudit audit_event
  | BodyData gany
  | BodyExit exec_result
  | BodyRaw string
  | BodyError api_error
  | BodyText string

record http_response =
  hs_status :: int
  hs_request_id :: string
  hs_content_type :: string
  hs_exit_code :: "string option"
  hs_location :: "string option"
  hs_body :: http_body

text \<open>What a decoder sees of a body: its bytes up to the limit and whether an error follows.\<close>

type_synonym 'a decoder = "string \<times> bool \<Rightarrow> 'a go_result"

record http_env =
  he_sha :: sha256
  he_tokens :: catalog
  he_exec :: exec_env
  he_times :: "string \<Rightarrow> int \<times> int"
  he_order :: "string list \<Rightarrow> string list"
  he_gone :: bool
  he_redirect_status :: int
  he_json_valid :: "string \<Rightarrow> bool"
  he_decode_map :: "params option decoder"
  he_decode_exec :: "(params option \<times> int) decoder"
  he_decode_create :: "create_template_request decoder"
  he_decode_update :: "update_template_request decoder"
  he_decode_invocation :: "create_invocation_request decoder"

section \<open>Helpers\<close>

definition write_json :: "string \<Rightarrow> int \<Rightarrow> http_body \<Rightarrow> http_response" where
  "write_json rid status body = \<lparr>hs_status = status, hs_request_id = rid, hs_content_type = ''application/json'',
     hs_exit_code = None, hs_location = None, hs_body = body\<rparr>"

definition write_error :: "string \<Rightarrow> int \<Rightarrow> string \<Rightarrow> string \<Rightarrow> params \<Rightarrow> http_response" where
  "write_error rid status code message details =
     write_json rid status (BodyError \<lparr>er_api_code = code, er_api_message = message, er_api_request_id = rid, er_api_details = details\<rparr>)"

definition write_service_error :: "string \<Rightarrow> svc_error \<Rightarrow> http_response" where
  "write_service_error rid e = write_error rid (se_status e) (se_code e) (se_message e) (se_details e)"

definition invocation_error_status :: "string \<Rightarrow> int" where
  "invocation_error_status code =
     (if code = ''NODE_NOT_FOUND'' then 404
      else if code = ''NODE_OFFLINE'' \<or> code = ''TIMEOUT'' then 503
      else if code = ''CANCELED'' then 409
      else if code = ''POLICY_DENIED'' \<or> code = ''FORBIDDEN'' \<or> code = ''CAPABILITY_DISABLED'' \<or> code = ''COMMAND_FAILED'' then 403
      else 500)"

definition write_invocation_error :: "string \<Rightarrow> invocation_error \<Rightarrow> http_response" where
  "write_invocation_error rid e =
     write_error rid (invocation_error_status (ie_code e)) (ie_code e) (ie_message e) (ie_details e)"

definition max_body :: int where "max_body = 1048576"

definition decode_json_body :: "'a decoder \<Rightarrow> http_request \<Rightarrow> 'a go_result" where
  "decode_json_body dec r = dec (limit_body max_body (rq_body r))"

definition decode_json_map :: "http_env \<Rightarrow> http_request \<Rightarrow> params go_result" where
  "decode_json_map env r =
     (if rq_content_length r = 0 then Inr []
      else case he_decode_map env (limit_body max_body (rq_body r)) of
             Inl e \<Rightarrow> Inl e
           | Inr None \<Rightarrow> Inr []
           | Inr (Some m) \<Rightarrow> Inr m)"

definition parse_positive_int_query :: "http_request \<Rightarrow> string \<Rightarrow> int \<Rightarrow> int \<Rightarrow> int option" where
  "parse_positive_int_query r key default_value max_value =
     (let raw = query_get r key in
      if raw = [] then Some default_value
      else case atoi raw of
             None \<Rightarrow> None
           | Some n \<Rightarrow> if n \<le> 0 then None
                       else Some (if max_value > 0 \<and> n > max_value then max_value else n))"

definition must_positive_query :: "http_request \<Rightarrow> string \<Rightarrow> int \<Rightarrow> int" where
  "must_positive_query r key default_value =
     (case parse_positive_int_query r key default_value 200 of None \<Rightarrow> default_value | Some v \<Rightarrow> v)"

definition api_paginate :: "'a list \<Rightarrow> string \<Rightarrow> int \<Rightarrow> ('a \<Rightarrow> string) \<Rightarrow> 'a list_page" where
  "api_paginate items cursor limit id_fn =
     (let n = length items;
          start0 = (if cursor \<noteq> [] then (case find_index (\<lambda>x. id_fn x = cursor) items of
                                         Some i \<Rightarrow> i + 1 | None \<Rightarrow> n) else 0);
          start = (if start0 > n then n else start0);
          stop = min (start + nat limit) n;
          nxt = (if stop < n then id_fn (items ! (stop - 1)) else [])
      in \<lparr>lp_items = take (stop - start) (drop start items), lp_next_cursor = nxt\<rparr>)"

definition build_node :: "agent_record \<Rightarrow> node_response" where
  "build_node rec =
     (let parts = split_char slash (ar_os rec);
          platform = (if ar_os rec \<noteq> []
                      then \<lparr>np_os = hd parts, np_arch = (if length parts > 1 then parts ! 1 else []), np_kernel = []\<rparr>
                      else \<lparr>np_os = [], np_arch = [], np_kernel = []\<rparr>)
      in \<lparr>nr_id = ar_hostname rec, nr_hostname = ar_hostname rec, nr_labels = [], nr_status = status_str (ar_status rec),
          nr_platform = platform,
          nr_agent = \<lparr>na_version = ar_agent_version rec, na_connected_via = ar_proxy_path rec\<rparr>,
          nr_last_seen_at = ar_last_heartbeat rec, nr_registered_at = ar_registered_at rec\<rparr>)"

section \<open>Nodes\<close>

type_synonym handler = "http_env \<Rightarrow> http_request \<Rightarrow> request_meta \<Rightarrow> service \<Rightarrow> http_response \<times> service"

definition node_selected :: "string \<Rightarrow> string \<Rightarrow> agent_record \<Rightarrow> bool" where
  "node_selected hostname st rec \<longleftrightarrow>
     ar_node_type rec = ''agent'' \<and> (hostname = [] \<or> ar_hostname rec = hostname) \<and> (st = [] \<or> status_str (ar_status rec) = st)"

definition selected_nodes :: "center_registry \<Rightarrow> string \<Rightarrow> string \<Rightarrow> node_response list" where
  "selected_nodes reg hostname st =
     sort_key nr_id (map build_node (filter (node_selected hostname st) (registry_all reg)))"

definition handle_list_nodes :: handler where
  "handle_list_nodes env r meta s =
     (let rid = rm_request_id meta in
      if query_get r ''label_selector'' \<noteq> []
      then (write_error rid 400 ''UNIMPLEMENTED'' ''label_selector is not yet implemented'' [(''field'', GStr ''label_selector'')], s)
      else case parse_positive_int_query r ''limit'' 50 200 of
        None \<Rightarrow> (write_error rid 400 ''INVALID_ARGUMENT'' ''limit must be a positive integer'' [(''field'', GStr ''limit'')], s)
      | Some limit \<Rightarrow>
          (write_json rid 200 (BodyNodes (api_paginate
             (selected_nodes (en_reg (he_exec env)) (query_get r ''hostname'') (query_get r ''status''))
             (query_get r ''cursor'') limit nr_id)), s))"

definition node_not_found :: "string \<Rightarrow> string \<Rightarrow> http_response" where
  "node_not_found rid node = write_error rid 404 ''NODE_NOT_FOUND'' ''target node was not found'' [(''node_id'', GStr node)]"

definition find_agent :: "http_env \<Rightarrow> string \<Rightarrow> agent_record option" where
  "find_agent env node =
     (case registry_lookup (en_reg (he_exec env)) node of
        None \<Rightarrow> None | Some rec \<Rightarrow> if ar_node_type rec \<noteq> ''agent'' then None else Some rec)"

definition handle_get_node :: "http_env \<Rightarrow> request_meta \<Rightarrow> string \<Rightarrow> http_response" where
  "handle_get_node env meta node =
     (case find_agent env node of
        None \<Rightarrow> node_not_found (rm_request_id meta) node
      | Some rec \<Rightarrow> write_json (rm_request_id meta) 200 (BodyNode (build_node rec)))"

definition builtin_capabilities :: "bool \<Rightarrow> capability list" where
  "builtin_capabilities enabled =
     map (\<lambda>(name, risk). \<lparr>cb_name = name, cb_type = ''builtin'', cb_risk_level = risk, cb_enabled = enabled\<rparr>)
       [(''fs.list'', ''readonly''), (''fs.read'', ''readonly''), (''fs.stat'', ''readonly''),
        (''fs.write'', ''mutating''), (''sys.info'', ''readonly''), (''sys.hardware'', ''readonly'')]"

definition all_templates_filter :: template_filter where
  "all_templates_filter = \<lparr>tf_limit = 200, tf_cursor = [], tf_name = [], tf_enabled = None, tf_risk_level = [], tf_target_os = []\<rparr>"

definition handle_capabilities :: "http_env \<Rightarrow> request_meta \<Rightarrow> string \<Rightarrow> service \<Rightarrow> http_response" where
  "handle_capabilities env meta node s =
     (case find_agent env node of
        None \<Rightarrow> node_not_found (rm_request_id meta) node
      | Some rec \<Rightarrow>
          let enabled = (ar_status rec = StatusOnline) in
          write_json (rm_request_id meta) 200 (BodyCapabilities (builtin_capabilities enabled @
            map (\<lambda>tpl. \<lparr>cb_name = tpl_name tpl, cb_type = ''command_template'', cb_risk_level = tpl_risk_level tpl,
                        cb_enabled = (enabled \<and> tpl_enabled tpl)\<rparr>)
              (lp_items (list_templates all_templates_filter s)))))"

section \<open>Running actions on a node\<close>

definition run_target :: "http_env \<Rightarrow> string \<Rightarrow> execution_plan \<Rightarrow> string \<Rightarrow> invocation_result" where
  "run_target env i plan node =
     fst (execute_target (he_exec env) (fst (he_times env node)) (snd (he_times env node)) i node plan)"

definition direct :: "http_env \<Rightarrow> request_meta \<Rightarrow> string \<Rightarrow> string \<Rightarrow> params \<Rightarrow> service
    \<Rightarrow> (invocation option \<times> invocation_result option) svc_result \<times> service" where
  "direct env meta node action ps s = direct_invoke_builtin (run_target env) (he_gone env) meta node action ps s"

text \<open>\<open>body\<close> makes the payload of a result that is no error; a call without any result gives an
  empty object.\<close>

definition answer_direct ::
  "string \<Rightarrow> (gany \<Rightarrow> gany) \<Rightarrow> (invocation option \<times> invocation_result option) svc_result \<times> service
   \<Rightarrow> http_response \<times> service" where
  "answer_direct rid body outcome =
     (case outcome of
        (Inl e, s) \<Rightarrow> (write_service_error rid e, s)
      | (Inr (iv, res), s) \<Rightarrow>
          (case res of
             None \<Rightarrow> (write_json rid 200 (BodyData (GMap [])), s)
           | Some x \<Rightarrow>
               (case res_error x of
                  Some e \<Rightarrow> (write_invocation_error rid e, s)
                | None \<Rightarrow> (write_json rid 200 (BodyData (body (res_data x))), s))))"

definition only_object :: "gany \<Rightarrow> gany" where
  "only_object d = (case as_map d of None \<Rightarrow> GNil | Some m \<Rightarrow> GMap m)"

definition handle_get_node_config :: "http_env \<Rightarrow> request_meta \<Rightarrow> string \<Rightarrow> service \<Rightarrow> http_response \<times> service" where
  "handle_get_node_config env meta node s =
     answer_direct (rm_request_id meta) only_object (direct env meta node ''config.get'' [] s)"

definition handle_patch_node_config ::
  "http_env \<Rightarrow> http_request \<Rightarrow> request_meta \<Rightarrow> string \<Rightarrow> service \<Rightarrow> http_response \<times> service" where
  "handle_patch_node_config env r meta node s =
     (case decode_json_map env r of
        Inl e \<Rightarrow> (write_error (rm_request_id meta) 400 ''INVALID_ARGUMENT'' e [], s)
      | Inr ps \<Rightarrow> answer_direct (rm_request_id meta) only_object (direct env meta node ''config.set'' ps s))"

definition handle_action ::
  "http_env \<Rightarrow> http_request \<Rightarrow> request_meta \<Rightarrow> string \<Rightarrow> string \<Rightarrow> service \<Rightarrow> http_response \<times> service" where
  "handle_action env r meta node action s =
     (case decode_json_map env r of
        Inl e \<Rightarrow> (write_error (rm_request_id meta) 400 ''INVALID_ARGUMENT'' e [], s)
      | Inr ps \<Rightarrow> answer_direct (rm_request_id meta) id (direct env meta node action ps s))"

definition exec_params :: "http_env \<Rightarrow> http_request \<Rightarrow> (params \<times> int) go_result" where
  "exec_params env r =
     (if rq_content_length r > 0 then
        (case decode_json_body (he_decode_exec env) r of
           Inl e \<Rightarrow> Inl e
         | Inr (None, t) \<Rightarrow> Inr ([], t)
         | Inr (Some m, t) \<Rightarrow> Inr (m, t))
      else Inr ([], 0))"

definition json_text :: "http_env \<Rightarrow> string \<Rightarrow> bool" where
  "json_text env out =
     (let t = trim_space out in
      t \<noteq> [] \<and> (hd t = CHR ''{'' \<or> hd t = CHR ''['') \<and> he_json_valid env t)"

definition write_exec_result :: "http_env \<Rightarrow> string \<Rightarrow> exec_result \<Rightarrow> http_response" where
  "write_exec_result env rid x =
     (if xr_exit_code x \<noteq> 0
      then \<lparr>hs_status = 422, hs_request_id = rid, hs_content_type = ''application/json'',
            hs_exit_code = Some (dec_of_int (xr_exit_code x)), hs_location = None, hs_body = BodyExit x\<rparr>
      else \<lparr>hs_status = 200, hs_request_id = rid,
            hs_content_type = (if json_text env (xr_stdout x) then ''application/json'' else ''text/plain; charset=utf-8''),
            hs_exit_code = Some ''0'', hs_location = None, hs_body = BodyRaw (xr_stdout x)\<rparr>)"

definition handle_exec_template ::
  "http_env \<Rightarrow> http_request \<Rightarrow> request_meta \<Rightarrow> string \<Rightarrow> string \<Rightarrow> service \<Rightarrow> http_response \<times> service" where
  "handle_exec_template env r meta node template_id s =
     (let rid = rm_request_id meta in
      case exec_params env r of
        Inl e \<Rightarrow> (write_error rid 400 ''INVALID_ARGUMENT'' e [], s)
      | Inr (ps, timeout) \<Rightarrow>
          (case exec_template (he_exec env) meta node template_id ps timeout s of
             (Inl e, logs, s1) \<Rightarrow> (write_service_error rid e, s1)
           | (Inr x, logs, s1) \<Rightarrow> (write_exec_result env rid x, s1)))"

definition trim_route :: "string \<Rightarrow> http_request \<Rightarrow> string" where
  "trim_route pre r = trim_suffix (trim_prefix (url_path r) pre) ''/''"

definition handle_node_routes :: handler where
  "handle_node_routes env r meta s =
     (let rid = rm_request_id meta; path = trim_route ''/v1/nodes/'' r in
      if path = [] then (write_error rid 404 ''NODE_NOT_FOUND'' ''node not found'' [], s)
      else
        let parts = split_char slash path; meth = rq_method r;
            bad = (write_error rid 400 ''INVALID_ARGUMENT'' ''invalid node id'' [(''field'', GStr ''node_id'')], s)
        in case path_unescape (hd parts) of
             None \<Rightarrow> bad
           | Some node \<Rightarrow>
               if node = [] then bad
               else if length parts = 1 \<and> meth = ''GET'' then (handle_get_node env meta node, s)
               else if length parts = 2 \<and> parts ! 1 = ''capabilities'' \<and> meth = ''GET'' then (handle_capabilities env meta node s, s)
               else if length parts = 2 \<and> parts ! 1 = ''config'' \<and> meth = ''GET'' then handle_get_node_config env meta node s
               else if length parts = 2 \<and> parts ! 1 = ''config'' \<and> meth = ''PATCH'' then handle_patch_node_config env r meta node s
               else if length parts = 4 \<and> parts ! 1 = ''command-templates'' \<and> parts ! 3 = ''invoke'' \<and> meth = ''POST''
               then handle_exec_template env r meta node (case path_unescape (parts ! 2) of None \<Rightarrow> [] | Some t \<Rightarrow> t) s
               else if length parts = 3 \<and> parts ! 1 = ''actions'' \<and> meth = ''POST'' then handle_action env r meta node (parts ! 2) s
               else (write_error rid 404 ''NOT_FOUND'' ''endpoint not found'' [], s))"

section \<open>Command templates\<close>

definition handle_list_templates :: handler where
  "handle_list_templates env r meta s =
     (let raw = query_get r ''enabled'' in
      (write_json (rm_request_id meta) 200 (BodyTemplates (list_templates
         \<lparr>tf_limit = must_positive_query r ''limit'' 50, tf_cursor = query_get r ''cursor'', tf_name = query_get r ''name'',
          tf_enabled = (if raw \<noteq> [] then Some (raw = ''true'') else None),
          tf_risk_level = query_get r ''risk_level'', tf_target_os = query_get r ''target_os''\<rparr> s)), s))"

definition handle_create_template :: handler where
  "handle_create_template env r meta s =
     (case decode_json_body (he_decode_create env) r of
        Inl e \<Rightarrow> (write_error (rm_request_id meta) 400 ''INVALID_ARGUMENT'' e [], s)
      | Inr req \<Rightarrow>
          (case create_template meta req s of
             (Inl e, s1) \<Rightarrow> (write_service_error (rm_request_id meta) e, s1)
           | (Inr tpl, s1) \<Rightarrow> (write_json (rm_request_id meta) 201 (BodyTemplate tpl), s1)))"

text \<open>\<open>CreateInvocation\<close>: an asynchronous one is answered once it is recorded, its run goes on in
  a goroutine (the steps \<open>AeBegin\<close> and \<open>AeFinish\<close> of \<open>admin_step\<close>).\<close>

definition answer_invocation :: "http_env \<Rightarrow> request_meta \<Rightarrow> create_invocation_request \<Rightarrow> service \<Rightarrow> http_response \<times> service" where
  "answer_invocation env meta req s =
     (let rid = rm_request_id meta in
      if cir_async req then
        (case open_invocation meta req s of
           (Inl e, s1) \<Rightarrow> (write_service_error rid e, s1)
         | (Inr (iv, plan), s1) \<Rightarrow> (write_json rid 202 (BodyInvoked (Some (clone_invocation iv)) []), s1))
      else
        (case create_invocation_sync (run_target env) (he_order env) (he_gone env) meta req s of
           (Inl e, s1) \<Rightarrow> (write_service_error rid e, s1)
         | (Inr (iv, results), s1) \<Rightarrow> (write_json rid 200 (BodyInvoked iv results), s1)))"

definition handle_create_invocation :: handler where
  "handle_create_invocation env r meta s =
     (case decode_json_body (he_decode_invocation env) r of
        Inl e \<Rightarrow> (write_error (rm_request_id meta) 400 ''INVALID_ARGUMENT'' e [], s)
      | Inr req \<Rightarrow> answer_invocation env meta req s)"

definition handle_invoke_template :: "http_env \<Rightarrow> http_request \<Rightarrow> request_meta \<Rightarrow> string \<Rightarrow> service \<Rightarrow> http_response \<times> service" where
  "handle_invoke_template env r meta template_id s =
     (case decode_json_body (he_decode_invocation env) r of
        Inl e \<Rightarrow> (write_error (rm_request_id meta) 400 ''INVALID_ARGUMENT'' e [], s)
      | Inr req \<Rightarrow> answer_invocation env meta (invoke_template_request template_id req) s)"

definition handle_template_routes :: handler where
  "handle_template_routes env r meta s =
     (let rid = rm_request_id meta; path = trim_route ''/v1/command-templates/'' r in
      if path = [] then (write_error rid 404 ''COMMAND_TEMPLATE_NOT_FOUND'' ''command template not found'' [], s)
      else case cut_suffix path '':invoke'' of
        Some template_id \<Rightarrow> handle_invoke_template env r meta template_id s
      | None \<Rightarrow>
      case path_unescape path of
        None \<Rightarrow> (write_error rid 400 ''INVALID_ARGUMENT'' ''invalid template id'' [], s)
      | Some template_id \<Rightarrow>
          if rq_method r = ''GET'' then
            (case get_template template_id s of
               Inl e \<Rightarrow> (write_service_error rid e, s)
             | Inr tpl \<Rightarrow> (write_json rid 200 (BodyTemplate tpl), s))
          else if rq_method r = ''PATCH'' then
            (case decode_json_body (he_decode_update env) r of
               Inl e \<Rightarrow> (write_error rid 400 ''INVALID_ARGUMENT'' e [], s)
             | Inr req \<Rightarrow>
                 (case update_template meta template_id req s of
                    (Inl e, s1) \<Rightarrow> (write_service_error rid e, s1)
                  | (Inr tpl, s1) \<Rightarrow> (write_json rid 200 (BodyTemplate tpl), s1)))
          else (write_error rid 404 ''NOT_FOUND'' ''endpoint not found'' [], s))"

section \<open>Invocations and audit events\<close>

definition handle_list_invocations :: handler where
  "handle_list_invocations env r meta s =
     (write_json (rm_request_id meta) 200 (BodyInvocations (list_invocations
        \<lparr>if_limit = must_positive_query r ''limit'' 50, if_cursor = query_get r ''cursor'', if_status = query_get r ''status'',
         if_action = query_get r ''action'', if_action_type = query_get r ''action_type''\<rparr> s)), s)"

definition handle_invocation_routes :: handler where
  "handle_invocation_routes env r meta s =
     (let rid = rm_request_id meta; path = trim_route ''/v1/invocations/'' r in
      if path = [] then (write_error rid 404 ''INVOCATION_NOT_FOUND'' ''invocation not found'' [], s)
      else if has_suffix path ''/results'' then
        (case get_invocation_results (trim_suffix path ''/results'') s of
           Inl e \<Rightarrow> (write_service_error rid e, s)
         | Inr results \<Rightarrow> (write_json rid 200 (BodyResults results), s))
      else if has_suffix path '':cancel'' \<and> rq_method r = ''POST'' then
        (case cancel_invocation (trim_suffix path '':cancel'') s of
           (Inl e, s1) \<Rightarrow> (write_service_error rid e, s1)
         | (Inr iv, s1) \<Rightarrow> (write_json rid 200 (BodyCanceled iv), s1))
      else if rq_method r = ''GET'' then
        (case get_invocation path s of
           Inl e \<Rightarrow> (write_service_error rid e, s)
         | Inr iv \<Rightarrow> (write_json rid 200 (BodyInvocation iv), s))
      else (write_error rid 404 ''NOT_FOUND'' ''endpoint not found'' [], s))"

definition handle_list_audit_events :: handler where
  "handle_list_audit_events env r meta s =
     (write_json (rm_request_id meta) 200 (BodyAudits (list_audit_events
        \<lparr>af_limit = must_positive_query r ''limit'' 50, af_cursor = query_get r ''cursor'', af_action = query_get r ''action'',
         af_decision = query_get r ''decision'', af_node_id = query_get r ''node_id'', af_subject_id = query_get r ''subject_id''\<rparr> s)), s)"

definition handle_audit_event_routes :: handler where
  "handle_audit_event_routes env r meta s =
     (case get_audit_event (trim_prefix (trim_suffix (url_path r) ''/'') ''/v1/audit/events/'') s of
        Inl e \<Rightarrow> (write_service_error (rm_request_id meta) e, s)
      | Inr evt \<Rightarrow> (write_json (rm_request_id meta) 200 (BodyAudit evt), s))"

section \<open>\<open>NewHandler\<close>\<close>

datatype route = ListNodes | NodeRoutes | ListTemplates | CreateTemplate | TemplateRoutes
  | ListInvocations | CreateInvocation | InvocationRoutes | ListAuditEvents | AuditEventRoutes

definition api_pattern :: "string option \<Rightarrow> string list \<Rightarrow> bool \<Rightarrow> route \<Rightarrow> domain list \<Rightarrow> (route \<times> domain list) mux_pattern" where
  "api_pattern meth segs sub rt ds = \<lparr>mp_method = meth, mp_segs = segs, mp_subtree = sub, mp_handler = (rt, ds)\<rparr>"

definition api_patterns :: "(route \<times> domain list) mux_pattern list" where
  "api_patterns =
     (let both = [DomainClient, DomainAdmin] in
      [api_pattern (Some ''GET'') [''v1'', ''nodes''] False ListNodes both,
       api_pattern None [''v1'', ''nodes''] True NodeRoutes both,
       api_pattern (Some ''GET'') [''v1'', ''command-templates''] False ListTemplates both,
       api_pattern (Some ''POST'') [''v1'', ''command-templates''] False CreateTemplate [DomainAdmin],
       api_pattern None [''v1'', ''command-templates''] True TemplateRoutes both,
       api_pattern (Some ''GET'') [''v1'', ''invocations''] False ListInvocations both,
       api_pattern (Some ''POST'') [''v1'', ''invocations''] False CreateInvocation both,
       api_pattern None [''v1'', ''invocations''] True InvocationRoutes both,
       api_pattern (Some ''GET'') [''v1'', ''audit'', ''events''] False ListAuditEvents [DomainAdmin],
       api_pattern None [''v1'', ''audit'', ''events''] True AuditEventRoutes [DomainAdmin]])"

definition route_handler :: "route \<Rightarrow> handler" where
  "route_handler rt =
     (case rt of
        ListNodes \<Rightarrow> handle_list_nodes | NodeRoutes \<Rightarrow> handle_node_routes
      | ListTemplates \<Rightarrow> handle_list_templates | CreateTemplate \<Rightarrow> handle_create_template
      | TemplateRoutes \<Rightarrow> handle_template_routes | ListInvocations \<Rightarrow> handle_list_invocations
      | CreateInvocation \<Rightarrow> handle_create_invocation | InvocationRoutes \<Rightarrow> handle_invocation_routes
      | ListAuditEvents \<Rightarrow> handle_list_audit_events | AuditEventRoutes \<Rightarrow> handle_audit_event_routes)"

definition api_require_http :: "handler \<Rightarrow> domain list \<Rightarrow> string \<Rightarrow> http_env \<Rightarrow> http_request \<Rightarrow> service \<Rightarrow> http_response \<times> service" where
  "api_require_http next allowed rid env r s =
     (case authenticate_http (he_sha env) (he_tokens env) (rq_auth r) allowed of
        Inl e \<Rightarrow>
          (if e = ''forbidden'' then write_error rid 403 ''FORBIDDEN'' ''token is not allowed to access this endpoint'' []
           else write_error rid 401 ''UNAUTHORIZED'' ''missing or invalid bearer token'' [], s)
      | Inr ident \<Rightarrow> next env r \<lparr>rm_request_id = rid, rm_source = ''api'', rm_identity = ident\<rparr> s)"

definition with_request_id :: "http_request \<Rightarrow> service \<Rightarrow> string \<times> service" where
  "with_request_id r s = (if rq_request_id r = [] then sv_fresh_id ''http'' s else (rq_request_id r, s))"

definition plain_response :: "string \<Rightarrow> int \<Rightarrow> string option \<Rightarrow> string \<Rightarrow> http_response" where
  "plain_response rid status location msg = \<lparr>hs_status = status, hs_request_id = rid, hs_content_type = ''text/plain; charset=utf-8'',
     hs_exit_code = None, hs_location = location, hs_body = BodyText msg\<rparr>"

definition api_serve :: "http_env \<Rightarrow> http_request \<Rightarrow> service \<Rightarrow> http_response \<times> service" where
  "api_serve env r s0 =
     (let (rid, s) = with_request_id r s0 in
      case mux_dispatch api_patterns (rq_method r) (rq_path r) of
        Serve (rt, allowed) \<Rightarrow> api_require_http (route_handler rt) allowed rid env r s
      | MovedTo p \<Rightarrow> (plain_response rid (he_redirect_status env) (Some p) [], s)
      | MethodNotAllowed \<Rightarrow> (plain_response rid 405 None ''Method Not Allowed'', s)
      | NotFound \<Rightarrow> (plain_response rid 404 None ''404 page not found'', s))"

end
