(* ===== verification/Api_Access.thy ===== *)
theory Api_Access
  imports Http_Api
begin

text \<open>
  What the HTTP API of \<open>Http_Api\<close> lets which token do: unauthenticated requests change nothing,
  only admin tokens change templates or read the audit trail.
\<close>

section \<open>What handlers leave alone\<close>

text \<open>The templates, by id and by name, are the same.\<close>

definition same_templates :: "service \<Rightarrow> service \<Rightarrow> bool" where
  "same_templates s s' \<longleftrightarrow> sv_templates s' = sv_templates s \<and> sv_template_name_ids s' = sv_template_name_ids s"

lemma same_templates_refl [simp, intro]: "same_templates s s"
  by (simp add: same_templates_def)

lemma same_templates_trans: "same_templates s t \<Longrightarrow> same_templates t u \<Longrightarrow> same_templates s u"
  by (simp add: same_templates_def)

lemma same_templates_clock [simp]:
  "same_templates s (snd (sv_now t)) = same_templates s t"
  "same_templates s (snd (sv_fresh_id p t)) = same_templates s t"
  "same_templates s (snd (normalize_meta m t)) = same_templates s t"
  by (auto simp: same_templates_def sv_now_def sv_fresh_id_def normalize_meta_def Let_def case_prod_unfold)

lemma same_templates_audit_start [simp]: "same_templates s (record_audit_start m iv risk t) = same_templates s t"
  by (auto simp: same_templates_def record_audit_start_def sv_now_def sv_fresh_id_def Let_def case_prod_unfold)

lemma same_templates_update [simp]:
  "same_templates s (update_invocation i f t) = same_templates s t"
  "same_templates s (finish_audit i d n t) = same_templates s t"
  by (simp_all add: same_templates_def)

lemma same_templates_other [simp]:
  "same_templates s (t\<lparr>sv_invocations := a\<rparr>) = same_templates s t"
  "same_templates s (t\<lparr>sv_results := b\<rparr>) = same_templates s t"
  "same_templates s (t\<lparr>sv_cancel_fns := c\<rparr>) = same_templates s t"
  "same_templates s (t\<lparr>sv_canceled := d\<rparr>) = same_templates s t"
  by (simp_all add: same_templates_def)

lemma open_same_templates: "same_templates s (snd (open_invocation meta req s))"
  by (auto simp: open_invocation_def Let_def case_prod_unfold split: sum.split)

lemma begin_same_templates: "same_templates s (snd (begin_invocation i t)) = same_templates s t"
  by (simp add: begin_invocation_def Let_def case_prod_unfold)

lemma finish_same_templates: "same_templates s (snd (finish_invocation i n rs c t)) = same_templates s t"
  by (simp add: finish_invocation_def Let_def case_prod_unfold)

lemma sync_same_templates: "same_templates s (snd (create_invocation_sync run ord gone meta req s))"
proof -
  obtain x s1 where o1: "open_invocation meta req s = (x, s1)" by fastforce
  with open_same_templates [of s meta req] have s1: "same_templates s s1" by simp
  show ?thesis
  proof (cases x)
    case (Inl e)
    with o1 s1 show ?thesis by (simp add: create_invocation_sync_def)
  next
    case (Inr y)
    with o1 s1 show ?thesis
      by (simp add: create_invocation_sync_def Let_def case_prod_unfold begin_same_templates finish_same_templates)
  qed
qed

lemma direct_same_templates: "same_templates s (snd (direct env meta node action ps s))"
  using sync_same_templates
  by (auto simp: direct_def direct_invoke_builtin_def case_prod_unfold split: sum.split)

lemma answer_direct_state: "snd (answer_direct rid body x) = snd x"
  by (auto simp: answer_direct_def split: prod.split sum.split option.split)

lemma cancel_same_templates: "same_templates s (snd (cancel_invocation i s))"
  by (auto simp: cancel_invocation_def Let_def split: option.split)

lemma exec_same_templates: "same_templates s (snd (snd (exec_template env meta node ref ps t s)))"
proof -
  have "snd (snd (exec_template env meta node ref ps t s)) = snd (normalize_meta meta s)"
    by (auto simp: exec_template_def Let_def case_prod_unfold split: sum.split option.split check.split)
  then show ?thesis by simp
qed

lemma answer_invocation_same_templates: "same_templates s (snd (answer_invocation env meta req s))"
proof (cases "cir_async req")
  case True
  with open_same_templates [of s meta req] show ?thesis
    by (auto simp: answer_invocation_def Let_def split: prod.split sum.split)
next
  case False
  with sync_same_templates [of s "run_target env" "he_order env" "he_gone env" meta req] show ?thesis
    by (auto simp: answer_invocation_def Let_def split: prod.split sum.split)
qed

lemma normalize_meta_identity: "rm_identity (fst (normalize_meta m s)) = rm_identity m"
  by (auto simp: normalize_meta_def Let_def case_prod_unfold)

lemma create_template_refused:
  "id_domain (rm_identity meta) \<noteq> DomainAdmin \<Longrightarrow> same_templates s (snd (create_template meta req s))"
  using normalize_meta_identity [of meta s]
  by (auto simp: create_template_def case_prod_unfold)

lemma update_template_refused:
  "id_domain (rm_identity meta) \<noteq> DomainAdmin \<Longrightarrow> same_templates s (snd (update_template meta i req s))"
  using normalize_meta_identity [of meta s]
  by (auto simp: update_template_def case_prod_unfold)

section \<open>Access control\<close>

text \<open>The domain of the token a request bears, if it is a token of the HTTP catalog.\<close>

definition caller :: "http_env \<Rightarrow> http_request \<Rightarrow> domain option" where
  "caller env r = (case authenticate_http (he_sha env) (he_tokens env) (rq_auth r) [] of
      Inl _ \<Rightarrow> None | Inr ident \<Rightarrow> Some (id_domain ident))"

lemma authenticated_caller:
  assumes "authenticate_http (he_sha env) (he_tokens env) (rq_auth r) (d # ds) = Inr ident"
  shows "caller env r = Some (id_domain ident) \<and> id_domain ident \<in> set (d # ds)"
  using assms by (auto simp: caller_def authenticate_http_def split: sum.splits option.splits if_splits)

definition refusal :: "http_body \<Rightarrow> bool" where
  "refusal b = (case b of BodyError _ \<Rightarrow> True | BodyText _ \<Rightarrow> True | _ \<Rightarrow> False)"

definition audit_body :: "http_body \<Rightarrow> bool" where
  "audit_body b = (case b of BodyAudits _ \<Rightarrow> True | BodyAudit _ \<Rightarrow> True | _ \<Rightarrow> False)"

lemma body_simps [simp]:
  "refusal (BodyError e)" "refusal (BodyText t)" "\<not> audit_body (BodyError e)" "\<not> audit_body (BodyText t)"
  by (simp_all add: refusal_def audit_body_def)

lemmas responses = write_service_error_def write_invocation_error_def write_error_def write_json_def
  node_not_found_def plain_response_def

lemma direct_no_audit: "\<not> audit_body (hs_body (fst (answer_direct rid f x)))"
  by (auto simp: answer_direct_def responses audit_body_def split: prod.split sum.split option.split)

lemma answer_invocation_no_audit: "\<not> audit_body (hs_body (fst (answer_invocation env meta req s)))"
  by (auto simp: answer_invocation_def responses audit_body_def Let_def split: prod.split sum.split)

lemma exec_result_no_audit: "\<not> audit_body (hs_body (write_exec_result env rid x))"
  by (simp add: write_exec_result_def audit_body_def)

lemma node_routes_effects:
  "same_templates s (snd (handle_node_routes env r meta s)) \<and> \<not> audit_body (hs_body (fst (handle_node_routes env r meta s)))"
proof -
  have exec: "same_templates s (snd (handle_exec_template env r meta node t s)) \<and>
      \<not> audit_body (hs_body (fst (handle_exec_template env r meta node t s)))" for node t
    using exec_same_templates [of s "he_exec env" meta node t] exec_result_no_audit
    by (auto simp: handle_exec_template_def Let_def responses split: sum.split prod.split)
       (metis snd_conv)+
  have action: "same_templates s (snd (handle_action env r meta node t s)) \<and>
      \<not> audit_body (hs_body (fst (handle_action env r meta node t s)))" for node t
    using direct_same_templates direct_no_audit
    by (auto simp: handle_action_def answer_direct_state responses split: sum.split)
  have patch: "same_templates s (snd (handle_patch_node_config env r meta node s)) \<and>
      \<not> audit_body (hs_body (fst (handle_patch_node_config env r meta node s)))" for node
    using direct_same_templates direct_no_audit
    by (auto simp: handle_patch_node_config_def answer_direct_state responses split: sum.split)
  have getc: "same_templates s (snd (handle_get_node_config env meta node s)) \<and>
      \<not> audit_body (hs_body (fst (handle_get_node_config env meta node s)))" for node
    using direct_same_templates direct_no_audit
    by (auto simp: handle_get_node_config_def answer_direct_state)
  have look: "\<not> audit_body (hs_body (handle_get_node env meta node))"
    "\<not> audit_body (hs_body (handle_capabilities env meta node s))" for node
    by (auto simp: handle_get_node_def handle_capabilities_def responses audit_body_def Let_def split: option.split)
  show ?thesis
    using exec action patch getc look
    by (auto simp: handle_node_routes_def Let_def responses split: option.split)
qed

lemma template_routes_effects:
  "(id_domain (rm_identity meta) \<noteq> DomainAdmin \<longrightarrow> same_templates s (snd (handle_template_routes env r meta s))) \<and>
   \<not> audit_body (hs_body (fst (handle_template_routes env r meta s)))"
proof -
  have invoke: "same_templates s (snd (handle_invoke_template env r meta t s)) \<and>
      \<not> audit_body (hs_body (fst (handle_invoke_template env r meta t s)))" for t
    using answer_invocation_same_templates answer_invocation_no_audit
    by (auto simp: handle_invoke_template_def responses split: sum.split)
  have upd: "id_domain (rm_identity meta) \<noteq> DomainAdmin \<Longrightarrow> update_template meta i q s = (x, s1) \<Longrightarrow> same_templates s s1" for i q x s1
    using update_template_refused [of meta s i q] by simp
  show ?thesis
    using invoke upd
    by (auto simp: handle_template_routes_def Let_def responses audit_body_def split: option.split sum.split prod.split)
qed

lemma handler_effects:
  "(id_domain (rm_identity meta) \<noteq> DomainAdmin \<longrightarrow> same_templates s (snd (route_handler rt env r meta s))) \<and>
   (audit_body (hs_body (fst (route_handler rt env r meta s))) \<longrightarrow> rt = ListAuditEvents \<or> rt = AuditEventRoutes)"
proof (cases rt)
  case CreateTemplate
  have "id_domain (rm_identity meta) \<noteq> DomainAdmin \<Longrightarrow> create_template meta q s = (x, s1) \<Longrightarrow> same_templates s s1" for q x s1
    using create_template_refused [of meta s q] by simp
  with CreateTemplate show ?thesis
    by (auto simp: route_handler_def handle_create_template_def responses audit_body_def split: sum.split prod.split)
next
  case CreateInvocation
  then show ?thesis using answer_invocation_same_templates answer_invocation_no_audit
    by (auto simp: route_handler_def handle_create_invocation_def responses split: sum.split)
next
  case InvocationRoutes
  have "cancel_invocation i s = (x, s1) \<Longrightarrow> same_templates s s1" for i x s1
    using cancel_same_templates [of s i] by simp
  with InvocationRoutes show ?thesis
    by (auto simp: route_handler_def handle_invocation_routes_def responses audit_body_def Let_def split: sum.split prod.split)
next
  case NodeRoutes
  then show ?thesis using node_routes_effects by (simp add: route_handler_def)
next
  case TemplateRoutes
  then show ?thesis using template_routes_effects by (simp add: route_handler_def)
qed (auto simp: route_handler_def handle_list_nodes_def handle_list_templates_def
    handle_list_invocations_def handle_list_audit_events_def handle_audit_event_routes_def responses audit_body_def Let_def
    split: option.split sum.split)

lemma api_pattern_domains:
  assumes "mux_dispatch api_patterns meth path = Serve (rt, ds)"
  shows "\<exists>d ds'. ds = d # ds' \<and> set ds \<subseteq> {DomainClient, DomainAdmin} \<and>
           (rt \<in> {CreateTemplate, ListAuditEvents, AuditEventRoutes} \<longrightarrow> ds = [DomainAdmin])"
  using mux_serves_match [OF assms]
  by (auto simp: api_patterns_def api_pattern_def Let_def)

text \<open>A request that no handler serves.\<close>

lemma unserved_refused:
  assumes "api_serve env r s = (res, s')" and "with_request_id r s = (rid, s1)"
    and "\<And>rt ds. mux_dispatch api_patterns (rq_method r) (rq_path r) = Serve (rt, ds) \<Longrightarrow>
      \<exists>e. authenticate_http (he_sha env) (he_tokens env) (rq_auth r) ds = Inl e"
  shows "s' = s1 \<and> refusal (hs_body res) \<and> \<not> audit_body (hs_body res)"
proof (cases "mux_dispatch api_patterns (rq_method r) (rq_path r)")
  case (Serve h)
  obtain rt ds where h: "h = (rt, ds)" by fastforce
  with assms(3) Serve obtain e where "authenticate_http (he_sha env) (he_tokens env) (rq_auth r) ds = Inl e" by blast
  with assms(1,2) Serve h show ?thesis
    by (auto simp: api_serve_def api_require_http_def responses split: if_splits)
qed (use assms(1,2) in \<open>simp_all add: api_serve_def responses, auto\<close>)

text \<open>A request that is served.\<close>

lemma served_effects:
  assumes "api_serve env r s = (res, s')" and "with_request_id r s = (rid, s1)" and "same_templates s s1"
    and "mux_dispatch api_patterns (rq_method r) (rq_path r) = Serve (rt, ds)"
    and "authenticate_http (he_sha env) (he_tokens env) (rq_auth r) ds = Inr ident"
  shows "caller env r \<in> {Some DomainClient, Some DomainAdmin} \<and>
    (\<not> same_templates s s' \<or> audit_body (hs_body res) \<longrightarrow> caller env r = Some DomainAdmin)"
proof -
  from api_pattern_domains [OF assms(4)] obtain d ds' where
    ds: "ds = d # ds'" "set ds \<subseteq> {DomainClient, DomainAdmin}"
    and adm: "rt \<in> {CreateTemplate, ListAuditEvents, AuditEventRoutes} \<Longrightarrow> ds = [DomainAdmin]" by blast
  note c = authenticated_caller [OF assms(5) [unfolded ds(1)]]
  let ?meta = "\<lparr>rm_request_id = rid, rm_source = ''api'', rm_identity = ident\<rparr>"
  from assms(1,2,4,5) have res: "(res, s') = route_handler rt env r ?meta s1"
    by (simp add: api_serve_def api_require_http_def)
  have eff: "id_domain ident \<noteq> DomainAdmin \<longrightarrow> same_templates s1 s'"
    "audit_body (hs_body res) \<longrightarrow> rt = ListAuditEvents \<or> rt = AuditEventRoutes"
    using handler_effects [of ?meta s1 rt env r] unfolding res [symmetric] by simp_all
  have "caller env r = Some DomainAdmin" if "\<not> same_templates s s' \<or> audit_body (hs_body res)"
  proof (cases "audit_body (hs_body res)")
    case True
    with eff(2) adm ds have "d = DomainAdmin \<and> ds' = []" by auto
    with c show ?thesis by simp
  next
    case False
    with that assms(3) eff(1) same_templates_trans have "id_domain ident = DomainAdmin" by blast
    with c show ?thesis by simp
  qed
  with c ds show ?thesis by auto
qed

text \<open>C5: Access to the API.  A request changes more than the clock and the id counter, or is
  answered with anything but an error or a redirect, only if it bears a configured client or
  admin token; it changes a template, or is answered with audit events, only if it bears an
  admin token.  This holds for every method, path, query and body, at every route.\<close>

theorem api_access_control:
  assumes "api_serve env r s = (res, s')"
  shows "(s' \<noteq> s\<lparr>sv_world := sv_world s'\<rparr> \<or> \<not> refusal (hs_body res) \<longrightarrow>
            caller env r \<in> {Some DomainClient, Some DomainAdmin}) \<and>
         (\<not> same_templates s s' \<or> audit_body (hs_body res) \<longrightarrow> caller env r = Some DomainAdmin)"
proof -
  obtain rid s1 where w: "with_request_id r s = (rid, s1)" by fastforce
  then have s1: "s1 = s\<lparr>sv_world := sv_world s1\<rparr>"
    by (auto simp: with_request_id_def sv_fresh_id_def Let_def case_prod_unfold split: if_splits)
  have "same_templates s (snd (with_request_id r s))" by (simp add: with_request_id_def)
  with w have t1: "same_templates s s1" by simp
  show ?thesis
  proof (cases "\<exists>rt ds ident. mux_dispatch api_patterns (rq_method r) (rq_path r) = Serve (rt, ds) \<and>
      authenticate_http (he_sha env) (he_tokens env) (rq_auth r) ds = Inr ident")
    case True
    with served_effects [OF assms w t1] show ?thesis by blast
  next
    case False
    then have "\<exists>e. authenticate_http (he_sha env) (he_tokens env) (rq_auth r) ds = Inl e"
      if "mux_dispatch api_patterns (rq_method r) (rq_path r) = Serve (rt, ds)" for rt ds
      using that by (cases "authenticate_http (he_sha env) (he_tokens env) (rq_auth r) ds") blast+
    from unserved_refused [OF assms w this] s1 t1 show ?thesis by auto
  qed
qed

section \<open>An example\<close>

definition sample_http :: http_env where
  "sample_http = \<lparr>he_sha = toy_sha, he_tokens = four_tokens, he_exec = toy_env, he_times = (\<lambda>_. (1, 2)), he_order = id,
     he_gone = False, he_redirect_status = 307, he_json_valid = (\<lambda>_. False),
     he_decode_map = (\<lambda>(body, cut). if cut then Inl ''http: request body too large'' else Inr (Some [])),
     he_decode_exec = (\<lambda>_. Inr (None, 0)), he_decode_create = (\<lambda>_. Inr sample_create),
     he_decode_update = (\<lambda>_. Inr empty_patch), he_decode_invocation = (\<lambda>_. Inl ''EOF'')\<rparr>"

definition http_get :: "string \<Rightarrow> string \<Rightarrow> http_request" where
  "http_get token path = \<lparr>rq_method = ''GET'', rq_path = path, rq_query = [], rq_auth = ''Bearer '' @ token,
     rq_request_id = ''r1'', rq_content_length = 0, rq_body = []\<rparr>"

lemma sample_caller: "caller sample_http (http_get ''c1'' path) = Some DomainClient"
proof -
  have "authenticate_http toy_sha four_tokens ''Bearer c1'' [] =
     Inr \<lparr>id_domain = DomainClient, id_subject = ''client_01'', id_fingerprint = token_fingerprint toy_sha ''c1''\<rparr>" by code_simp
  then show ?thesis by (simp add: caller_def sample_http_def http_get_def)
qed

theorem api_access_control_witness:
  "\<not> audit_body (hs_body (fst (api_serve sample_http (http_get ''c1'' ''/v1/audit/events'') sample_service)))"
proof -
  obtain res s' where a: "api_serve sample_http (http_get ''c1'' ''/v1/audit/events'') sample_service = (res, s')" by fastforce
  from api_access_control [OF a] sample_caller show ?thesis unfolding a by simp
qed

end
