(* ===== verification/Api_Nodes.thy ===== *)
theory Api_Nodes
  imports Api_Access
begin

text \<open>
  The node endpoints of \<open>httpapi/server.go\<close> end to end: the listing as a client sees it that
  follows the cursors, and what comes back from an action on a node, through the admin service,
  the registry and the router.
\<close>

section \<open>Authenticated requests\<close>

lemma caller_authenticated:
  assumes "caller env r = Some d" and "d \<in> set allowed"
  shows "\<exists>ident. authenticate_http (he_sha env) (he_tokens env) (rq_auth r) allowed = Inr ident \<and> id_domain ident = d"
  using assms by (auto simp: caller_def authenticate_http_def split: sum.splits option.splits)

lemma served:
  assumes "mux_dispatch api_patterns (rq_method r) (rq_path r) = Serve (rt, allowed)"
    and "caller env r = Some d" and "d \<in> set allowed"
  shows "\<exists>ident. id_domain ident = d \<and>
    api_serve env r s = route_handler rt env r \<lparr>rm_request_id = fst (with_request_id r s), rm_source = ''api'', rm_identity = ident\<rparr>
      (snd (with_request_id r s))"
proof -
  obtain ident where i: "authenticate_http (he_sha env) (he_tokens env) (rq_auth r) allowed = Inr ident" "id_domain ident = d"
    using caller_authenticated [OF assms(2,3)] by blast
  with assms(1) have "api_serve env r s = route_handler rt env r
      \<lparr>rm_request_id = fst (with_request_id r s), rm_source = ''api'', rm_identity = ident\<rparr> (snd (with_request_id r s))"
    by (simp add: api_serve_def case_prod_unfold api_require_http_def Let_def)
  with i(2) show ?thesis by (intro exI [where x = ident] conjI)
qed

section \<open>The listing\<close>

lemma api_paginate_is_paginate: "api_paginate items cursor limit f = paginate items cursor limit f"
  by (simp add: api_paginate_def paginate_def)

lemma parse_limit_bounds:
  "parse_positive_int_query r ''limit'' 50 200 = Some l \<Longrightarrow> 0 < l \<and> l \<le> 200"
  by (auto simp: parse_positive_int_query_def Let_def split: if_splits option.splits)

lemma mux_list_nodes: "mux_dispatch api_patterns ''GET'' ''/v1/nodes'' = Serve (ListNodes, [DomainClient, DomainAdmin])"
  by code_simp

definition listing :: "http_env \<Rightarrow> http_request \<Rightarrow> node_response list" where
  "listing env r = selected_nodes (en_reg (he_exec env)) (query_get r ''hostname'') (query_get r ''status'')"

lemma serve_list_nodes:
  assumes "caller env r \<in> {Some DomainClient, Some DomainAdmin}"
    and "rq_method r = ''GET''" and "rq_path r = ''/v1/nodes''"
    and "query_get r ''label_selector'' = []" and "parse_positive_int_query r ''limit'' 50 200 = Some l"
  shows "hs_body (fst (api_serve env r s)) = BodyNodes (paginate (listing env r) (query_get r ''cursor'') l nr_id)"
proof -
  obtain d where d: "caller env r = Some d" "d \<in> set [DomainClient, DomainAdmin]" using assms(1) by auto
  have m: "mux_dispatch api_patterns (rq_method r) (rq_path r) = Serve (ListNodes, [DomainClient, DomainAdmin])"
    unfolding assms(2,3) by (rule mux_list_nodes)
  from served [OF m d] obtain meta where
    "api_serve env r s = route_handler ListNodes env r meta (snd (with_request_id r s))" by blast
  with assms(4,5) show ?thesis
    by (simp add: route_handler_def handle_list_nodes_def Let_def write_json_def listing_def api_paginate_is_paginate)
qed

lemma query_get_gupd [simp]:
  "query_get (r\<lparr>rq_query := gupd k v (rq_query r)\<rparr>) k' = (if k' = k then v else query_get r k')"
  by (simp add: query_get_def)

text \<open>A client that repeats its request with the cursor of the page before, at most \<open>fuel\<close> times.\<close>

fun walk_nodes :: "nat \<Rightarrow> http_env \<Rightarrow> http_request \<Rightarrow> service \<Rightarrow> node_response list" where
  "walk_nodes 0 env r s = []"
| "walk_nodes (Suc fuel) env r s =
     (let (res, s') = api_serve env r s in
      case hs_body res of
        BodyNodes p \<Rightarrow> lp_items p @ (if lp_next_cursor p = [] then []
          else walk_nodes fuel env (r\<lparr>rq_query := gupd ''cursor'' (lp_next_cursor p) (rq_query r)\<rparr>) s')
      | _ \<Rightarrow> [])"

lemma walk_follows_pages:
  assumes "caller env r \<in> {Some DomainClient, Some DomainAdmin}"
    and "rq_method r = ''GET''" and "rq_path r = ''/v1/nodes''"
    and "query_get r ''label_selector'' = []" and "parse_positive_int_query r ''limit'' 50 200 = Some l"
  shows "walk_nodes fuel env r s = follow_pages fuel (listing env r) (query_get r ''cursor'') l nr_id"
  using assms
proof (induction fuel arbitrary: r s)
  case 0
  then show ?case by simp
next
  case (Suc fuel)
  let ?p = "paginate (listing env r) (query_get r ''cursor'') l nr_id"
  let ?r = "r\<lparr>rq_query := gupd ''cursor'' (lp_next_cursor ?p) (rq_query r)\<rparr>"
  have c: "caller env ?r = caller env r" by (simp add: caller_def)
  have same: "listing env ?r = listing env r" by (simp add: listing_def)
  have "walk_nodes fuel env ?r s' = follow_pages fuel (listing env r) (lp_next_cursor ?p) l nr_id" for s'
    using Suc.IH [of ?r s'] Suc.prems unfolding c same
    by (simp add: parse_positive_int_query_def)
  then show ?case
    using serve_list_nodes [OF Suc.prems, of s] by (simp add: Let_def case_prod_unfold)
qed

lemma selected_nodes_props:
  assumes "records_inv (cr_records reg)"
  shows "sorted (map nr_id (selected_nodes reg h st)) \<and> distinct (map nr_id (selected_nodes reg h st)) \<and>
    set (selected_nodes reg h st) = build_node ` {rec. registry_lookup reg (ar_hostname rec) = Some rec \<and> node_selected h st rec}"
proof -
  let ?m = "cr_records reg"
  have "map (ar_hostname \<circ> snd) ?m = gkeys ?m"
    using assms by (intro map_cong) (auto simp: records_inv_def)
  then have "distinct (map ar_hostname (registry_all reg))"
    unfolding registry_all_def map_map using records_inv_distinct [OF assms] by (simp only:)
  then have "distinct (map ar_hostname (filter (node_selected h st) (registry_all reg)))"
    by (rule distinct_map_filter)
  moreover have "map nr_id (map build_node xs) = map ar_hostname xs" for xs
    by (simp add: build_node_def Let_def)
  ultimately have "distinct (map nr_id (map build_node (filter (node_selected h st) (registry_all reg))))" by (simp only:)
  then have d: "distinct (map nr_id (selected_nodes reg h st))"
    by (simp only: selected_nodes_def distinct_map set_sort distinct_sort)
  have "rec \<in> set (registry_all reg) \<longleftrightarrow> registry_lookup reg (ar_hostname rec) = Some rec" for rec
  proof
    assume "rec \<in> set (registry_all reg)"
    then obtain k where k: "(k, rec) \<in> set ?m" by (auto simp: registry_all_def)
    with assms have "map_of ?m k = Some rec" by (simp add: records_inv_distinct)
    with records_inv_host [OF assms this] show "registry_lookup reg (ar_hostname rec) = Some rec"
      by (simp add: registry_lookup_def)
  next
    assume "registry_lookup reg (ar_hostname rec) = Some rec"
    then have "(ar_hostname rec, rec) \<in> set ?m" by (simp add: registry_lookup_def map_of_SomeD)
    then show "rec \<in> set (registry_all reg)" by (force simp: registry_all_def)
  qed
  then have "set (selected_nodes reg h st) = build_node ` {rec. registry_lookup reg (ar_hostname rec) = Some rec \<and> node_selected h st rec}"
    by (auto simp: selected_nodes_def)
  with d show ?thesis by (simp add: selected_nodes_def)
qed

text \<open>C16: The node listing is complete: a client with a valid token that follows the cursors of
  \<open>GET /v1/nodes\<close>, with any accepted \<open>limit\<close>, gets exactly the agents of the registry that match
  its filters (no proxies), each once and ordered by id, after at most one request more than there
  are such agents.  The host names are those of a registry in its invariant, none of them empty.\<close>

theorem node_listing_complete:
  assumes "records_inv (cr_records (en_reg (he_exec env)))" and "\<forall>h \<in> set (gkeys (cr_records (en_reg (he_exec env)))). h \<noteq> []"
    and "caller env r \<in> {Some DomainClient, Some DomainAdmin}"
    and "rq_method r = ''GET''" and "rq_path r = ''/v1/nodes''" and "query_get r ''cursor'' = []"
    and "query_get r ''label_selector'' = []" and "parse_positive_int_query r ''limit'' 50 200 = Some l"
    and "nodes = walk_nodes (Suc (length (listing env r))) env r s"
  shows "sorted (map nr_id nodes) \<and> distinct (map nr_id nodes) \<and>
    set nodes = build_node ` {rec. registry_lookup (en_reg (he_exec env)) (ar_hostname rec) = Some rec \<and>
      node_selected (query_get r ''hostname'') (query_get r ''status'') rec}"
proof -
  let ?reg = "en_reg (he_exec env)"
  note props = selected_nodes_props [OF assms(1), of "query_get r ''hostname''" "query_get r ''status''", folded listing_def]
  have ids: "\<forall>x \<in> set (listing env r). nr_id x \<noteq> []"
  proof
    fix x
    assume "x \<in> set (listing env r)"
    with props obtain rec where rec: "registry_lookup ?reg (ar_hostname rec) = Some rec" "x = build_node rec" by auto
    then have "ar_hostname rec \<in> set (gkeys (cr_records ?reg))"
      by (auto simp: registry_lookup_def dest!: map_of_SomeD intro: rev_image_eqI)
    with assms(2) have "ar_hostname rec \<noteq> []" by (rule bspec)
    with rec(2) show "nr_id x \<noteq> []" by (simp add: build_node_def Let_def)
  qed
  have "nodes = follow_pages (Suc (length (listing env r))) (listing env r) [] l nr_id"
    using walk_follows_pages [OF assms(3,4,5,7,8)] assms(6) by (simp only: assms(9))
  also have "\<dots> = listing env r"
    using follow_pages_all [OF _ ids] props parse_limit_bounds [OF assms(8)] by blast
  finally show ?thesis using props by simp
qed

lemma sample_registry: "cr_records (en_reg (he_exec sample_http)) = [(''n1'', sample_agent)]"
  by (simp add: sample_http_def toy_env_def registry_register_def registry_new_def sample_agent_def Let_def)

theorem node_listing_complete_witness:
  "set (walk_nodes (Suc (length (listing sample_http (http_get ''c1'' ''/v1/nodes'')))) sample_http
     (http_get ''c1'' ''/v1/nodes'') sample_service) = {build_node sample_agent}"
proof -
  let ?r = "http_get ''c1'' ''/v1/nodes''"
  have reg: "records_inv (cr_records (en_reg (he_exec sample_http)))"
    "\<forall>h \<in> set (gkeys (cr_records (en_reg (he_exec sample_http)))). h \<noteq> []"
    unfolding sample_registry by (simp_all add: records_inv_def sample_agent_def)
  have q: "query_get ?r k = []" for k by (simp add: query_get_def http_get_def)
  have lim: "parse_positive_int_query ?r ''limit'' 50 200 = Some 50" by (simp add: parse_positive_int_query_def q)
  have sel: "{rec. registry_lookup (en_reg (he_exec sample_http)) (ar_hostname rec) = Some rec \<and> node_selected [] [] rec} = {sample_agent}"
    by (auto simp: registry_lookup_def sample_registry node_selected_def split: if_splits) (auto simp: sample_agent_def)
  have c: "caller sample_http ?r \<in> {Some DomainClient, Some DomainAdmin}" by (simp add: sample_caller)
  have mp: "rq_method ?r = ''GET''" "rq_path ?r = ''/v1/nodes''" by (simp_all add: http_get_def)
  from node_listing_complete [OF reg c mp q q lim refl, of sample_service]
  show ?thesis by (simp only: q sel image_insert image_empty)
qed

section \<open>Actions\<close>

lemma has_prefix_replace:
  "b \<notin> set p \<Longrightarrow> has_prefix (replace_char a b s) p \<Longrightarrow> has_prefix s p"
proof (induction p arbitrary: s)
  case Nil
  then show ?case by (simp add: has_prefix_def)
next
  case (Cons x p)
  then show ?case
    by (cases s) (auto simp: has_prefix_def replace_char_def split: if_splits)
qed

lemma no_lead_replace:
  "\<forall>p \<in> set ps. b \<notin> set p \<Longrightarrow> no_lead ps s \<Longrightarrow> no_lead ps (replace_char a b s)"
  using has_prefix_replace by (fastforce simp: no_lead_def)

lemma no_dot_in_spaces: "\<forall>p \<in> set space_runes. CHR ''.'' \<notin> set p"
  by (simp add: space_runes_def)

lemma trim_space_normalized [simp]: "trim_space (normalize_action a) = normalize_action a"
proof (rule trim_space_id)
  show "no_lead space_runes (normalize_action a)"
    unfolding normalize_action_def by (rule no_lead_replace [OF no_dot_in_spaces trim_space_lead])
  have "rev (normalize_action a) = replace_char (CHR '':'') (CHR ''.'') (rev (trim_space a))"
    by (simp add: normalize_action_def replace_char_def rev_map)
  moreover have "no_lead (map rev space_runes) (replace_char (CHR '':'') (CHR ''.'') (rev (trim_space a)))"
    using no_dot_in_spaces by (intro no_lead_replace trim_space_trail) auto
  ultimately show "no_lead (map rev space_runes) (rev (normalize_action a))" by simp
qed

lemma normalize_action_idem [simp]: "normalize_action (normalize_action a) = normalize_action a"
  by (subst normalize_action_def) (simp add: normalize_action_def [of a, symmetric],
      simp add: normalize_action_def)

lemma builtin_spec_normalized: "builtin_spec_for a = Inr spec \<Longrightarrow> builtin_spec_for (normalize_action a) = Inr spec"
  by (simp add: builtin_spec_for_def Let_def split: if_splits)

lemma builtin_action_nonempty: "builtin_spec_for a = Inr spec \<Longrightarrow> normalize_action a \<noteq> []"
  by (auto simp: builtin_spec_for_def Let_def)

definition node_plan :: "string \<Rightarrow> string \<Rightarrow> params \<Rightarrow> builtin_spec \<Rightarrow> execution_plan" where
  "node_plan node action ps spec = \<lparr>ep_action = normalize_action action, ep_action_type = action_builtin, ep_targets = [node],
     ep_params = ps, ep_timeout_sec = 10, ep_risk_level = bs_risk_level spec, ep_template = None\<rparr>"

lemma direct_plan:
  assumes "builtin_spec_for action = Inr spec" and "allow_risk (id_domain (rm_identity meta)) (bs_risk_level spec) = None"
    and "trim_space node = node" and "node \<noteq> []"
  shows "prepare_plan meta \<lparr>cir_action = normalize_action action, cir_action_type = action_builtin, cir_targets = [node],
      cir_params = GMap ps, cir_timeout_sec = 0, cir_async = False\<rparr> s = Inr (node_plan node action ps spec)"
proof -
  have t: "trim_space action_builtin = action_builtin"
    unfolding action_builtin_def by (rule trim_space_visible) (simp_all add: visible_char_def)
  show ?thesis
    using assms builtin_action_nonempty [OF assms(1)] builtin_spec_normalized [OF assms(1)]
    by (simp add: prepare_plan_def t Let_def to_map_def normalize_timeout_def dedupe_def node_plan_def)
qed

text \<open>The request that the endpoint opens an invocation with, and the id of that invocation.\<close>

definition node_request :: "string \<Rightarrow> string \<Rightarrow> params \<Rightarrow> create_invocation_request" where
  "node_request node action ps = \<lparr>cir_action = normalize_action action, cir_action_type = action_builtin,
     cir_targets = [node], cir_params = GMap ps, cir_timeout_sec = 0, cir_async = False\<rparr>"

definition opened_id :: "request_meta \<Rightarrow> string \<Rightarrow> string \<Rightarrow> params \<Rightarrow> service \<Rightarrow> string" where
  "opened_id meta node action ps s =
     (case fst (open_invocation meta (node_request node action ps) s) of Inl _ \<Rightarrow> [] | Inr (iv, plan) \<Rightarrow> inv_id iv)"

lemma opened_plan:
  assumes "builtin_spec_for action = Inr spec" and "allow_risk (id_domain (rm_identity meta)) (bs_risk_level spec) = None"
    and "trim_space node = node" and "node \<noteq> []"
  shows "\<exists>iv s'. open_invocation meta (node_request node action ps) s = (Inr (iv, node_plan node action ps spec), s') \<and>
    inv_id iv = fst (sv_fresh_id ''inv'' (snd (sv_now (snd (normalize_meta meta s)))))"
proof -
  obtain m s0 where m: "normalize_meta meta s = (m, s0)" by fastforce
  have "rm_identity m = rm_identity meta" using normalize_meta_identity [of meta s] m by simp
  with assms(2) have "allow_risk (id_domain (rm_identity m)) (bs_risk_level spec) = None" by simp
  note plan = direct_plan [OF assms(1) this assms(3,4), of ps s0, folded node_request_def]
  show ?thesis
    using plan m by (simp add: open_invocation_def Let_def case_prod_unfold new_invocation_def)
qed

lemma opened_id_fresh:
  assumes "builtin_spec_for action = Inr spec" and "allow_risk (id_domain (rm_identity meta)) (bs_risk_level spec) = None"
    and "trim_space node = node" and "node \<noteq> []"
  shows "opened_id meta node action ps s = fst (sv_fresh_id ''inv'' (snd (sv_now (snd (normalize_meta meta s)))))"
  using opened_plan [OF assms, of ps s] by (auto simp: opened_id_def)

lemma direct_outcome:
  assumes "builtin_spec_for action = Inr spec" and "allow_risk (id_domain (rm_identity meta)) (bs_risk_level spec) = None"
    and "trim_space node = node" and "node \<noteq> []"
  shows "\<exists>iv s'. direct env meta node action ps s =
    (Inr (iv, Some (run_target env (opened_id meta node action ps s) (node_plan node action ps spec) node)), s')"
proof -
  obtain iv s1 where o1: "open_invocation meta (node_request node action ps) s = (Inr (iv, node_plan node action ps spec), s1)"
    using opened_plan [OF assms, of ps s] by blast
  then have "opened_id meta node action ps s = inv_id iv" by (simp add: opened_id_def)
  then show ?thesis
    by (auto simp: direct_def direct_invoke_builtin_def create_invocation_sync_def o1 Let_def case_prod_unfold
        finish_invocation_def sort_results_def node_plan_def simp flip: node_request_def)
qed

definition error_code :: "http_body \<Rightarrow> string option" where
  "error_code b = (case b of BodyError e \<Rightarrow> Some (er_api_code e) | _ \<Rightarrow> None)"

text \<open>What becomes of an action on a node, from the endpoint through the admin service, the
  registry and the router and back, for a caller who may run the action on a center without
  peers: an unknown host or a proxy is 404 \<open>NODE_NOT_FOUND\<close>, a silent agent is 503
  \<open>NODE_OFFLINE\<close>, the result of an online agent comes back as 200 with the transformation of
  the action applied, and an error of the call with the code and the status of its class.  The request
  id of the call is the id of the invocation that was opened for it.\<close>

theorem action_outcome_reaches_client:
  assumes "builtin_spec_for action = Inr spec" and "allow_risk (id_domain (rm_identity meta)) (bs_risk_level spec) = None"
    and "trim_space node = node" and "node \<noteq> []"
    and "decode_json_map env r = Inr ps" and "en_forward (he_exec env) = None"
    and "handle_action env r meta node action s = (res, s')"
    and "bs_marshal spec (en_marshal (he_exec env)) ps = (tool, args)"
  shows "case registry_lookup (en_reg (he_exec env)) node of
      None \<Rightarrow> hs_status res = 404 \<and> error_code (hs_body res) = Some ''NODE_NOT_FOUND''
    | Some rec \<Rightarrow>
        if ar_node_type rec \<noteq> ''agent'' then hs_status res = 404 \<and> error_code (hs_body res) = Some ''NODE_NOT_FOUND''
        else if ar_status rec \<noteq> StatusOnline then hs_status res = 503 \<and> error_code (hs_body res) = Some ''NODE_OFFLINE''
        else (case en_send (he_exec env) rec (opened_id meta node action ps s) tool args of
            Inr json \<Rightarrow> hs_status res = 200 \<and> hs_body res = BodyData (bs_transform spec (decode_result (he_exec env) json))
          | Inl e \<Rightarrow> (let code = ie_code (classify_invoke_error node e) in
              hs_status res = invocation_error_status code \<and> error_code (hs_body res) = Some code))"
proof -
  let ?i = "opened_id meta node action ps s"
  obtain iv s1 where d: "direct env meta node action ps s =
      (Inr (iv, Some (run_target env ?i (node_plan node action ps spec) node)), s1)"
    using direct_outcome [OF assms(1-4), of env ps s] by blast
  let ?plan = "node_plan node action ps spec"
  let ?x = "run_target env ?i ?plan node"
  let ?out = "fst (invoke_tool (he_exec env) ?i node tool args)"
  have res: "(res, s') = answer_direct (rm_request_id meta) id (Inr (iv, Some ?x), s1)"
    using assms(5,7) d by (simp add: handle_action_def)
  have b: "fst (execute_builtin (he_exec env) ?i node ?plan) =
      (case ?out of Inl e \<Rightarrow> Inl (classify_invoke_error node e) | Inr v \<Rightarrow> Inr (bs_transform spec v))"
    using builtin_spec_normalized [OF assms(1)] assms(8) by (simp add: execute_builtin_def node_plan_def case_prod_unfold split: sum.split)
  have ok: "hs_status res = 200 \<and> hs_body res = BodyData (bs_transform spec v)" if "?out = Inr v" for v
    using res b that
    by (simp add: answer_direct_def run_target_def execute_target_def case_prod_unfold Let_def write_json_def node_plan_def)
  have bad: "hs_status res = invocation_error_status (ie_code (classify_invoke_error node e)) \<and>
      error_code (hs_body res) = Some (ie_code (classify_invoke_error node e))" if "?out = Inl e" for e
    using res b that
    by (simp add: answer_direct_def run_target_def execute_target_def case_prod_unfold Let_def responses node_plan_def error_code_def)
  have nf: "ie_code (classify_invoke_error node err_node_not_found) = ''NODE_NOT_FOUND''"
    and off: "ie_code (classify_invoke_error node err_node_offline) = ''NODE_OFFLINE''"
    by (simp_all add: classify_invoke_error_def err_node_not_found_def err_node_offline_def inv_err_def Let_def)
  show ?thesis
  proof (cases "registry_lookup (en_reg (he_exec env)) node")
    case None
    with assms(6) have "?out = Inl err_node_not_found" by (simp add: invoke_tool_def)
    from bad [OF this] None show ?thesis by (simp add: nf invocation_error_status_def)
  next
    case (Some rec)
    show ?thesis
    proof (cases "ar_node_type rec = ''agent'' \<and> ar_status rec = StatusOnline")
      case False
      show ?thesis
      proof (cases "ar_node_type rec = ''agent''")
        case True
        with Some False have "?out = Inl err_node_offline" by (simp add: invoke_tool_def)
        from bad [OF this] Some True False show ?thesis by (simp add: off invocation_error_status_def)
      next
        case False
        with Some have "?out = Inl err_node_not_found" by (simp add: invoke_tool_def)
        from bad [OF this] Some False show ?thesis by (simp add: nf invocation_error_status_def)
      qed
    next
      case True
      show ?thesis
      proof (cases "en_send (he_exec env) rec ?i tool args")
        case (Inl e)
        with Some True have "?out = Inl e" by (simp add: invoke_tool_def)
        from bad [OF this] Some True Inl show ?thesis by (simp add: Let_def)
      next
        case (Inr json)
        with Some True have "?out = Inr (decode_result (he_exec env) json)" by (simp add: invoke_tool_def)
        from ok [OF this] Some True Inr show ?thesis by simp
      qed
    qed
  qed
qed

theorem action_outcome_reaches_client_witness:
  "error_code (hs_body (fst (handle_action sample_http (http_get ''c1'' []) client_meta ''n2'' ''sys:info'' sample_service))) =
     Some ''NODE_NOT_FOUND''"
proof -
  obtain spec where spec: "builtin_spec_for ''sys:info'' = Inr spec" "bs_risk_level spec = risk_readonly"
  proof -
    have "map_sum se_code bs_risk_level (builtin_spec_for ''sys:info'') = Inr risk_readonly" by code_simp
    then show ?thesis using that by (cases "builtin_spec_for ''sys:info''") simp_all
  qed
  obtain tool args where m: "bs_marshal spec (en_marshal (he_exec sample_http)) [] = (tool, args)" by fastforce
  obtain res s' where h: "handle_action sample_http (http_get ''c1'' []) client_meta ''n2'' ''sys:info'' sample_service = (res, s')"
    by fastforce
  have "trim_space ''n2'' = ''n2''" by (rule trim_space_visible) (simp_all add: visible_char_def)
  moreover have "allow_risk (id_domain (rm_identity client_meta)) (bs_risk_level spec) = None"
    by (simp add: spec(2) allow_risk_def risk_defs)
  moreover have "decode_json_map sample_http (http_get ''c1'' []) = Inr []" by (simp add: decode_json_map_def http_get_def)
  moreover have "en_forward (he_exec sample_http) = None" by (simp add: sample_http_def toy_env_def)
  moreover have "registry_lookup (en_reg (he_exec sample_http)) ''n2'' = None"
    by (simp add: registry_lookup_def sample_registry)
  ultimately show ?thesis
    using action_outcome_reaches_client [OF spec(1) _ _ _ _ _ h m] by (simp add: h)
qed

end
