(* ===== verification/Go_Flags.thy ===== *)
theory Go_Flags
  imports Go_Strings
begin

text \<open>
  Go's \<open>flag\<close> package as the command line client uses it: a \<open>FlagSet\<close> with string, int and bool
  flags and \<open>ContinueOnError\<close>.  \<open>strconv.ParseInt(s, 0, 64)\<close> is a parameter.
\<close>

datatype flag_val = FvStr string | FvInt int | FvBool bool

type_synonym flags = "(string, flag_val) gomap"

datatype 'a parsed = Parsed 'a | HelpAsked | FlagErr string

definition parse_bool :: "string \<Rightarrow> bool option" where
  "parse_bool s =
     (if s \<in> set [''1'', ''t'', ''T'', ''TRUE'', ''true'', ''True''] then Some True
      else if s \<in> set [''0'', ''f'', ''F'', ''FALSE'', ''false'', ''False''] then Some False
      else None)"

text \<open>\<open>Value.Set\<close> of a flag that has the kind of \<open>old\<close>.\<close>

definition set_flag :: "(string \<Rightarrow> int go_result) \<Rightarrow> flag_val \<Rightarrow> string \<Rightarrow> flag_val go_result" where
  "set_flag parse_int old v =
     (case old of
        FvStr _ \<Rightarrow> Inr (FvStr v)
      | FvInt _ \<Rightarrow> (case parse_int v of Inl e \<Rightarrow> Inl e | Inr n \<Rightarrow> Inr (FvInt n))
      | FvBool _ \<Rightarrow> (case parse_bool v of None \<Rightarrow> Inl ''parse error'' | Some b \<Rightarrow> Inr (FvBool b)))"

text \<open>\<open>name=value\<close>; the name has at least one byte.\<close>

definition cut_equals :: "string \<Rightarrow> string \<times> string option" where
  "cut_equals s =
     (case s of
        [] \<Rightarrow> ([], None)
      | c # cs \<Rightarrow>
          (case dropWhile (\<lambda>x. x \<noteq> CHR ''='') cs of
             [] \<Rightarrow> (s, None)
           | _ # v \<Rightarrow> (c # takeWhile (\<lambda>x. x \<noteq> CHR ''='') cs, Some v)))"

definition is_flag :: "string \<Rightarrow> bool" where
  "is_flag s \<longleftrightarrow> length s \<ge> 2 \<and> hd s = CHR ''-''"

definition flag_body :: "string \<Rightarrow> string" where
  "flag_body s = (if s ! 1 = CHR ''-'' then drop 2 s else drop 1 s)"

definition bad_value :: "string \<Rightarrow> string \<Rightarrow> string \<Rightarrow> string" where
  "bad_value v name e = ''invalid value '' @ go_quote v @ '' for flag -'' @ name @ '': '' @ e"

text \<open>\<open>Parse\<close>: flags up to the first argument that is none, or \<open>--\<close>; what is left are the arguments.\<close>

fun parse_flags :: "(string \<Rightarrow> int go_result) \<Rightarrow> flags \<Rightarrow> string list \<Rightarrow> (flags \<times> string list) parsed" where
  "parse_flags parse_int fl [] = Parsed (fl, [])"
| "parse_flags parse_int fl (s # rest) =
     (if \<not> is_flag s then Parsed (fl, s # rest)
      else if s = ''--'' then Parsed (fl, rest)
      else let body = flag_body s in
      if body = [] \<or> hd body = CHR ''-'' \<or> hd body = CHR ''='' then FlagErr (''bad flag syntax: '' @ s)
      else let (name, val) = cut_equals body in
      case map_of fl name of
        None \<Rightarrow> (if name = ''help'' \<or> name = ''h'' then HelpAsked
                 else FlagErr (''flag provided but not defined: -'' @ name))
      | Some old \<Rightarrow>
          (case old of
             FvBool _ \<Rightarrow>
               (case val of
                  None \<Rightarrow> parse_flags parse_int (gupd name (FvBool True) fl) rest
                | Some v \<Rightarrow>
                    (case parse_bool v of
                       None \<Rightarrow> FlagErr (''invalid boolean value '' @ go_quote v @ '' for -'' @ name @ '': parse error'')
                     | Some b \<Rightarrow> parse_flags parse_int (gupd name (FvBool b) fl) rest))
           | _ \<Rightarrow>
               (case val of
                  Some v \<Rightarrow> (case set_flag parse_int old v of
                     Inl e \<Rightarrow> FlagErr (bad_value v name e)
                   | Inr x \<Rightarrow> parse_flags parse_int (gupd name x fl) rest)
                | None \<Rightarrow>
                    (case rest of
                       [] \<Rightarrow> FlagErr (''flag needs an argument: -'' @ name)
                     | v # rest' \<Rightarrow> (case set_flag parse_int old v of
                          Inl e \<Rightarrow> FlagErr (bad_value v name e)
                        | Inr x \<Rightarrow> parse_flags parse_int (gupd name x fl) rest')))))"

definition fl_str :: "flags \<Rightarrow> string \<Rightarrow> string" where
  "fl_str fl name = (case map_of fl name of Some (FvStr s) \<Rightarrow> s | _ \<Rightarrow> [])"

definition fl_int :: "flags \<Rightarrow> string \<Rightarrow> int" where
  "fl_int fl name = (case map_of fl name of Some (FvInt n) \<Rightarrow> n | _ \<Rightarrow> 0)"

definition fl_bool :: "flags \<Rightarrow> string \<Rightarrow> bool" where
  "fl_bool fl name = (case map_of fl name of Some (FvBool b) \<Rightarrow> b | _ \<Rightarrow> False)"

end
