(* ===== verification/Go_Json.thy ===== *)
theory Go_Json
  imports Go_Any
begin

text \<open>
  \<open>encoding/json\<close> between decoded values and structs.  Bytes become a value and a value bytes in the
  codec, which is a parameter of the model; here a struct takes from an object what it has fields for.
  A key belongs to the field of that name in any capitalisation, the exact one first; \<open>null\<close> and a missing
  key leave the zero value; a value of another type is an error, whose text is abbreviated.  (Of an object
  that repeats a key in different capitalisations Go would read all, in their order.)
\<close>

section \<open>Fields\<close>

text \<open>\<open>if err != nil { return err }\<close> between two steps.\<close>

definition go_bind :: "'a go_result \<Rightarrow> ('a \<Rightarrow> 'b go_result) \<Rightarrow> 'b go_result" where
  "go_bind r f = (case r of Inl e \<Rightarrow> Inl e | Inr x \<Rightarrow> f x)"

lemma go_bind_simps [simp]: "go_bind (Inl e) f = Inl e" "go_bind (Inr x) f = f x"
  by (simp_all add: go_bind_def)

lemma go_bind_Inr: "go_bind r f = Inr y \<longleftrightarrow> (\<exists>x. r = Inr x \<and> f x = Inr y)"
  by (cases r) simp_all

definition type_error :: "string \<Rightarrow> string" where
  "type_error what = ''json: cannot unmarshal into Go value of type '' @ what"

definition struct_fields :: "gany \<Rightarrow> params go_result" where
  "struct_fields v = (case v of GNil \<Rightarrow> Inr [] | GMap m \<Rightarrow> Inr m | _ \<Rightarrow> Inl (type_error ''struct''))"

definition json_field :: "params \<Rightarrow> string \<Rightarrow> gany" where
  "json_field m name = (case map_of m name of
     Some v \<Rightarrow> v
   | None \<Rightarrow> (case find (\<lambda>(k, v). to_lower k = name) m of Some (k, v) \<Rightarrow> v | None \<Rightarrow> GNil))"

definition string_field :: "params \<Rightarrow> string \<Rightarrow> string go_result" where
  "string_field m name = (case json_field m name of
     GNil \<Rightarrow> Inr [] | GStr s \<Rightarrow> Inr s | _ \<Rightarrow> Inl (type_error ''string''))"

definition object_field :: "params \<Rightarrow> string \<Rightarrow> gany go_result" where
  "object_field m name = (case json_field m name of
     GNil \<Rightarrow> Inr GNil | GMap x \<Rightarrow> Inr (GMap x) | _ \<Rightarrow> Inl (type_error ''map[string]interface {}''))"

text \<open>A slice, \<open>None\<close> for the nil one.\<close>

definition slice_field :: "params \<Rightarrow> string \<Rightarrow> gany list option go_result" where
  "slice_field m name = (case json_field m name of
     GNil \<Rightarrow> Inr None | GArr xs \<Rightarrow> Inr (Some xs) | _ \<Rightarrow> Inl (type_error ''slice''))"

fun decode_each :: "('a \<Rightarrow> 'b go_result) \<Rightarrow> 'a list \<Rightarrow> 'b list go_result" where
  "decode_each dec [] = Inr []"
| "decode_each dec (x # xs) =
     (case dec x of Inl e \<Rightarrow> Inl e
      | Inr y \<Rightarrow> (case decode_each dec xs of Inl e \<Rightarrow> Inl e | Inr ys \<Rightarrow> Inr (y # ys)))"

lemma decode_each_map: "(\<And>x. x \<in> set xs \<Longrightarrow> dec (enc x) = Inr (f x)) \<Longrightarrow> decode_each dec (map enc xs) = Inr (map f xs)"
  by (induction xs) simp_all

lemma decode_each_length: "decode_each dec xs = Inr ys \<Longrightarrow> length ys = length xs"
  by (induction xs arbitrary: ys) (auto split: sum.splits)

definition bool_field :: "params \<Rightarrow> string \<Rightarrow> bool go_result" where
  "bool_field m name = (case json_field m name of
     GNil \<Rightarrow> Inr False | GBool b \<Rightarrow> Inr b | _ \<Rightarrow> Inl (type_error ''bool''))"

definition int_field :: "params \<Rightarrow> string \<Rightarrow> int go_result" where
  "int_field m name = (case json_field m name of
     GNil \<Rightarrow> Inr 0
   | GNum x \<Rightarrow> if x = of_int \<lfloor>x\<rfloor> \<and> in_int64 \<lfloor>x\<rfloor> then Inr \<lfloor>x\<rfloor> else Inl (type_error ''int'')
   | _ \<Rightarrow> Inl (type_error ''int''))"

text \<open>An element of a slice of strings; \<open>null\<close> is the empty string.\<close>

definition string_elem :: "gany \<Rightarrow> string go_result" where
  "string_elem v = (case v of GNil \<Rightarrow> Inr [] | GStr s \<Rightarrow> Inr s | _ \<Rightarrow> Inl (type_error ''string''))"

definition strings_field :: "params \<Rightarrow> string \<Rightarrow> string list option go_result" where
  "strings_field m name =
     (case slice_field m name of
        Inl e \<Rightarrow> Inl e
      | Inr None \<Rightarrow> Inr None
      | Inr (Some xs) \<Rightarrow> (case decode_each string_elem xs of Inl e \<Rightarrow> Inl e | Inr ss \<Rightarrow> Inr (Some ss)))"

text \<open>A pointer field: nil when the key is missing or \<open>null\<close>.\<close>

definition ptr_field :: "(params \<Rightarrow> string \<Rightarrow> 'a go_result) \<Rightarrow> params \<Rightarrow> string \<Rightarrow> 'a option go_result" where
  "ptr_field get m name =
     (if json_field m name = GNil then Inr None else (case get m name of Inl e \<Rightarrow> Inl e | Inr x \<Rightarrow> Inr (Some x)))"

text \<open>A field of type \<open>map[string]any\<close>, \<open>None\<close> for the nil map.\<close>

definition map_field :: "params \<Rightarrow> string \<Rightarrow> params option go_result" where
  "map_field m name = (case json_field m name of
     GNil \<Rightarrow> Inr None | GMap x \<Rightarrow> Inr (Some x) | _ \<Rightarrow> Inl (type_error ''map[string]interface {}''))"

text \<open>A nil slice or map where the difference from an empty one is not seen.\<close>

definition or_nil :: "'a list option \<Rightarrow> 'a list" where
  "or_nil xs = (case xs of None \<Rightarrow> [] | Some ys \<Rightarrow> ys)"

lemma or_nil_simps [simp]: "or_nil None = []" "or_nil (Some xs) = xs"
  by (simp_all add: or_nil_def)

text \<open>\<open>DisallowUnknownFields\<close>: every key must belong to a field.\<close>

definition known_fields :: "string list \<Rightarrow> gany \<Rightarrow> params go_result" where
  "known_fields names v =
     (case struct_fields v of
        Inl e \<Rightarrow> Inl e
      | Inr m \<Rightarrow> (case find (\<lambda>(k, v). to_lower k \<notin> set names) m of
            Some (k, v) \<Rightarrow> Inl (''json: unknown field '' @ go_quote k)
          | None \<Rightarrow> Inr m))"

lemma strings_field_map [simp]:
  "json_field m name = GArr (map GStr ss) \<Longrightarrow> strings_field m name = Inr (Some ss)"
  by (simp add: strings_field_def slice_field_def decode_each_map [where f = id, simplified] string_elem_def)

section \<open>Encoding\<close>

text \<open>A field with \<open>omitempty\<close>.\<close>

definition omit_empty :: "bool \<Rightarrow> string \<Rightarrow> gany \<Rightarrow> params" where
  "omit_empty no_value k v = (if no_value then [] else [(k, v)])"

definition json_int :: "int \<Rightarrow> gany" where "json_int n = GNum (of_int n)"

text \<open>A slice of strings that was copied by \<open>append([]string(nil), ...)\<close>, as all slices in answers are: the
  copy of an empty one is nil, and nil is written as \<open>null\<close>.\<close>

definition json_strings :: "string list \<Rightarrow> gany" where
  "json_strings ss = (if ss = [] then GNil else GArr (map GStr ss))"

definition json_option :: "('a \<Rightarrow> gany) \<Rightarrow> 'a option \<Rightarrow> gany" where
  "json_option enc x = (case x of None \<Rightarrow> GNil | Some y \<Rightarrow> enc y)"

end
