(* ===== verification/Cli_Json.thy ===== *)
theory Cli_Json
  imports Go_Json
begin

text \<open>
  How the client reads an answer: the structs of \<open>sysplane-cli/cli.go\<close> that a JSON value is decoded into.
  Turning the bytes of a body into a value is \<open>encoding/json\<close> and a parameter of \<open>Cli\<close>; here a value is
  given (\<open>Go_Json\<close> says how a struct takes its fields from it).
\<close>

section \<open>The structs\<close>

text \<open>\<open>apiErrorEnvelope\<close>: code, message and request id.\<close>

definition error_envelope :: "gany \<Rightarrow> (string \<times> string \<times> string) go_result" where
  "error_envelope v =
     go_bind (struct_fields v) (\<lambda>outer.
      go_bind (struct_fields (json_field outer ''error'')) (\<lambda>m.
      go_bind (string_field m ''code'') (\<lambda>code.
      go_bind (string_field m ''message'') (\<lambda>message.
      go_bind (string_field m ''request_id'') (\<lambda>rid. Inr (code, message, rid))))))"

text \<open>\<open>templateRef\<close> (id and name) and \<open>listPage[templateRef]\<close>, of which only the items are read.\<close>

definition template_ref :: "gany \<Rightarrow> (string \<times> string) go_result" where
  "template_ref v =
     go_bind (struct_fields v) (\<lambda>m.
      go_bind (string_field m ''id'') (\<lambda>i.
      go_bind (string_field m ''name'') (\<lambda>name. Inr (i, name))))"

definition template_page :: "gany \<Rightarrow> (string \<times> string) list go_result" where
  "template_page v =
     go_bind (struct_fields v) (\<lambda>m.
      go_bind (slice_field m ''items'') (\<lambda>items.
      go_bind (string_field m ''next_cursor'') (\<lambda>cursor.
      decode_each template_ref (or_nil items))))"

text \<open>\<open>invocationResponse\<close>, as the value that is encoded again when it is printed: of a result only
  \<open>data\<close> and \<open>error\<close> are kept.\<close>

definition result_view :: "gany \<Rightarrow> gany go_result" where
  "result_view v =
     go_bind (struct_fields v) (\<lambda>m.
      go_bind (object_field m ''data'') (\<lambda>d.
      Inr (GMap [(''data'', d), (''error'', json_field m ''error'')])))"

definition invocation_view :: "gany \<Rightarrow> gany go_result" where
  "invocation_view v =
     go_bind (struct_fields v) (\<lambda>m.
      go_bind (object_field m ''invocation'') (\<lambda>iv.
      go_bind (slice_field m ''results'') (\<lambda>rs.
      go_bind (decode_each result_view (or_nil rs)) (\<lambda>out.
      Inr (GMap [(''invocation'', iv), (''results'', case rs of None \<Rightarrow> GNil | Some _ \<Rightarrow> GArr out)])))))"

end
