(* ===== verification/Cli.thy ===== *)
theory Cli
  imports Go_Flags Go_Any Http_Lib Cli_Json
begin

text \<open>
  \<open>internal/sysplane-cli/cli.go\<close>: the command line client.  A run is a function of the arguments
  and its environment: the process environment, the files it may read, JSON, and the server, which
  answers each request.  It gives the requests sent, in order, and what becomes of the run: an
  error, a printed value, or the usage text.  A query is kept as its list of parameters
  (\<open>url.Values.Encode\<close> and the server's parsing undo each other), a body as the value encoded.
\<close>

section \<open>Environment\<close>

record cli_request =
  cq_method :: string
  cq_base :: string
  cq_path :: string
  cq_query :: "(string, string) gomap"
  cq_token :: string
  cq_request_id :: string
  cq_body :: "gany option"

datatype cli_reply = TransportErr string | CliReply int string string

text \<open>\<open>ce_decode_any\<close> is the JSON value a body begins with, \<open>ce_unread\<close> what the decoder leaves of it (it
  reads ahead, so of a short body nothing is left).\<close>

record cli_env =
  ce_getenv :: "string \<Rightarrow> string"
  ce_parse_int :: "string \<Rightarrow> int go_result"
  ce_read_file :: "string \<Rightarrow> string go_result"
  ce_uuid :: string
  ce_build_err :: "string \<Rightarrow> string \<Rightarrow> string option"
  ce_server :: "cli_request \<Rightarrow> cli_reply"
  ce_unmarshal :: "string \<Rightarrow> gany go_result"
  ce_decode_any :: "string \<Rightarrow> gany go_result"
  ce_unread :: "string \<Rightarrow> string"

record app =
  app_base_url :: string
  app_token :: string

datatype cli_out = CliErr string | CliPrint gany | CliUsage | CliUsageErr string

type_synonym cli_run = "cli_request list \<times> cli_out"

definition fail_run :: "string \<Rightarrow> cli_run" where
  "fail_run e = ([], CliErr e)"

section \<open>Helpers\<close>

fun first_non_empty :: "string list \<Rightarrow> string" where
  "first_non_empty [] = []"
| "first_non_empty (v # vs) = (if trim_space v \<noteq> [] then v else first_non_empty vs)"

definition normalize_action_name :: "string \<Rightarrow> string" where
  "normalize_action_name raw = replace_char (CHR '':'') (CHR ''.'') (trim_space raw)"

definition is_builtin_action :: "string \<Rightarrow> bool" where
  "is_builtin_action action \<longleftrightarrow> normalize_action_name action \<in>
     set [''fs.list'', ''fs.read'', ''fs.stat'', ''fs.write'', ''sys.info'', ''sys.hardware'']"

definition split_csv :: "string \<Rightarrow> string list" where
  "split_csv raw = filter (\<lambda>p. p \<noteq> []) (map trim_space (split_char (CHR '','') raw))"

definition target_node_list :: "string \<Rightarrow> string \<Rightarrow> string list" where
  "target_node_list single multi =
     (let out = split_csv multi in if trim_space single \<noteq> [] then trim_space single # out else out)"

definition read_text_source :: "cli_env \<Rightarrow> string \<Rightarrow> string \<Rightarrow> string go_result" where
  "read_text_source env data path =
     (if data \<noteq> [] \<and> path \<noteq> [] then Inl ''use either inline JSON or --file/--params-file''
      else if path = [] then Inr data
      else ce_read_file env (path_clean path))"

definition resolve_json_body :: "cli_env \<Rightarrow> string \<Rightarrow> string \<Rightarrow> gany go_result" where
  "resolve_json_body env data path =
     (case read_text_source env data path of
        Inl e \<Rightarrow> Inl e
      | Inr raw \<Rightarrow> if trim_space raw = [] then Inl ''JSON body is required'' else ce_unmarshal env raw)"

text \<open>Decoding into a \<open>map[string]any\<close>: an object, or \<open>null\<close> for the nil map.\<close>

definition resolve_json_object :: "cli_env \<Rightarrow> string \<Rightarrow> string \<Rightarrow> params go_result" where
  "resolve_json_object env data path =
     (case read_text_source env data path of
        Inl e \<Rightarrow> Inl e
      | Inr raw \<Rightarrow>
          if trim_space raw = [] then Inr []
          else (case ce_unmarshal env raw of
                  Inl e \<Rightarrow> Inl e
                | Inr GNil \<Rightarrow> Inr []
                | Inr (GMap m) \<Rightarrow> Inr m
                | Inr v \<Rightarrow> Inl ''json: cannot unmarshal into Go value of type map[string]interface {}''))"

section \<open>Requests\<close>

text \<open>\<open>Decode\<close> into a struct.\<close>

definition decode_into :: "cli_env \<Rightarrow> (gany \<Rightarrow> 'a go_result) \<Rightarrow> string \<Rightarrow> 'a go_result" where
  "decode_into env struct text = (case ce_decode_any env text of Inl e \<Rightarrow> Inl e | Inr v \<Rightarrow> struct v)"

definition make_request :: "cli_env \<Rightarrow> app \<Rightarrow> string \<Rightarrow> string \<Rightarrow> (string, string) gomap \<Rightarrow> gany option \<Rightarrow> cli_request" where
  "make_request env app meth path query body = \<lparr>cq_method = meth, cq_base = app_base_url app, cq_path = path,
     cq_query = query, cq_token = app_token app, cq_request_id = ''cli-'' @ ce_uuid env, cq_body = body\<rparr>"

text \<open>\<open>request\<close>, up to the decoding of a successful answer.  A body of \<open>nil\<close> is sent as none.\<close>

definition send_request ::
  "cli_env \<Rightarrow> app \<Rightarrow> string \<Rightarrow> string \<Rightarrow> (string, string) gomap \<Rightarrow> gany option \<Rightarrow> cli_request list \<times> string go_result" where
  "send_request env app meth path query body0 =
     (let body = (if body0 = Some GNil then None else body0); req = make_request env app meth path query body in
      case ce_build_err env meth (app_base_url app @ path) of
        Some e \<Rightarrow> ([], Inl e)
      | None \<Rightarrow>
          ([req],
           case ce_server env req of
             TransportErr e \<Rightarrow> Inl e
           | CliReply code st text \<Rightarrow>
               if code < 200 \<or> code \<ge> 300 then
                 (let plain = Inl (''http '' @ st @ '': '' @ trim_space (ce_unread env text)) in
                  case decode_into env error_envelope text of
                    Inl _ \<Rightarrow> plain
                  | Inr (c, msg, rid) \<Rightarrow>
                      if c \<noteq> [] then Inl (c @ '': '' @ msg @ '' (request_id='' @ rid @ '')'') else plain)
               else Inr text))"

definition finish_run :: "(string \<Rightarrow> gany go_result) \<Rightarrow> cli_request list \<times> string go_result \<Rightarrow> cli_run" where
  "finish_run decode r =
     (case snd r of
        Inl e \<Rightarrow> (fst r, CliErr e)
      | Inr text \<Rightarrow> (case decode text of Inl e \<Rightarrow> (fst r, CliErr e) | Inr v \<Rightarrow> (fst r, CliPrint v)))"

definition fetch :: "cli_env \<Rightarrow> app \<Rightarrow> string \<Rightarrow> string \<Rightarrow> (string, string) gomap \<Rightarrow> gany option \<Rightarrow> cli_run" where
  "fetch env app meth path query body = finish_run (ce_decode_any env) (send_request env app meth path query body)"

text \<open>Requests sent before the rest of a run.\<close>

definition after :: "cli_request list \<Rightarrow> cli_run \<Rightarrow> cli_run" where
  "after reqs r = (reqs @ fst r, snd r)"

definition resolve_template_ref :: "cli_env \<Rightarrow> app \<Rightarrow> string \<Rightarrow> cli_request list \<times> string" where
  "resolve_template_ref env app ref =
     (let (reqs, res) = send_request env app ''GET'' ''/v1/command-templates'' [(''name'', ref), (''limit'', ''200'')] None in
      (reqs,
       case res of
         Inl e \<Rightarrow> ref
       | Inr text \<Rightarrow>
           (case decode_into env template_page text of
              Inl e \<Rightarrow> ref
            | Inr items \<Rightarrow>
                (case find (\<lambda>(i, name). name = ref \<or> i = ref) items of None \<Rightarrow> ref | Some (i, name) \<Rightarrow> i))))"

definition resolve_command_action ::
  "cli_env \<Rightarrow> app \<Rightarrow> string \<Rightarrow> string \<Rightarrow> cli_request list \<times> (string \<times> string) go_result" where
  "resolve_command_action env app ref requested =
     (let normalized = normalize_action_name ref;
          as_template = (let (reqs, i) = resolve_template_ref env app ref in (reqs, Inr (i, ''command_template''))) in
      if requested = [] \<or> requested = ''auto'' then
        (if is_builtin_action normalized then ([], Inr (normalized, ''builtin'')) else as_template)
      else if requested = ''builtin'' then
        (if \<not> is_builtin_action normalized then ([], Inl (''unsupported builtin action '' @ go_quote ref))
         else ([], Inr (normalized, ''builtin'')))
      else if requested = ''command_template'' then as_template
      else ([], Inl ''action-type must be auto, builtin, or command_template''))"

section \<open>Commands\<close>

definition with_flags :: "cli_env \<Rightarrow> flags \<Rightarrow> string list \<Rightarrow> (flags \<Rightarrow> cli_run) \<Rightarrow> cli_run" where
  "with_flags env defs args k =
     (case parse_flags (ce_parse_int env) defs args of
        Parsed (fl, rest) \<Rightarrow> k fl
      | HelpAsked \<Rightarrow> ([], CliUsage)
      | FlagErr e \<Rightarrow> fail_run e)"

definition q_limit :: "flags \<Rightarrow> (string, string) gomap" where
  "q_limit fl = (if fl_int fl ''limit'' > 0 then [(''limit'', dec_of_int (fl_int fl ''limit''))] else [])"

definition q_opt :: "flags \<Rightarrow> string \<Rightarrow> string \<Rightarrow> (string, string) gomap" where
  "q_opt fl flag key = (if fl_str fl flag \<noteq> [] then [(key, fl_str fl flag)] else [])"

definition run_nodes :: "cli_env \<Rightarrow> app \<Rightarrow> string list \<Rightarrow> cli_run" where
  "run_nodes env app args =
     (case args of
        [] \<Rightarrow> fail_run ''nodes requires a subcommand''
      | sub # rest \<Rightarrow>
          if sub = ''list'' then
            with_flags env [(''limit'', FvInt 50), (''cursor'', FvStr []), (''hostname'', FvStr []), (''status'', FvStr [])] rest
              (\<lambda>fl. fetch env app ''GET'' ''/v1/nodes''
                 (q_limit fl @ q_opt fl ''cursor'' ''cursor'' @ q_opt fl ''hostname'' ''hostname'' @ q_opt fl ''status'' ''status'') None)
          else if sub = ''get'' then
            (case rest of [node] \<Rightarrow> fetch env app ''GET'' (''/v1/nodes/'' @ path_escape node) [] None
             | _ \<Rightarrow> fail_run ''usage: sysplane nodes get <node-id>'')
          else if sub = ''capabilities'' then
            (case rest of [node] \<Rightarrow> fetch env app ''GET'' (''/v1/nodes/'' @ path_escape node @ ''/capabilities'') [] None
             | _ \<Rightarrow> fail_run ''usage: sysplane nodes capabilities <node-id>'')
          else fail_run (''unknown nodes subcommand '' @ go_quote sub))"

definition invocation_flags :: "string \<Rightarrow> flags" where
  "invocation_flags action_type =
     [(''action-type'', FvStr action_type), (''node'', FvStr []), (''nodes'', FvStr []), (''params'', FvStr ''{}''),
      (''params-file'', FvStr []), (''timeout'', FvInt 0), (''async'', FvBool False)]"

definition invocation_payload :: "flags \<Rightarrow> string \<Rightarrow> string \<Rightarrow> params \<Rightarrow> gany" where
  "invocation_payload fl action action_type body =
     GMap ([(''action'', GStr action), (''action_type'', GStr action_type),
        (''targets'', GMap [(''node_ids'', GArr (map GStr (target_node_list (fl_str fl ''node'') (fl_str fl ''nodes''))))]),
        (''params'', GMap body), (''async'', GBool (fl_bool fl ''async''))] @
        (if fl_int fl ''timeout'' > 0 then [(''timeout_sec'', GNum (of_int (fl_int fl ''timeout'')))] else []))"

definition run_commands :: "cli_env \<Rightarrow> app \<Rightarrow> string list \<Rightarrow> cli_run" where
  "run_commands env app args =
     (case args of
        [] \<Rightarrow> fail_run ''commands requires a subcommand''
      | sub # rest \<Rightarrow>
          if sub = ''invoke'' then
            (case rest of
               [] \<Rightarrow> fail_run ''usage: sysplane commands invoke <action-or-template> --node <node-id> [--params '{}']''
             | action # flag_args \<Rightarrow>
                 with_flags env (invocation_flags ''auto'') flag_args (\<lambda>fl.
                   case resolve_json_object env (fl_str fl ''params'') (fl_str fl ''params-file'') of
                     Inl e \<Rightarrow> fail_run e
                   | Inr body \<Rightarrow>
                       (case resolve_command_action env app action (fl_str fl ''action-type'') of
                          (reqs, Inl e) \<Rightarrow> (reqs, CliErr e)
                        | (reqs, Inr (resolved, ty)) \<Rightarrow>
                            after reqs (finish_run (decode_into env invocation_view)
                              (send_request env app ''POST'' ''/v1/invocations'' [] (Some (invocation_payload fl resolved ty body)))))))
          else fail_run (''unknown commands subcommand '' @ go_quote sub))"

definition run_templates :: "cli_env \<Rightarrow> app \<Rightarrow> string list \<Rightarrow> cli_run" where
  "run_templates env app args =
     (case args of
        [] \<Rightarrow> fail_run ''templates requires a subcommand''
      | sub # rest \<Rightarrow>
          if sub = ''list'' then
            with_flags env [(''limit'', FvInt 50), (''name'', FvStr []), (''risk-level'', FvStr []), (''target-os'', FvStr []),
                (''enabled'', FvStr [])] rest
              (\<lambda>fl. fetch env app ''GET'' ''/v1/command-templates''
                 (q_limit fl @ q_opt fl ''name'' ''name'' @ q_opt fl ''risk-level'' ''risk_level'' @
                  q_opt fl ''target-os'' ''target_os'' @ q_opt fl ''enabled'' ''enabled'') None)
          else if sub = ''get'' then
            (case rest of
               [ref] \<Rightarrow> (let (reqs, i) = resolve_template_ref env app ref in
                  after reqs (fetch env app ''GET'' (''/v1/command-templates/'' @ path_escape i) [] None))
             | _ \<Rightarrow> fail_run ''usage: sysplane templates get <template-id-or-name>'')
          else if sub = ''create'' then
            with_flags env [(''file'', FvStr []), (''data'', FvStr [])] rest (\<lambda>fl.
              case resolve_json_body env (fl_str fl ''data'') (fl_str fl ''file'') of
                Inl e \<Rightarrow> fail_run e
              | Inr body \<Rightarrow> fetch env app ''POST'' ''/v1/command-templates'' [] (Some body))
          else if sub = ''update'' then
            (case rest of
               [] \<Rightarrow> fail_run ''usage: sysplane templates update <template-id-or-name> --file patch.json''
             | ref # flag_args \<Rightarrow>
                 (let (reqs, i) = resolve_template_ref env app ref in
                  after reqs (with_flags env [(''file'', FvStr []), (''data'', FvStr [])] flag_args (\<lambda>fl.
                    case resolve_json_body env (fl_str fl ''data'') (fl_str fl ''file'') of
                      Inl e \<Rightarrow> fail_run e
                    | Inr body \<Rightarrow> fetch env app ''PATCH'' (''/v1/command-templates/'' @ path_escape i) [] (Some body)))))
          else fail_run (''unknown templates subcommand '' @ go_quote sub))"

definition run_invocations :: "cli_env \<Rightarrow> app \<Rightarrow> string list \<Rightarrow> cli_run" where
  "run_invocations env app args =
     (case args of
        [] \<Rightarrow> fail_run ''invocations requires a subcommand''
      | sub # rest \<Rightarrow>
          if sub = ''list'' then
            with_flags env [(''limit'', FvInt 50), (''status'', FvStr []), (''action'', FvStr []), (''action-type'', FvStr [])] rest
              (\<lambda>fl. fetch env app ''GET'' ''/v1/invocations''
                 (q_limit fl @ q_opt fl ''status'' ''status'' @ q_opt fl ''action'' ''action'' @ q_opt fl ''action-type'' ''action_type'') None)
          else if sub = ''get'' then
            (case rest of [i] \<Rightarrow> fetch env app ''GET'' (''/v1/invocations/'' @ path_escape i) [] None
             | _ \<Rightarrow> fail_run ''usage: sysplane invocations get <invocation-id>'')
          else if sub = ''results'' then
            (case rest of [i] \<Rightarrow> fetch env app ''GET'' (''/v1/invocations/'' @ path_escape i @ ''/results'') [] None
             | _ \<Rightarrow> fail_run ''usage: sysplane invocations results <invocation-id>'')
          else if sub = ''cancel'' then
            (case rest of [i] \<Rightarrow> fetch env app ''POST'' (''/v1/invocations/'' @ path_escape i @ '':cancel'') [] (Some (GMap []))
             | _ \<Rightarrow> fail_run ''usage: sysplane invocations cancel <invocation-id>'')
          else if sub = ''create'' then
            with_flags env ((''action'', FvStr []) # invocation_flags ''builtin'') rest (\<lambda>fl.
              if fl_str fl ''action'' = [] then fail_run ''action is required''
              else case resolve_json_object env (fl_str fl ''params'') (fl_str fl ''params-file'') of
                Inl e \<Rightarrow> fail_run e
              | Inr body \<Rightarrow>
                  (let (reqs, action) = (if fl_str fl ''action-type'' = ''command_template''
                         then resolve_template_ref env app (fl_str fl ''action'') else ([], fl_str fl ''action'')) in
                   after reqs (fetch env app ''POST'' ''/v1/invocations'' []
                     (Some (invocation_payload fl action (fl_str fl ''action-type'') body)))))
          else fail_run (''unknown invocations subcommand '' @ go_quote sub))"

definition run_audit :: "cli_env \<Rightarrow> app \<Rightarrow> string list \<Rightarrow> cli_run" where
  "run_audit env app args =
     (case args of
        [] \<Rightarrow> fail_run ''audit requires a subcommand''
      | sub # rest \<Rightarrow>
          if sub = ''list'' then
            with_flags env [(''limit'', FvInt 50), (''action'', FvStr []), (''decision'', FvStr []), (''node'', FvStr []),
                (''subject'', FvStr [])] rest
              (\<lambda>fl. fetch env app ''GET'' ''/v1/audit/events''
                 (q_limit fl @ q_opt fl ''action'' ''action'' @ q_opt fl ''decision'' ''decision'' @
                  q_opt fl ''node'' ''node_id'' @ q_opt fl ''subject'' ''subject_id'') None)
          else if sub = ''get'' then
            (case rest of [i] \<Rightarrow> fetch env app ''GET'' (''/v1/audit/events/'' @ path_escape i) [] None
             | _ \<Rightarrow> fail_run ''usage: sysplane audit get <event-id>'')
          else fail_run (''unknown audit subcommand '' @ go_quote sub))"

section \<open>\<open>Run\<close>\<close>

definition trim_right_slash :: "string \<Rightarrow> string" where
  "trim_right_slash s = rev (dropWhile (\<lambda>c. c = slash) (rev s))"

definition root_flags :: "cli_env \<Rightarrow> app \<Rightarrow> flags" where
  "root_flags env app =
     [(''server'', FvStr (trim_space (first_non_empty [app_base_url app, ce_getenv env ''SYSPLANE_SERVER'',
         ce_getenv env ''SYSPLANE_URL'', ''http://127.0.0.1:18880'']))),
      (''token'', FvStr (trim_space (first_non_empty [app_token app, ce_getenv env ''SYSPLANE_TOKEN''])))]"

definition cli_main :: "cli_env \<Rightarrow> app \<Rightarrow> string list \<Rightarrow> cli_run" where
  "cli_main env app0 args =
     (case parse_flags (ce_parse_int env) (root_flags env app0) args of
        HelpAsked \<Rightarrow> ([], CliUsage)
      | FlagErr e \<Rightarrow> fail_run e
      | Parsed (fl, rest) \<Rightarrow>
          (case rest of
             [] \<Rightarrow> ([], CliUsageErr ''missing command'')
           | cmd # cmd_args \<Rightarrow>
               if fl_str fl ''token'' = [] then fail_run ''missing token: use --token or SYSPLANE_TOKEN''
               else let app = \<lparr>app_base_url = trim_right_slash (fl_str fl ''server''), app_token = fl_str fl ''token''\<rparr> in
               if cmd = ''nodes'' then run_nodes env app cmd_args
               else if cmd = ''commands'' then run_commands env app cmd_args
               else if cmd = ''templates'' then run_templates env app cmd_args
               else if cmd = ''invocations'' then run_invocations env app cmd_args
               else if cmd = ''audit'' then run_audit env app cmd_args
               else if cmd \<in> set [''help'', ''-h'', ''--help''] then ([], CliUsage)
               else ([], CliUsageErr (''unknown command '' @ go_quote cmd))))"

section \<open>What is sent\<close>

text \<open>The requests of a run bear the token of the application, go to its server and to the API,
  and there are at most \<open>n\<close> of them.\<close>

definition sends :: "app \<Rightarrow> nat \<Rightarrow> cli_run \<Rightarrow> bool" where
  "sends app n r \<longleftrightarrow> length (fst r) \<le> n \<and>
     (\<forall>q \<in> set (fst r). cq_token q = app_token app \<and> cq_base q = app_base_url app \<and> has_prefix (cq_path q) ''/v1/'')"

lemma sends_nothing [simp]: "sends app n (fail_run e)" "sends app n ([], out)"
  by (simp_all add: sends_def fail_run_def)

lemma send_request_sends:
  "has_prefix path ''/v1/'' \<Longrightarrow> sends app 1 (fst (send_request env app meth path query body), out)"
  by (simp add: sends_def send_request_def make_request_def Let_def split: option.split)

lemma sends_finish: "sends app n (fst r, CliUsage) \<Longrightarrow> sends app n (finish_run dec r)"
  by (auto simp: sends_def finish_run_def split: sum.split)

lemma fetch_sends: "has_prefix path ''/v1/'' \<Longrightarrow> sends app 1 (fetch env app meth path query body)"
  unfolding fetch_def by (rule sends_finish) (rule send_request_sends)

lemma sends_mono: "sends app n r \<Longrightarrow> n \<le> m \<Longrightarrow> sends app m r"
  by (simp add: sends_def)

lemma fetch_sends2: "has_prefix path ''/v1/'' \<Longrightarrow> sends app 2 (fetch env app meth path query body)"
  using fetch_sends sends_mono one_le_numeral by blast

lemma sends_after: "sends app 1 (reqs, out) \<Longrightarrow> sends app 1 r \<Longrightarrow> sends app 2 (after reqs r)"
  by (auto simp: sends_def after_def)

lemma sends_with_flags: "(\<And>fl. sends app n (k fl)) \<Longrightarrow> sends app n (with_flags env defs args k)"
  by (auto simp: with_flags_def split: parsed.split prod.split)

lemma resolve_ref_sends: "resolve_template_ref env app ref = (reqs, i) \<Longrightarrow> sends app 1 (reqs, out)"
  using send_request_sends [of "''/v1/command-templates''" app env "''GET''"]
  by (auto simp: resolve_template_ref_def Let_def case_prod_unfold has_prefix_def)

lemma resolve_action_sends: "resolve_command_action env app ref ty = (reqs, x) \<Longrightarrow> sends app 1 (reqs, out)"
  using resolve_ref_sends [of env app ref]
  by (auto simp: resolve_command_action_def Let_def case_prod_unfold split: if_splits) (metis prod.collapse)+

lemma has_prefix_Cons [simp]:
  "has_prefix (c # s) (d # p) \<longleftrightarrow> c = d \<and> has_prefix s p" "has_prefix s []"
  by (auto simp: has_prefix_def)

lemmas sends_rules = sends_with_flags fetch_sends fetch_sends [unfolded One_nat_def] fetch_sends2

lemma run_nodes_sends: "sends app 2 (run_nodes env app args)"
  by (simp add: run_nodes_def sends_rules split: list.split)

lemma run_audit_sends: "sends app 2 (run_audit env app args)"
  by (simp add: run_audit_def sends_rules split: list.split)

lemma invoke_resolved_sends:
  "sends app 2 (case resolve_command_action env app action ty of
      (reqs, Inl e) \<Rightarrow> (reqs, CliErr e)
    | (reqs, Inr (resolved, t)) \<Rightarrow> after reqs (finish_run dec (send_request env app ''POST'' ''/v1/invocations'' [] (b resolved t))))"
proof -
  obtain reqs x where r: "resolve_command_action env app action ty = (reqs, x)" by fastforce
  note reqs = resolve_action_sends [OF r]
  show ?thesis
  proof (cases x)
    case (Inl e)
    with r sends_mono [OF reqs, of 2] show ?thesis by simp
  next
    case (Inr y)
    have "sends app 1 (finish_run dec (send_request env app ''POST'' ''/v1/invocations'' [] (b (fst y) (snd y))))"
      by (rule sends_finish, rule send_request_sends) simp
    with r Inr sends_after [OF reqs] show ?thesis by (simp add: case_prod_unfold)
  qed
qed

lemma run_commands_sends: "sends app 2 (run_commands env app args)"
  by (simp add: run_commands_def sends_with_flags invoke_resolved_sends split: list.split sum.split)

lemma send_json_sends:
  assumes "has_prefix path ''/v1/''"
  shows "sends app 1 (with_flags env defs rest (\<lambda>fl. case resolve_json_body env (d fl) (f fl) of
      Inl e \<Rightarrow> fail_run e | Inr body \<Rightarrow> fetch env app meth path [] (Some body)))"
proof (rule sends_with_flags)
  fix fl
  show "sends app 1 (case resolve_json_body env (d fl) (f fl) of
      Inl e \<Rightarrow> fail_run e | Inr body \<Rightarrow> fetch env app meth path [] (Some body))"
    using fetch_sends [OF assms] by (cases "resolve_json_body env (d fl) (f fl)") simp_all
qed

lemma after_ref_sends:
  assumes "\<And>i. sends app 1 (k i)"
  shows "sends app 2 (let (reqs, i) = resolve_template_ref env app r in after reqs (k i))"
proof -
  obtain reqs i where "resolve_template_ref env app r = (reqs, i)" by fastforce
  with sends_after [OF resolve_ref_sends [OF this] assms] show ?thesis by simp
qed

lemma run_templates_sends: "sends app 2 (run_templates env app args)"
proof (cases args)
  case (Cons sub rest)
  have get: "sends app 2 (let (reqs, i) = resolve_template_ref env app r in
      after reqs (fetch env app ''GET'' (''/v1/command-templates/'' @ path_escape i) [] None))" for r
    by (rule after_ref_sends, rule fetch_sends) simp
  have upd: "sends app 2 (let (reqs, i) = resolve_template_ref env app r in
      after reqs (with_flags env [(''file'', FvStr []), (''data'', FvStr [])] flag_args (\<lambda>fl.
        case resolve_json_body env (fl_str fl ''data'') (fl_str fl ''file'') of
          Inl e \<Rightarrow> fail_run e
        | Inr body \<Rightarrow> fetch env app ''PATCH'' (''/v1/command-templates/'' @ path_escape i) [] (Some body))))" for r flag_args
    by (rule after_ref_sends, rule send_json_sends) simp
  have create: "sends app 2 (with_flags env defs rest (\<lambda>fl. case resolve_json_body env (fl_str fl ''data'') (fl_str fl ''file'') of
      Inl e \<Rightarrow> fail_run e | Inr body \<Rightarrow> fetch env app ''POST'' ''/v1/command-templates'' [] (Some body)))" for defs
    by (rule sends_mono [OF send_json_sends]) simp_all
  show ?thesis
    unfolding run_templates_def Cons list.case
    using get upd create by (simp add: sends_with_flags fetch_sends2 split: list.split)
qed (simp add: run_templates_def)

lemma create_sends:
  "sends app 2 (let (reqs, i) = (if b then resolve_template_ref env app r else ([], r)) in
      after reqs (fetch env app ''POST'' ''/v1/invocations'' [] (g i)))"
proof (cases b)
  case True
  have "sends app 2 (let (reqs, i) = resolve_template_ref env app r in after reqs (fetch env app ''POST'' ''/v1/invocations'' [] (g i)))"
    by (rule after_ref_sends, rule fetch_sends) simp
  with True show ?thesis by simp
next
  case False
  then show ?thesis using sends_after [OF sends_nothing(2) fetch_sends] by simp
qed

lemma run_invocations_sends: "sends app 2 (run_invocations env app args)"
proof (cases args)
  case (Cons sub rest)
  have create: "sends app 2 (with_flags env defs rest (\<lambda>fl.
      if fl_str fl ''action'' = [] then fail_run ''action is required''
      else case resolve_json_object env (fl_str fl ''params'') (fl_str fl ''params-file'') of
        Inl e \<Rightarrow> fail_run e
      | Inr body \<Rightarrow>
          (let (reqs, action) = (if fl_str fl ''action-type'' = ''command_template''
                 then resolve_template_ref env app (fl_str fl ''action'') else ([], fl_str fl ''action'')) in
           after reqs (fetch env app ''POST'' ''/v1/invocations'' []
             (Some (invocation_payload fl action (fl_str fl ''action-type'') body))))))" for defs
  proof (rule sends_with_flags)
    fix fl
    show "sends app 2 (if fl_str fl ''action'' = [] then fail_run ''action is required''
      else case resolve_json_object env (fl_str fl ''params'') (fl_str fl ''params-file'') of
        Inl e \<Rightarrow> fail_run e
      | Inr body \<Rightarrow>
          (let (reqs, action) = (if fl_str fl ''action-type'' = ''command_template''
                 then resolve_template_ref env app (fl_str fl ''action'') else ([], fl_str fl ''action'')) in
           after reqs (fetch env app ''POST'' ''/v1/invocations'' []
             (Some (invocation_payload fl action (fl_str fl ''action-type'') body)))))"
    proof (cases "resolve_json_object env (fl_str fl ''params'') (fl_str fl ''params-file'')")
      case (Inr body)
      show ?thesis unfolding Inr sum.case
        using create_sends [of app "fl_str fl ''action-type'' = ''command_template''" env "fl_str fl ''action''"
            "\<lambda>i. Some (invocation_payload fl i (fl_str fl ''action-type'') body)"]
        by (simp split: if_split)
    qed simp
  qed
  show ?thesis
    unfolding run_invocations_def Cons list.case
    using create by (simp add: sends_with_flags fetch_sends2 split: list.split)
qed (simp add: run_invocations_def)

text \<open>The client sends nothing without a token: a run makes at most two requests, each to the
  API path of the configured server (its trailing slashes cut) and each with the configured, non-empty
  token; without a token, or when the global flags do not parse, it makes none.\<close>

theorem cli_requests_authenticated:
  assumes "q \<in> set (fst (cli_main env app args))"
  shows "length (fst (cli_main env app args)) \<le> 2 \<and> cq_token q \<noteq> [] \<and> has_prefix (cq_path q) ''/v1/'' \<and>
    (\<exists>fl rest. parse_flags (ce_parse_int env) (root_flags env app) args = Parsed (fl, rest) \<and>
       cq_token q = fl_str fl ''token'' \<and> cq_base q = trim_right_slash (fl_str fl ''server''))"
proof (cases "parse_flags (ce_parse_int env) (root_flags env app) args")
  case (Parsed p)
  obtain fl rest where p: "p = (fl, rest)" by fastforce
  from assms Parsed p obtain cmd cmd_args where rest: "rest = cmd # cmd_args" and tok: "fl_str fl ''token'' \<noteq> []"
    by (cases rest) (auto simp: cli_main_def fail_run_def split: if_splits)
  let ?app = "\<lparr>app_base_url = trim_right_slash (fl_str fl ''server''), app_token = fl_str fl ''token''\<rparr>"
  have "sends ?app 2 (cli_main env app args)"
    using Parsed p rest tok run_nodes_sends run_commands_sends run_templates_sends run_invocations_sends run_audit_sends
    by (simp add: cli_main_def Let_def)
  with assms tok Parsed p show ?thesis by (auto simp: sends_def)
qed (use assms in \<open>simp_all add: cli_main_def fail_run_def\<close>)

section \<open>An example\<close>

definition sample_cli :: cli_env where
  "sample_cli = \<lparr>ce_getenv = (\<lambda>k. if k = ''SYSPLANE_TOKEN'' then ''c1'' else []), ce_parse_int = (\<lambda>_. Inl ''parse error''),
     ce_read_file = (\<lambda>_. Inr ''{}''), ce_uuid = ''u'', ce_build_err = (\<lambda>_ _. None), ce_server = (\<lambda>_. CliReply 200 ''200 OK'' ''{}''),
     ce_unmarshal = (\<lambda>_. Inr (GMap [])), ce_decode_any = (\<lambda>_. Inr (GMap [])), ce_unread = (\<lambda>_. [])\<rparr>"

definition fresh_app :: app where
  "fresh_app = \<lparr>app_base_url = [], app_token = []\<rparr>"

lemma sample_cli_run:
  "map (\<lambda>q. (cq_base q, cq_path q)) (fst (cli_main sample_cli fresh_app [''--server=http://c/'', ''nodes'', ''get'', ''a/b'']))
     = [(''http://c'', ''/v1/nodes/a%2Fb'')]"
  by code_simp

theorem cli_requests_authenticated_witness:
  "\<exists>q. fst (cli_main sample_cli fresh_app [''--server=http://c/'', ''nodes'', ''get'', ''a/b'']) = [q] \<and> cq_token q \<noteq> []"
proof -
  obtain q where q: "fst (cli_main sample_cli fresh_app [''--server=http://c/'', ''nodes'', ''get'', ''a/b'']) = [q]"
    using sample_cli_run by (auto simp: map_eq_Cons_conv)
  with cli_requests_authenticated [of q sample_cli fresh_app "[''--server=http://c/'', ''nodes'', ''get'', ''a/b'']"]
  show ?thesis by simp
qed

text \<open>\<open>--params-file\<close> cannot be used: \<open>--params\<close> has the non-empty default \<open>{}\<close>, so the two always
  seem to be given together.\<close>

lemma params_file_unusable:
  assumes "path \<noteq> []"
  shows "run_commands env app [''invoke'', action, ''--params-file'', path] =
      fail_run ''use either inline JSON or --file/--params-file''"
proof -
  have "parse_flags pi (invocation_flags ty) [''--params-file'', path] =
      Parsed (gupd ''params-file'' (FvStr path) (invocation_flags ty), [])" for pi ty
    by (simp add: is_flag_def flag_body_def cut_equals_def Let_def set_flag_def invocation_flags_def)
  then show ?thesis
    using assms by (simp add: run_commands_def with_flags_def resolve_json_object_def read_text_source_def fl_str_def
        invocation_flags_def)
qed

end
