(* ===== verification/Cli_Api.thy ===== *)
theory Cli_Api
  imports Cli Api_Nodes
begin

text \<open>
  The client of \<open>Cli\<close> against the server of \<open>Http_Api\<close>: what the one sends is what the other
  understands.  The base URL has no path of its own.
\<close>

section \<open>On the wire\<close>

text \<open>A request of the client as the server receives it; a body of the given bytes.\<close>

definition received :: "string \<Rightarrow> cli_request \<Rightarrow> http_request" where
  "received body q = \<lparr>rq_method = cq_method q, rq_path = cq_path q, rq_query = cq_query q,
     rq_auth = ''Bearer '' @ cq_token q, rq_request_id = cq_request_id q,
     rq_content_length = int (length body), rq_body = body\<rparr>"

lemma has_suffix_slash: "has_suffix s ''/'' \<longleftrightarrow> s \<noteq> [] \<and> last s = slash"
  by (cases s rule: rev_cases) (auto simp: has_suffix_def)

lemma last_not_slash: "e \<noteq> [] \<Longrightarrow> slash \<notin> set e \<Longrightarrow> last e \<noteq> slash"
  using last_in_set by fastforce

lemma node_path_clean:
  assumes "e \<noteq> []" and "slash \<notin> set e" and "e \<noteq> ''.''" and "e \<noteq> ''..''"
  shows "mux_clean (''/v1/nodes/'' @ e) = ''/v1/nodes/'' @ e"
proof -
  have "path_clean (''/v1/nodes/'' @ e) = ''/v1/nodes/'' @ e"
    using assms by (simp add: path_clean_def split_char_no_sep Let_def)
  then show ?thesis
    using last_not_slash [OF assms(1,2)] assms(1) by (simp add: mux_clean_def Let_def)
qed

lemma seg_text_v1: "seg_text ''v1'' = ''v1''" "seg_text ''nodes'' = ''nodes''"
  by (simp_all add: seg_text_def)

lemma mux_node_path:
  assumes "e \<noteq> []" and "slash \<notin> set e" and "e \<noteq> ''.''" and "e \<noteq> ''..''"
  shows "mux_dispatch api_patterns ''GET'' (''/v1/nodes/'' @ e) = Serve (NodeRoutes, [DomainClient, DomainAdmin])"
proof -
  have segs: "segs_of (''/v1/nodes/'' @ e) = [''v1'', ''nodes'', e]"
    using assms(2) by (simp add: segs_of_def split_char_no_sep)
  have m: "tree_match api_patterns ''GET'' (''/v1/nodes/'' @ e) =
      Some (api_pattern None [''v1'', ''nodes''] True NodeRoutes [DomainClient, DomainAdmin])"
    unfolding tree_match_def segs
    by (simp add: Let_def api_patterns_def api_pattern_def longest_match_def pattern_matches_def seg_text_v1 first_some_def)
  have segs': "segs_of (''/v1/nodes/'' @ e @ ''/'') = [''v1'', ''nodes'', e, []]"
    using assms(2) split_char_append [of slash e "[]"] by (simp add: segs_of_def)
  have m': "tree_match api_patterns ''GET'' (''/v1/nodes/'' @ e @ ''/'') =
      Some (api_pattern None [''v1'', ''nodes''] True NodeRoutes [DomainClient, DomainAdmin])"
    unfolding tree_match_def segs'
    by (simp add: Let_def api_patterns_def api_pattern_def longest_match_def pattern_matches_def seg_text_v1 first_some_def)
  have "\<not> exact_match (tree_match api_patterns ''GET'' (''/v1/nodes/'' @ e @ ''/'')) (''/v1/nodes/'' @ e @ ''/'')"
    unfolding exact_match_def m' segs' by (simp add: api_pattern_def)
  with m show ?thesis
    unfolding mux_dispatch_def node_path_clean [OF assms] by (simp add: Let_def api_pattern_def)
qed

text \<open>C17: The client and the server agree on node ids: \<open>sysplane nodes get\<close> sends one request, the
  server routes it to \<open>handleGetNode\<close>, and what the handler is called with is the id the user gave,
  whatever bytes it is made of, unless the id is empty, \<open>.\<close> or \<open>..\<close>, or contains \<open>/\<close> or \<open>%\<close>.\<close>

theorem node_id_survives_the_wire:
  assumes "fst (run_nodes cenv app [''get'', node]) = [q]"
    and "node \<noteq> []" and "slash \<notin> set node" and "CHR ''%'' \<notin> set node" and "node \<noteq> ''.''" and "node \<noteq> ''..''"
    and "caller env (received [] q) \<in> {Some DomainClient, Some DomainAdmin}"
  shows "\<exists>meta s'. api_serve env (received [] q) s = (handle_get_node env meta node, s')"
proof -
  let ?e = "path_escape node"
  have q: "cq_method q = ''GET''" "cq_path q = ''/v1/nodes/'' @ ?e"
    using assms(1) by (auto simp: run_nodes_def fetch_def finish_run_def send_request_def make_request_def Let_def
        split: option.split_asm sum.split_asm)
  have dots: "path_escape ''.'' = ''.''" "path_escape ''..'' = ''..''"
    by (simp_all add: path_escape_def escape_char_def segment_char_def)
  have e: "?e \<noteq> []" "slash \<notin> set ?e" "?e \<noteq> ''.''" "?e \<noteq> ''..''"
    using assms(2,5,6) path_escape_no_slash dots by (simp, simp, metis path_escape_inj, metis path_escape_inj)
  let ?r = "received [] q"
  have mux: "mux_dispatch api_patterns (rq_method ?r) (rq_path ?r) = Serve (NodeRoutes, [DomainClient, DomainAdmin])"
    using mux_node_path [OF e] q by (simp add: received_def)
  obtain d where d: "caller env ?r = Some d" "d \<in> set [DomainClient, DomainAdmin]" using assms(7) by auto
  obtain meta where serve: "api_serve env ?r s = handle_node_routes env ?r meta (snd (with_request_id ?r s))"
    using served [OF mux d, of s] by (auto simp: route_handler_def)
  have "path_unescape (''/v1/nodes/'' @ ?e) = Some (''/v1/nodes/'' @ node)"
    by (simp add: path_unescape_plain_append)
  then have "url_path ?r = ''/v1/nodes/'' @ node" by (simp add: url_path_def seg_text_def received_def q)
  then have "trim_route ''/v1/nodes/'' ?r = node"
    using last_not_slash [OF assms(2,3)]
    by (simp add: trim_route_def trim_prefix_def trim_suffix_def has_prefix_def has_suffix_slash)
  then have "handle_node_routes env ?r meta s1 = (handle_get_node env meta node, s1)" for s1
    using assms(2-4) q by (simp add: handle_node_routes_def Let_def split_char_no_sep path_unescape_plain received_def)
  with serve show ?thesis by auto
qed

theorem node_id_survives_the_wire_witness:
  "\<exists>q meta s'. fst (run_nodes sample_cli \<lparr>app_base_url = ''http://c'', app_token = ''c1''\<rparr> [''get'', ''n 1'']) = [q] \<and>
     cq_path q = ''/v1/nodes/n%201'' \<and>
     api_serve sample_http (received [] q) sample_service = (handle_get_node sample_http meta ''n 1'', s')"
proof -
  let ?app = "\<lparr>app_base_url = ''http://c'', app_token = ''c1''\<rparr>"
  have "map (\<lambda>q. (cq_path q, cq_token q)) (fst (run_nodes sample_cli ?app [''get'', ''n 1''])) = [(''/v1/nodes/n%201'', ''c1'')]"
    by code_simp
  then obtain q where q: "fst (run_nodes sample_cli ?app [''get'', ''n 1'']) = [q]" "cq_path q = ''/v1/nodes/n%201''" "cq_token q = ''c1''"
    by (auto simp: map_eq_Cons_conv)
  have "caller sample_http (received [] q) = caller sample_http (http_get ''c1'' [])"
    by (simp add: caller_def received_def http_get_def q(3))
  then have "caller sample_http (received [] q) \<in> {Some DomainClient, Some DomainAdmin}" by (simp add: sample_caller)
  from node_id_survives_the_wire [OF q(1) _ _ _ _ _ this, of sample_service] obtain meta s' where
    "api_serve sample_http (received [] q) sample_service = (handle_get_node sample_http meta ''n 1'', s')" by auto
  with q(1,2) show ?thesis by (intro exI conjI)
qed

lemma char_codes: "char_of (37::nat) = CHR ''%''" "char_of (50::nat) = CHR ''2''" "char_of (53::nat) = CHR ''5''"
  "char_of (65::nat) = CHR ''A''"
  by code_simp+

text \<open>An id that contains \<open>%\<close> is decoded twice, by \<open>net/http\<close> and by the handler: the client asks for
  the node \<open>a%41\<close>, the server looks up \<open>aA\<close>.\<close>

lemma node_id_decoded_twice:
  "path_escape ''a%41'' = ''a%2541''"
  "fst (handle_node_routes env (http_get tok ''/v1/nodes/a%2541'') meta s) = handle_get_node env meta ''aA''"
  by (simp_all add: path_escape_def escape_char_def segment_char_def upper_hex_def handle_node_routes_def trim_route_def url_path_def
      http_get_def seg_text_def unhex_def trim_prefix_def trim_suffix_def has_prefix_def has_suffix_slash Let_def char_codes)

section \<open>Actions\<close>

lemma same_normalization: "normalize_action_name a = normalize_action a"
  by (simp add: normalize_action_name_def normalize_action_def)

text \<open>What the client takes for a builtin action is exactly what the server runs as one, apart from
  the two configuration actions, which have endpoints of their own; and the name the client sends is
  one the server recognises as the same action.\<close>

theorem builtin_names_agree:
  "is_builtin_action a \<longleftrightarrow>
     is_ok (builtin_spec_for (normalize_action_name a)) \<and> normalize_action a \<notin> {''config.get'', ''config.set''}"
proof -
  have n: "normalize_action (normalize_action_name a) = normalize_action a"
    by (simp add: same_normalization)
  show ?thesis
    by (auto simp: is_builtin_action_def builtin_spec_for_def n same_normalization Let_def is_ok_def)
qed

theorem builtin_names_agree_witness: "is_builtin_action '' fs:list ''"
  unfolding builtin_names_agree by code_simp

end
