(* ===== verification/Cli_Main.thy ===== *)
theory Cli_Main
  imports Cli
begin

text \<open>
  \<open>cmd/sysplane/main.go\<close>: the command line client as a process, with what it sends, what it prints
  on its standard output and its exit status.  A run of \<open>App.Run\<close> that ends with an error exits
  with 1.  The error itself is not printed by \<open>main\<close>; only what the flag package says about flags,
  and the usage text, go to standard error.
\<close>

definition new_app :: app where
  "new_app = \<lparr>app_base_url = [], app_token = []\<rparr>"

definition exit_status :: "cli_out \<Rightarrow> int" where
  "exit_status out = (case out of CliErr _ \<Rightarrow> 1 | CliUsageErr _ \<Rightarrow> 1 | CliPrint _ \<Rightarrow> 0 | CliUsage \<Rightarrow> 0)"

definition printed :: "cli_out \<Rightarrow> gany option" where
  "printed out = (case out of CliPrint v \<Rightarrow> Some v | _ \<Rightarrow> None)"

definition sysplane_main :: "cli_env \<Rightarrow> string list \<Rightarrow> cli_request list \<times> gany option \<times> int" where
  "sysplane_main env args =
     (let (reqs, out) = cli_main env new_app args in (reqs, printed out, exit_status out))"

section \<open>Help and success\<close>

text \<open>An argument that asks for help, as a command or as a flag.\<close>

definition asks_help :: "string \<Rightarrow> bool" where
  "asks_help a \<longleftrightarrow> a = ''help'' \<or>
     is_flag a \<and> (fst (cut_equals (flag_body a)) = ''help'' \<or> fst (cut_equals (flag_body a)) = ''h'')"

text \<open>One step of \<open>Parse\<close>: it ends with an answer about \<open>s\<close>, or goes on with the rest or its tail.\<close>

lemma parse_flags_Cons:
  assumes "parse_flags p fl (s # rest) = out"
  shows "(\<exists>e. out = FlagErr e) \<or> (out = HelpAsked \<and> asks_help s) \<or> out = Parsed (fl, s # rest) \<or>
    out = Parsed (fl, rest) \<or> (\<exists>fl'. parse_flags p fl' rest = out) \<or>
    (\<exists>fl' v rest'. rest = v # rest' \<and> parse_flags p fl' rest' = out)"
proof (cases "is_flag s \<and> s \<noteq> ''--''")
  case True
  obtain name val where nv: "cut_equals (flag_body s) = (name, val)" by fastforce
  have hlp: "asks_help s" if "name = ''help'' \<or> name = ''h''" using True that nv by (simp add: asks_help_def)
  show ?thesis
    using assms [unfolded parse_flags.simps(2)] True
    by (auto simp: Let_def nv hlp simp del: parse_flags.simps
        split: if_splits option.splits flag_val.splits sum.splits list.splits)
qed (use assms in \<open>auto split: if_splits\<close>)

lemma parse_flags_help:
  "parse_flags p fl args = HelpAsked \<Longrightarrow> \<exists>a \<in> set args. asks_help a"
proof (induction args arbitrary: fl rule: length_induct)
  case (1 args)
  show ?case
  proof (cases args)
    case (Cons s more)
    note IH = 1(1) [rule_format]
    from parse_flags_Cons [OF 1(2) [unfolded Cons]] show ?thesis
    proof (elim disjE exE conjE)
      fix fl' assume "parse_flags p fl' more = HelpAsked"
      from IH [OF _ this] show ?thesis by (auto simp: Cons)
    next
      fix fl' v tail assume more: "more = v # tail" and "parse_flags p fl' tail = HelpAsked"
      from IH [OF _ this(2)] show ?thesis by (auto simp: Cons more)
    qed (simp_all add: Cons)
  qed (use 1(2) in simp)
qed

lemma parse_flags_rest:
  "parse_flags p fl args = Parsed (fl', rest) \<Longrightarrow> set rest \<subseteq> set args"
proof (induction args arbitrary: fl rule: length_induct)
  case (1 args)
  show ?case
  proof (cases args)
    case (Cons s more)
    note IH = 1(1) [rule_format]
    from parse_flags_Cons [OF 1(2) [unfolded Cons]] show ?thesis
    proof (elim disjE exE conjE)
      fix fl'' assume "parse_flags p fl'' more = Parsed (fl', rest)"
      from IH [OF _ this] show ?thesis by (auto simp: Cons)
    next
      fix fl'' v tail assume more: "more = v # tail" and "parse_flags p fl'' tail = Parsed (fl', rest)"
      from IH [OF _ this(2)] show ?thesis by (auto simp: Cons more)
    qed (auto simp: Cons)
  qed (use 1(2) in simp)
qed

section \<open>A run that succeeds\<close>

text \<open>What a run prints is what the server said to its last request, with a status of success; a run
  that shows the usage was asked for it in one of the arguments \<open>H\<close>.\<close>

definition answered_ok :: "cli_env \<Rightarrow> cli_request \<Rightarrow> gany \<Rightarrow> bool" where
  "answered_ok env q v \<longleftrightarrow> (\<exists>code st text. ce_server env q = CliReply code st text \<and> 200 \<le> code \<and> code < 300 \<and>
     (ce_decode_any env text = Inr v \<or> decode_into env invocation_view text = Inr v))"

definition honest :: "cli_env \<Rightarrow> string set \<Rightarrow> cli_run \<Rightarrow> bool" where
  "honest env H r = (case snd r of
       CliPrint v \<Rightarrow> fst r \<noteq> [] \<and> answered_ok env (last (fst r)) v
     | CliUsage \<Rightarrow> \<exists>a \<in> H. asks_help a
     | _ \<Rightarrow> True)"

lemma honest_fail [simp]: "honest env H (fail_run e)" "honest env H (reqs, CliErr e)" "honest env H (reqs, CliUsageErr e)"
  by (simp_all add: honest_def fail_run_def)

lemma honest_after [simp]: "honest env H r \<Longrightarrow> honest env H (after reqs r)"
  by (auto simp: honest_def after_def split: cli_out.splits)

lemma honest_finish:
  assumes "\<And>text v. dec text = Inr v \<Longrightarrow> ce_decode_any env text = Inr v \<or> decode_into env invocation_view text = Inr v"
  shows "honest env H (finish_run dec (send_request env app meth path query body))"
  using assms
  by (auto simp: honest_def finish_run_def send_request_def answered_ok_def Let_def
      split: option.splits sum.splits cli_reply.splits if_splits prod.splits)

lemma honest_fetch [simp]: "honest env H (fetch env app meth path query body)"
  unfolding fetch_def by (rule honest_finish) simp

lemma honest_invocation [simp]:
  "honest env H (finish_run (decode_into env invocation_view) (send_request env app meth path query body))"
  by (rule honest_finish) simp

lemma honest_with_flags:
  assumes "set args \<subseteq> H" and "\<And>fl. honest env H (k fl)"
  shows "honest env H (with_flags env defs args k)"
  using assms parse_flags_help [of "ce_parse_int env" defs args]
  by (auto simp: with_flags_def honest_def [of _ _ "([], CliUsage)"] split: parsed.split prod.split)

text \<open>One rule for each construct of a command.\<close>

lemma honest_cases:
  "(P \<Longrightarrow> honest env H r) \<Longrightarrow> (\<not> P \<Longrightarrow> honest env H s) \<Longrightarrow> honest env H (if P then r else s)"
  "(xs = [] \<Longrightarrow> honest env H r) \<Longrightarrow> (\<And>y ys. xs = y # ys \<Longrightarrow> honest env H (f y ys)) \<Longrightarrow>
     honest env H (case xs of [] \<Rightarrow> r | y # ys \<Rightarrow> f y ys)"
  "(\<And>e. honest env H (g e)) \<Longrightarrow> (\<And>b. honest env H (h b)) \<Longrightarrow>
     honest env H (case res of Inl e \<Rightarrow> g e | Inr b \<Rightarrow> h b)"
  "(\<And>x y. honest env H (k x y)) \<Longrightarrow> honest env H (case pr of (x, y) \<Rightarrow> k x y)"
  by (simp_all split: list.split sum.split prod.split)

lemmas honest_rules = honest_cases honest_fetch honest_invocation honest_fail honest_after honest_with_flags

lemma run_nodes_honest: "set args \<subseteq> H \<Longrightarrow> honest env H (run_nodes env app args)"
  unfolding run_nodes_def by (intro honest_rules) auto

lemma run_audit_honest: "set args \<subseteq> H \<Longrightarrow> honest env H (run_audit env app args)"
  unfolding run_audit_def by (intro honest_rules) auto

lemma run_commands_honest: "set args \<subseteq> H \<Longrightarrow> honest env H (run_commands env app args)"
  unfolding run_commands_def by (intro honest_rules) auto

lemma run_templates_honest: "set args \<subseteq> H \<Longrightarrow> honest env H (run_templates env app args)"
  unfolding run_templates_def Let_def by (intro honest_rules) auto

lemma run_invocations_honest: "set args \<subseteq> H \<Longrightarrow> honest env H (run_invocations env app args)"
  unfolding run_invocations_def Let_def by (intro honest_rules) auto

lemma cli_main_honest: "honest env (set args) (cli_main env app args)"
proof (cases "parse_flags (ce_parse_int env) (root_flags env app) args")
  case (Parsed r)
  obtain fl rest where r: "r = (fl, rest)" by fastforce
  from parse_flags_rest [OF Parsed [unfolded r]] have rest: "set rest \<subseteq> set args" .
  have usage: "honest env (set args) ([], CliUsage)" if "cmd \<in> set args" "cmd \<in> set [''help'', ''-h'', ''--help'']" for cmd
  proof -
    have "asks_help cmd" using that(2)
      by (auto simp: asks_help_def is_flag_def flag_body_def cut_equals_def)
    with that(1) show ?thesis by (auto simp: honest_def)
  qed
  show ?thesis
  proof (cases rest)
    case (Cons cmd cmd_args)
    with rest have "cmd \<in> set args" "set cmd_args \<subseteq> set args" by auto
    with Parsed r Cons usage [of cmd] run_nodes_honest run_commands_honest run_templates_honest
      run_invocations_honest run_audit_honest
    show ?thesis by (simp add: cli_main_def Let_def)
  qed (simp add: cli_main_def Parsed r)
next
  case HelpAsked
  with parse_flags_help [OF HelpAsked] show ?thesis by (simp add: cli_main_def honest_def)
qed (simp add: cli_main_def)

section \<open>Property\<close>


lemma sample_exit:
  "sysplane_main sample_cli [''nodes'', ''list''] = (fst (cli_main sample_cli new_app [''nodes'', ''list'']), Some (GMap []), 0)"
  "sysplane_main (sample_cli\<lparr>ce_server := (\<lambda>_. CliReply 404 ''404 Not Found'' [])\<rparr>) [''nodes'', ''list''] =
     (fst (cli_main sample_cli new_app [''nodes'', ''list'']), None, 1)"
  by code_simp+


text \<open>A refused request leaves no trace of its reason: nothing is printed, and the text of the error is lost.\<close>

lemma failure_is_silent:
  "snd (cli_main env new_app args) = CliErr e \<Longrightarrow> snd (sysplane_main env args) = (None, 1)"
  by (simp add: sysplane_main_def case_prod_unfold Let_def printed_def exit_status_def)

end
