(* ===== verification/Http_Json.thy ===== *)
theory Http_Json
  imports Go_Json Http_Api
begin

text \<open>
  The JSON of the HTTP API: the structs of \<open>httpapi/server.go\<close> and \<open>admin/service.go\<close> with their tags, as
  the decoders of the request bodies and the encoding of every answer.  \<open>Http_Api\<close> takes the decoders as
  parameters of \<open>http_env\<close> and answers with the values themselves; here both are tied to one codec, which
  is left as a parameter: \<open>dec\<close> gives the value a text begins with and \<open>enc\<close> the text of a value.
  \<open>fmt\<close> is the JSON form of a \<open>time.Time\<close>.  The records have no nil maps: where the source would write
  \<open>null\<close> for a nil map (a template without a schema), \<open>{}\<close> is written here.
\<close>

section \<open>Requests\<close>

definition decode_template_exec :: "gany \<Rightarrow> template_exec go_result" where
  "decode_template_exec v =
     go_bind (known_fields [''type'', ''command'', ''args''] v) (\<lambda>m.
      go_bind (string_field m ''type'') (\<lambda>ty.
      go_bind (string_field m ''command'') (\<lambda>cmd.
      go_bind (strings_field m ''args'') (\<lambda>args.
      Inr \<lparr>tx_type = ty, tx_command = cmd, tx_args = or_nil args\<rparr>))))"

definition decode_create_template :: "gany \<Rightarrow> create_template_request go_result" where
  "decode_create_template v =
     go_bind (known_fields [''name'', ''description'', ''risk_level'', ''target_os'', ''executor'', ''params_schema'',
         ''default_timeout_sec'', ''max_timeout_sec'', ''max_output_bytes''] v) (\<lambda>m.
      go_bind (string_field m ''name'') (\<lambda>name.
      go_bind (string_field m ''description'') (\<lambda>descr.
      go_bind (string_field m ''risk_level'') (\<lambda>risk.
      go_bind (strings_field m ''target_os'') (\<lambda>os.
      go_bind (decode_template_exec (json_field m ''executor'')) (\<lambda>ex.
      go_bind (map_field m ''params_schema'') (\<lambda>schema.
      go_bind (int_field m ''default_timeout_sec'') (\<lambda>dt.
      go_bind (int_field m ''max_timeout_sec'') (\<lambda>mt.
      go_bind (int_field m ''max_output_bytes'') (\<lambda>mo.
      Inr \<lparr>ctr_name = name, ctr_description = descr, ctr_risk_level = risk, ctr_target_os = or_nil os,
        ctr_executor = ex, ctr_params_schema = or_nil schema, ctr_default_timeout_sec = dt,
        ctr_max_timeout_sec = mt, ctr_max_output_bytes = mo\<rparr>))))))))))"

definition decode_update_template :: "gany \<Rightarrow> update_template_request go_result" where
  "decode_update_template v =
     go_bind (known_fields [''description'', ''risk_level'', ''target_os'', ''params_schema'',
         ''default_timeout_sec'', ''max_timeout_sec'', ''max_output_bytes'', ''enabled''] v) (\<lambda>m.
      go_bind (ptr_field string_field m ''description'') (\<lambda>descr.
      go_bind (ptr_field string_field m ''risk_level'') (\<lambda>risk.
      go_bind (strings_field m ''target_os'') (\<lambda>os.
      go_bind (map_field m ''params_schema'') (\<lambda>schema.
      go_bind (ptr_field int_field m ''default_timeout_sec'') (\<lambda>dt.
      go_bind (ptr_field int_field m ''max_timeout_sec'') (\<lambda>mt.
      go_bind (ptr_field int_field m ''max_output_bytes'') (\<lambda>mo.
      go_bind (ptr_field bool_field m ''enabled'') (\<lambda>en.
      Inr \<lparr>utr_description = descr, utr_risk_level = risk, utr_target_os = os, utr_params_schema = schema,
        utr_default_timeout_sec = dt, utr_max_timeout_sec = mt, utr_max_output_bytes = mo, utr_enabled = en\<rparr>)))))))))"

definition decode_create_invocation :: "gany \<Rightarrow> create_invocation_request go_result" where
  "decode_create_invocation v =
     go_bind (known_fields [''action'', ''action_type'', ''targets'', ''params'', ''timeout_sec'', ''async''] v) (\<lambda>m.
      go_bind (string_field m ''action'') (\<lambda>action.
      go_bind (string_field m ''action_type'') (\<lambda>ty.
      go_bind (known_fields [''node_ids''] (json_field m ''targets'')) (\<lambda>tm.
      go_bind (strings_field tm ''node_ids'') (\<lambda>nodes.
      go_bind (int_field m ''timeout_sec'') (\<lambda>t.
      go_bind (bool_field m ''async'') (\<lambda>async.
      Inr \<lparr>cir_action = action, cir_action_type = ty, cir_targets = or_nil nodes,
        cir_params = json_field m ''params'', cir_timeout_sec = t, cir_async = async\<rparr>)))))))"

definition decode_exec :: "gany \<Rightarrow> (params option \<times> int) go_result" where
  "decode_exec v =
     go_bind (known_fields [''params'', ''timeout_sec''] v) (\<lambda>m.
      go_bind (map_field m ''params'') (\<lambda>ps.
      go_bind (int_field m ''timeout_sec'') (\<lambda>t. Inr (ps, t))))"

definition decode_map :: "gany \<Rightarrow> params option go_result" where
  "decode_map v = (case v of GNil \<Rightarrow> Inr None | GMap m \<Rightarrow> Inr (Some m) | _ \<Rightarrow> Inl (type_error ''map[string]interface {}''))"

text \<open>The decoders of the handlers.  A decoder reads the first value of the body; it fails on a body that
  was cut before that value ended.\<close>

definition body_decoder :: "(string \<times> bool \<Rightarrow> gany go_result) \<Rightarrow> (gany \<Rightarrow> 'a go_result) \<Rightarrow> 'a decoder" where
  "body_decoder dec struct b = (case dec b of Inl e \<Rightarrow> Inl e | Inr v \<Rightarrow> struct v)"

definition json_env :: "(string \<times> bool \<Rightarrow> gany go_result) \<Rightarrow> http_env \<Rightarrow> http_env" where
  "json_env dec env = env\<lparr>he_decode_map := body_decoder dec decode_map, he_decode_exec := body_decoder dec decode_exec,
     he_decode_create := body_decoder dec decode_create_template,
     he_decode_update := body_decoder dec decode_update_template,
     he_decode_invocation := body_decoder dec decode_create_invocation\<rparr>"

section \<open>Answers\<close>

definition template_exec_json :: "template_exec \<Rightarrow> gany" where
  "template_exec_json x = GMap [(''type'', GStr (tx_type x)), (''command'', GStr (tx_command x)), (''args'', json_strings (tx_args x))]"

definition template_json :: "(int \<Rightarrow> gany) \<Rightarrow> command_template \<Rightarrow> gany" where
  "template_json fmt t = GMap [(''id'', GStr (tpl_id t)), (''name'', GStr (tpl_name t)),
     (''description'', GStr (tpl_description t)), (''risk_level'', GStr (tpl_risk_level t)),
     (''target_os'', json_strings (tpl_target_os t)), (''executor'', template_exec_json (tpl_executor t)),
     (''params_schema'', GMap (tpl_params_schema t)), (''default_timeout_sec'', json_int (tpl_default_timeout_sec t)),
     (''max_timeout_sec'', json_int (tpl_max_timeout_sec t)), (''max_output_bytes'', json_int (tpl_max_output_bytes t)),
     (''enabled'', GBool (tpl_enabled t)), (''created_by'', GStr (tpl_created_by t)),
     (''created_at'', fmt (tpl_created_at t)), (''updated_at'', fmt (tpl_updated_at t))]"

definition invocation_json :: "(int \<Rightarrow> gany) \<Rightarrow> invocation \<Rightarrow> gany" where
  "invocation_json fmt i = GMap [(''id'', GStr (inv_id i)), (''action'', GStr (inv_action i)),
     (''action_type'', GStr (inv_action_type i)), (''status'', GStr (inv_status i)), (''async'', GBool (inv_async i)),
     (''targets'', GMap [(''node_ids'', json_strings (inv_targets i))]), (''params'', inv_params i),
     (''requested_by'', GMap [(''subject_id'', GStr (inv_subject_id i)), (''source'', GStr (inv_source i))]),
     (''timeout_sec'', json_int (inv_timeout_sec i)), (''created_at'', fmt (inv_created_at i)),
     (''started_at'', json_option fmt (inv_started_at i)), (''finished_at'', json_option fmt (inv_finished_at i))]"

definition invocation_error_json :: "invocation_error \<Rightarrow> gany" where
  "invocation_error_json e = GMap ([(''code'', GStr (ie_code e)), (''message'', GStr (ie_message e))] @
     omit_empty (ie_details e = []) ''details'' (GMap (ie_details e)))"

definition result_json :: "(int \<Rightarrow> gany) \<Rightarrow> invocation_result \<Rightarrow> gany" where
  "result_json fmt r = GMap [(''node_id'', GStr (res_node_id r)), (''hostname'', GStr (res_hostname r)),
     (''status'', GStr (res_status r)), (''started_at'', fmt (res_started_at r)), (''finished_at'', fmt (res_finished_at r)),
     (''data'', res_data r), (''error'', json_option invocation_error_json (res_error r))]"

definition invoked_json :: "(int \<Rightarrow> gany) \<Rightarrow> invocation option \<Rightarrow> invocation_result list \<Rightarrow> gany" where
  "invoked_json fmt iv rs = GMap ((''invocation'', json_option (invocation_json fmt) iv) #
     omit_empty (rs = []) ''results'' (GArr (map (result_json fmt) rs)))"

definition audit_json :: "(int \<Rightarrow> gany) \<Rightarrow> audit_event \<Rightarrow> gany" where
  "audit_json fmt a = GMap ([(''id'', GStr (ae_id a)), (''request_id'', GStr (ae_request_id a))] @
     omit_empty (ae_invocation_id a = []) ''invocation_id'' (GStr (ae_invocation_id a)) @
     [(''subject_id'', GStr (ae_subject_id a)), (''token_type'', GStr (ae_token_type a)), (''source'', GStr (ae_source a)),
      (''action'', GStr (ae_action a)), (''action_type'', GStr (ae_action_type a)),
      (''target_node_ids'', json_strings (ae_target_node_ids a)), (''risk_level'', GStr (ae_risk_level a)),
      (''decision'', GStr (ae_decision a))] @
     omit_empty (ae_decision_reason a = []) ''decision_reason'' (GStr (ae_decision_reason a)) @
     [(''created_at'', fmt (ae_created_at a)), (''finished_at'', json_option fmt (ae_finished_at a))])"

definition node_json :: "(int \<Rightarrow> gany) \<Rightarrow> node_response \<Rightarrow> gany" where
  "node_json fmt n = GMap [(''id'', GStr (nr_id n)), (''hostname'', GStr (nr_hostname n)),
     (''labels'', GMap (map (\<lambda>(k, v). (k, GStr v)) (nr_labels n))), (''status'', GStr (nr_status n)),
     (''platform'', GMap [(''os'', GStr (np_os (nr_platform n))), (''arch'', GStr (np_arch (nr_platform n))),
        (''kernel'', GStr (np_kernel (nr_platform n)))]),
     (''agent'', GMap [(''version'', GStr (na_version (nr_agent n))),
        (''connected_via'', json_strings (na_connected_via (nr_agent n)))]),
     (''last_seen_at'', fmt (nr_last_seen_at n)), (''registered_at'', fmt (nr_registered_at n))]"

definition capability_json :: "capability \<Rightarrow> gany" where
  "capability_json c = GMap [(''name'', GStr (cb_name c)), (''type'', GStr (cb_type c)),
     (''risk_level'', GStr (cb_risk_level c)), (''enabled'', GBool (cb_enabled c))]"

definition page_json :: "('a \<Rightarrow> gany) \<Rightarrow> 'a list_page \<Rightarrow> gany" where
  "page_json enc p = GMap [(''items'', GArr (map enc (lp_items p))), (''next_cursor'', GStr (lp_next_cursor p))]"

definition api_error_json :: "api_error \<Rightarrow> gany" where
  "api_error_json e = GMap [(''error'', GMap ([(''code'', GStr (er_api_code e)), (''message'', GStr (er_api_message e)),
     (''request_id'', GStr (er_api_request_id e))] @
     omit_empty (er_api_details e = []) ''details'' (GMap (er_api_details e))))]"

definition success_json :: "gany \<Rightarrow> gany" where
  "success_json d = GMap [(''data'', d)]"

definition exec_json :: "exec_result \<Rightarrow> gany" where
  "exec_json x = GMap [(''exit_code'', json_int (xr_exit_code x)), (''stdout'', GStr (xr_stdout x)), (''stderr'', GStr (xr_stderr x))]"

text \<open>What \<open>writeJSON\<close> encodes; \<open>None\<close> for the bodies that are written as they are: the output of a command
  and the texts of \<open>net/http\<close>.\<close>

fun body_json :: "(int \<Rightarrow> gany) \<Rightarrow> http_body \<Rightarrow> gany option" where
  "body_json fmt (BodyNodes p) = Some (page_json (node_json fmt) p)"
| "body_json fmt (BodyNode n) = Some (node_json fmt n)"
| "body_json fmt (BodyCapabilities cs) = Some (page_json capability_json \<lparr>lp_items = cs, lp_next_cursor = []\<rparr>)"
| "body_json fmt (BodyTemplates p) = Some (page_json (template_json fmt) p)"
| "body_json fmt (BodyTemplate t) = Some (template_json fmt t)"
| "body_json fmt (BodyInvocations p) = Some (page_json (invocation_json fmt) p)"
| "body_json fmt (BodyInvocation i) = Some (invocation_json fmt i)"
| "body_json fmt (BodyCanceled i) = Some (GMap [(''invocation'', invocation_json fmt i)])"
| "body_json fmt (BodyInvoked iv rs) = Some (invoked_json fmt iv rs)"
| "body_json fmt (BodyResults rs) = Some (page_json (result_json fmt) \<lparr>lp_items = rs, lp_next_cursor = []\<rparr>)"
| "body_json fmt (BodyAudits p) = Some (page_json (audit_json fmt) p)"
| "body_json fmt (BodyAudit a) = Some (audit_json fmt a)"
| "body_json fmt (BodyData d) = Some (success_json d)"
| "body_json fmt (BodyExit x) = Some (exec_json x)"
| "body_json fmt (BodyRaw out) = None"
| "body_json fmt (BodyText msg) = None"
| "body_json fmt (BodyError e) = Some (api_error_json e)"

definition body_text :: "(gany \<Rightarrow> string) \<Rightarrow> (int \<Rightarrow> gany) \<Rightarrow> http_body \<Rightarrow> string" where
  "body_text enc fmt b = (case b of BodyRaw out \<Rightarrow> out | BodyText msg \<Rightarrow> msg
     | _ \<Rightarrow> (case body_json fmt b of Some v \<Rightarrow> enc v | None \<Rightarrow> []))"

lemma body_text_json: "body_json fmt b = Some v \<Longrightarrow> body_text enc fmt b = enc v"
  by (cases b) (simp_all add: body_text_def)

end
