(* ===== verification/Cli_Invoke.thy ===== *)
theory Cli_Invoke
  imports Cli_Main Cli_Api Http_Json
begin

text \<open>
  The client and the server on both sides of their JSON: the payload of an invocation as the server
  decodes it, and the answers of the server as the client decodes them.
\<close>

section \<open>A field of an object\<close>

lemma json_field_here [simp]: "json_field ((k, v) # m) k = v"
  by (simp add: json_field_def)

lemma json_field_other:
  assumes "k \<noteq> name" and "to_lower k \<noteq> name"
  shows "json_field ((k, v) # m) name = json_field m name"
  using assms by (simp add: json_field_def split: option.split)

lemma json_field_Nil [simp]: "json_field [] name = GNil"
  by (simp add: json_field_def)

text \<open>The keys that are written in small letters.\<close>

definition lower_key :: "string \<Rightarrow> bool" where
  "lower_key k \<longleftrightarrow> to_lower k = k"

lemma json_field_next [simp]: "lower_key k \<Longrightarrow> k \<noteq> name \<Longrightarrow> json_field ((k, v) # m) name = json_field m name"
  by (simp add: json_field_other lower_key_def)

lemma lower_keys [simp]:
  "lower_key ''action''" "lower_key ''action_type''" "lower_key ''targets''" "lower_key ''params''"
  "lower_key ''async''" "lower_key ''timeout_sec''" "lower_key ''node_ids''" "lower_key ''invocation''"
  "lower_key ''results''" "lower_key ''node_id''" "lower_key ''hostname''" "lower_key ''status''"
  "lower_key ''started_at''" "lower_key ''finished_at''" "lower_key ''data''" "lower_key ''error''"
  "lower_key ''code''" "lower_key ''message''" "lower_key ''request_id''" "lower_key ''details''"
  "lower_key ''id''" "lower_key ''name''" "lower_key ''items''" "lower_key ''next_cursor''"
  by code_simp+

lemma known_fields_lower:
  assumes "\<forall>k \<in> fst ` set m. lower_key k \<and> k \<in> set names"
  shows "known_fields names (GMap m) = Inr m"
proof -
  have "find (\<lambda>(k, v). to_lower k \<notin> set names) m = None"
    unfolding find_None_iff using assms by (fastforce simp: lower_key_def)
  then show ?thesis by (simp add: known_fields_def struct_fields_def)
qed

section \<open>What the server reads\<close>

text \<open>The server's decoder gets from the payload what the flags say; it knows every key of it.\<close>

lemma payload_decoded:
  assumes "in_int64 (fl_int fl ''timeout'')"
  shows "decode_create_invocation (invocation_payload fl action ty body) = Inr
    \<lparr>cir_action = action, cir_action_type = ty,
     cir_targets = target_node_list (fl_str fl ''node'') (fl_str fl ''nodes''), cir_params = GMap body,
     cir_timeout_sec = (if fl_int fl ''timeout'' > 0 then fl_int fl ''timeout'' else 0), cir_async = fl_bool fl ''async''\<rparr>"
proof -
  let ?nodes = "target_node_list (fl_str fl ''node'') (fl_str fl ''nodes'')"
  let ?t = "if fl_int fl ''timeout'' > 0 then [(''timeout_sec'', GNum (of_int (fl_int fl ''timeout'')))] else []"
  let ?m = "[(''action'', GStr action), (''action_type'', GStr ty), (''targets'', GMap [(''node_ids'', GArr (map GStr ?nodes))]),
    (''params'', GMap body), (''async'', GBool (fl_bool fl ''async''))] @ ?t"
  have known: "known_fields [''action'', ''action_type'', ''targets'', ''params'', ''timeout_sec'', ''async''] (GMap ?m) = Inr ?m"
    by (rule known_fields_lower) simp
  have targets: "known_fields [''node_ids''] (GMap [(''node_ids'', GArr (map GStr ?nodes))]) = Inr [(''node_ids'', GArr (map GStr ?nodes))]"
    by (rule known_fields_lower) simp
  have "json_field ?m ''timeout_sec'' = (if fl_int fl ''timeout'' > 0 then GNum (of_int (fl_int fl ''timeout'')) else GNil)"
    by simp
  then have t: "int_field ?m ''timeout_sec'' = Inr (if fl_int fl ''timeout'' > 0 then fl_int fl ''timeout'' else 0)"
    using assms by (simp only: int_field_def) simp
  have f: "string_field ?m ''action'' = Inr action" "string_field ?m ''action_type'' = Inr ty"
    "json_field ?m ''targets'' = GMap [(''node_ids'', GArr (map GStr ?nodes))]" "json_field ?m ''params'' = GMap body"
    "bool_field ?m ''async'' = Inr (fl_bool fl ''async'')"
    by (simp_all add: string_field_def bool_field_def)
  show ?thesis
    by (simp only: decode_create_invocation_def invocation_payload_def known go_bind_simps f t targets)
      (simp add: strings_field_map)
qed

section \<open>What the client reads\<close>

definition object_data :: "invocation_result \<Rightarrow> bool" where
  "object_data r \<longleftrightarrow> (case res_data r of GNil \<Rightarrow> True | GMap _ \<Rightarrow> True | _ \<Rightarrow> False)"

definition shown_result :: "invocation_result \<Rightarrow> gany" where
  "shown_result r = GMap [(''data'', res_data r), (''error'', json_option invocation_error_json (res_error r))]"

text \<open>So what \<open>commands invoke\<close> prints does not say which node a result belongs to, nor whether it succeeded:
  results of different nodes with the same data look the same.\<close>

lemma result_without_node:
  "shown_result (r\<lparr>res_node_id := n, res_hostname := h, res_status := st, res_started_at := t0, res_finished_at := t1\<rparr>) = shown_result r"
  by (simp add: shown_result_def)

lemma result_viewed:
  "result_view (result_json fmt r) = (if object_data r then Inr (shown_result r) else Inl (type_error ''map[string]interface {}''))"
  by (simp add: result_view_def result_json_def struct_fields_def object_field_def object_data_def shown_result_def split: gany.split)

lemma invoked_viewed:
  assumes "\<forall>r \<in> set rs. object_data r"
  shows "invocation_view (invoked_json fmt iv rs) = Inr (GMap [(''invocation'', json_option (invocation_json fmt) iv),
    (''results'', if rs = [] then GNil else GArr (map shown_result rs))])"
proof -
  have each: "decode_each result_view (map (result_json fmt) rs) = Inr (map shown_result rs)"
    using assms by (intro decode_each_map) (simp add: result_viewed)
  have iv: "object_field ((''invocation'', json_option (invocation_json fmt) iv) # m) ''invocation'' =
      Inr (json_option (invocation_json fmt) iv)" for m
    by (cases iv) (simp_all add: object_field_def json_option_def invocation_json_def)
  show ?thesis
    by (simp add: invocation_view_def invoked_json_def struct_fields_def iv slice_field_def omit_empty_def each)
qed

lemma invoked_not_viewed:
  assumes "\<exists>r \<in> set rs. \<not> object_data r"
  shows "invocation_view (invoked_json fmt iv rs) = Inl (type_error ''map[string]interface {}'')"
proof -
  have each: "decode_each result_view (map (result_json fmt) rs) = Inl (type_error ''map[string]interface {}'')"
    using assms by (induction rs) (auto simp: result_viewed)
  have iv: "object_field ((''invocation'', json_option (invocation_json fmt) iv) # m) ''invocation'' =
      Inr (json_option (invocation_json fmt) iv)" for m
    by (cases iv) (simp_all add: object_field_def json_option_def invocation_json_def)
  have "rs \<noteq> []" using assms by auto
  then show ?thesis
    by (simp add: invocation_view_def invoked_json_def struct_fields_def iv slice_field_def omit_empty_def each)
qed

lemma error_viewed:
  "error_envelope (api_error_json e) = Inr (er_api_code e, er_api_message e, er_api_request_id e)"
  by (simp add: error_envelope_def api_error_json_def struct_fields_def string_field_def)

lemma template_page_viewed:
  "template_page (page_json (template_json fmt) p) = Inr (map (\<lambda>t. (tpl_id t, tpl_name t)) (lp_items p))"
proof -
  have "template_ref (template_json fmt t) = Inr (tpl_id t, tpl_name t)" for t
    by (simp add: template_ref_def template_json_def struct_fields_def string_field_def)
  then show ?thesis
    by (simp add: template_page_def page_json_def struct_fields_def slice_field_def string_field_def decode_each_map)
qed

section \<open>Client and server\<close>

record wire =
  wi_enc :: "gany \<Rightarrow> string"
  wi_fmt :: "int \<Rightarrow> gany"
  wi_status :: "int \<Rightarrow> string"      \<comment> \<open>the text of a status\<close>

definition wire_request :: "wire \<Rightarrow> cli_request \<Rightarrow> http_request" where
  "wire_request w q = received (case cq_body q of None \<Rightarrow> [] | Some v \<Rightarrow> wi_enc w v) q"

definition center_answer :: "wire \<Rightarrow> http_env \<Rightarrow> service \<Rightarrow> cli_request \<Rightarrow> cli_reply" where
  "center_answer w env s q = (let res = fst (api_serve env (wire_request w q) s) in
     CliReply (hs_status res) (wi_status w (hs_status res)) (body_text (wi_enc w) (wi_fmt w) (hs_body res)))"

lemma mux_create_invocation:
  "mux_dispatch api_patterns ''POST'' ''/v1/invocations'' = Serve (CreateInvocation, [DomainClient, DomainAdmin])"
  by code_simp

lemma caller_json_env [simp]: "caller (json_env dec env) r = caller env r"
  by (simp add: caller_def json_env_def)

text \<open>A builtin invocation is answered with what was invoked, or with an error of the request.\<close>

lemma builtin_plan_error:
  assumes "prepare_plan meta req s = Inl e" and "trim_space (cir_action_type req) = action_builtin"
  shows "400 \<le> se_status e \<and> se_code e \<noteq> []"
  using assms
  by (auto simp: prepare_plan_def Let_def invalid_arg_def svc_err_def builtin_spec_for_def allow_risk_def
      split: if_splits option.splits)

lemma open_builtin_error:
  assumes "open_invocation meta req s = (Inl e, s1)" and "trim_space (cir_action_type req) = action_builtin"
  shows "400 \<le> se_status e \<and> se_code e \<noteq> []"
  using assms builtin_plan_error [OF _ assms(2)]
  by (auto simp: open_invocation_def Let_def case_prod_unfold split: sum.splits)

lemma answer_builtin:
  assumes "answer_invocation env meta req s = (res, s')" and "trim_space (cir_action_type req) = action_builtin"
  shows "(\<exists>iv rs. hs_body res = BodyInvoked iv rs \<and> hs_status res \<in> {200, 202}) \<or>
    (\<exists>e. hs_body res = BodyError e \<and> 400 \<le> hs_status res \<and> er_api_code e \<noteq> [])"
proof (cases "open_invocation meta req s")
  case (Pair o1 s1)
  show ?thesis
  proof (cases o1)
    case (Inl e)
    from open_builtin_error [OF Pair [unfolded Inl] assms(2)] assms(1) Pair Inl show ?thesis
      by (auto simp: answer_invocation_def create_invocation_sync_def Let_def write_service_error_def write_error_def
          write_json_def split: if_splits)
  next
    case (Inr x)
    with assms(1) Pair show ?thesis
      by (auto simp: answer_invocation_def create_invocation_sync_def Let_def write_json_def case_prod_unfold split: if_splits)
  qed
qed

section \<open>Property\<close>

text \<open>What \<open>commands invoke\<close> prints for an answer.\<close>

definition invoke_output :: "wire \<Rightarrow> http_body \<Rightarrow> cli_out" where
  "invoke_output w b = (case b of
       BodyInvoked iv rs \<Rightarrow>
         if \<forall>r \<in> set rs. object_data r
         then CliPrint (GMap [(''invocation'', json_option (invocation_json (wi_fmt w)) iv),
           (''results'', if rs = [] then GNil else GArr (map shown_result rs))])
         else CliErr (type_error ''map[string]interface {}'')
     | BodyError e \<Rightarrow> CliErr (er_api_code e @ '': '' @ er_api_message e @ '' (request_id='' @ er_api_request_id e @ '')'')
     | _ \<Rightarrow> CliErr [])"

definition invoke_request :: "flags \<Rightarrow> string \<Rightarrow> params \<Rightarrow> create_invocation_request" where
  "invoke_request fl action ps = \<lparr>cir_action = normalize_action_name action, cir_action_type = action_builtin,
     cir_targets = target_node_list (fl_str fl ''node'') (fl_str fl ''nodes''), cir_params = GMap ps,
     cir_timeout_sec = (if fl_int fl ''timeout'' > 0 then fl_int fl ''timeout'' else 0), cir_async = fl_bool fl ''async''\<rparr>"

text \<open>What is made of an answer of that shape.\<close>

lemma invoked_printed:
  fixes w :: wire and cenv :: cli_env and app :: app
  assumes "ce_build_err cenv ''POST'' (app_base_url app @ ''/v1/invocations'') = None"
    and "q = make_request cenv app ''POST'' ''/v1/invocations'' [] (Some p)" and p: "p \<noteq> GNil"
    and answer: "ce_server cenv q = CliReply (hs_status res) st (body_text (wi_enc w) (wi_fmt w) (hs_body res))"
    and decode: "\<forall>v. body_json (wi_fmt w) (hs_body res) = Some v \<longrightarrow> ce_decode_any cenv (wi_enc w v) = Inr v"
    and shape: "(\<exists>iv rs. hs_body res = BodyInvoked iv rs \<and> hs_status res \<in> {200, 202}) \<or>
      (\<exists>e. hs_body res = BodyError e \<and> 400 \<le> hs_status res \<and> er_api_code e \<noteq> [])"
  shows "finish_run (decode_into cenv invocation_view) (send_request cenv app ''POST'' ''/v1/invocations'' [] (Some p)) =
    ([q], invoke_output w (hs_body res))"
proof -
  from shape consider (invoked) iv rs where "hs_body res = BodyInvoked iv rs" "hs_status res \<in> {200, 202}"
    | (failed) e where "hs_body res = BodyError e" "400 \<le> hs_status res" "er_api_code e \<noteq> []" by blast
  then show ?thesis
  proof cases
    case invoked
    then have "ce_decode_any cenv (body_text (wi_enc w) (wi_fmt w) (hs_body res)) = Inr (invoked_json (wi_fmt w) iv rs)"
      using decode by (simp add: body_text_def)
    with invoked(2) show ?thesis
      using invoked_viewed [of rs "wi_fmt w" iv] invoked_not_viewed [of rs "wi_fmt w" iv]
      by (auto simp: send_request_def Let_def p assms(1) answer finish_run_def decode_into_def invoke_output_def invoked(1)
          simp flip: assms(2))
  next
    case failed
    then have "ce_decode_any cenv (body_text (wi_enc w) (wi_fmt w) (hs_body res)) = Inr (api_error_json e)"
      using decode by (simp add: body_text_def)
    with failed(2,3) show ?thesis
      by (simp add: send_request_def Let_def p assms(1) answer finish_run_def decode_into_def invoke_output_def failed(1)
          error_viewed flip: assms(2))
  qed
qed


definition one_node :: flags where
  "one_node = gupd ''node'' (FvStr ''n1'') (invocation_flags ''auto'')"

lemma one_node_flags:
  "parse_flags p (invocation_flags ''auto'') [''--node'', ''n1''] = Parsed (one_node, [])"
  "fl_str one_node ''params'' = ''{}''" "fl_str one_node ''params-file'' = []" "fl_str one_node ''action-type'' = ''auto''"
  "fl_int one_node ''timeout'' = 0"
  by (simp_all add: one_node_def is_flag_def flag_body_def cut_equals_def Let_def set_flag_def invocation_flags_def
      fl_str_def fl_int_def)

definition list_payload :: gany where
  "list_payload = invocation_payload one_node (normalize_action_name ''fs:list'') ''builtin'' []"

definition toy_wire :: wire where
  "toy_wire = \<lparr>wi_enc = (\<lambda>v. if v = list_payload then ''p'' else ''a''), wi_fmt = json_int, wi_status = dec_of_int\<rparr>"

definition toy_center :: http_env where
  "toy_center = json_env (\<lambda>(text, cut). if cut then Inl ''http: request body too large'' else Inr list_payload) sample_http"

definition toy_answer :: "cli_request \<Rightarrow> gany" where
  "toy_answer q = (case body_json json_int (hs_body (fst (api_serve toy_center (wire_request toy_wire q) sample_service))) of
     Some v \<Rightarrow> v | None \<Rightarrow> GNil)"

definition toy_client :: "cli_request \<Rightarrow> cli_env" where
  "toy_client q = sample_cli\<lparr>ce_server := center_answer toy_wire toy_center sample_service,
     ce_decode_any := (\<lambda>_. Inr (toy_answer q))\<rparr>"

definition toy_app :: app where
  "toy_app = \<lparr>app_base_url = ''http://c'', app_token = ''c1''\<rparr>"

definition list_request :: cli_request where
  "list_request = make_request sample_cli toy_app ''POST'' ''/v1/invocations'' [] (Some list_payload)"

lemma list_request_caller: "caller sample_http (wire_request toy_wire list_request) = Some DomainClient"
proof -
  have "caller sample_http (wire_request toy_wire list_request) = caller sample_http (http_get ''c1'' [])"
    by (simp add: caller_def wire_request_def received_def http_get_def make_request_def list_request_def toy_app_def)
  then show ?thesis by (simp add: sample_caller)
qed

lemma list_params: "resolve_json_object (toy_client q) ''{}'' [] = Inr []"
proof -
  have "trim_space ''{}'' \<noteq> []" by code_simp
  then show ?thesis by (simp add: resolve_json_object_def read_text_source_def toy_client_def sample_cli_def)
qed


end
