(* ===== verification/Cli_Templates.thy ===== *)
theory Cli_Templates
  imports Cli_Invoke
begin

text \<open>
  Template names between client and server.  The client looks a name up before it invokes, shows or changes
  a template (\<open>resolveTemplateRef\<close> of \<open>sysplane-cli/cli.go\<close>): it asks for one page of templates whose name
  contains it and takes the id of the one that is called or filed so, or else what the user typed; the
  server resolves what it gets again (\<open>resolveTemplate\<close> of \<open>admin/service.go\<close>), ids before names.
\<close>

section \<open>The page the client reads\<close>

definition lookup_filter :: "string \<Rightarrow> template_filter" where
  "lookup_filter ref = \<lparr>tf_limit = 200, tf_cursor = [], tf_name = ref, tf_enabled = None, tf_risk_level = [], tf_target_os = []\<rparr>"

definition lookup_query :: "string \<Rightarrow> (string, string) gomap" where
  "lookup_query ref = [(''name'', ref), (''limit'', ''200'')]"

lemma lookup_params:
  assumes "rq_query r = lookup_query ref"
  shows "query_get r ''name'' = ref" "must_positive_query r ''limit'' 50 = 200" "query_get r ''cursor'' = []"
    "query_get r ''enabled'' = []" "query_get r ''risk_level'' = []" "query_get r ''target_os'' = []"
proof -
  have "atoi ''200'' = Some 200" by code_simp
  then show "must_positive_query r ''limit'' 50 = 200"
    using assms by (simp add: must_positive_query_def parse_positive_int_query_def query_get_def lookup_query_def)
qed (use assms in \<open>simp_all add: query_get_def lookup_query_def\<close>)

lemma mux_list_templates:
  "mux_dispatch api_patterns ''GET'' ''/v1/command-templates'' = Serve (ListTemplates, [DomainClient, DomainAdmin])"
  by code_simp

lemma list_templates_same:
  "sv_templates s' = sv_templates s \<Longrightarrow> list_templates f s' = list_templates f s"
  by (simp add: list_templates_def)

lemma with_request_id_templates [simp]: "sv_templates (snd (with_request_id r s)) = sv_templates s"
  by (simp add: with_request_id_def split: prod.split)

lemma str_contains_self: "str_contains s s"
  using str_contains_append [of "[]" s "[]"] by simp

definition name_matches :: "string \<Rightarrow> service \<Rightarrow> command_template list" where
  "name_matches ref s = filter (template_matches (lookup_filter ref)) (map snd (sv_templates s))"

lemma lookup_page:
  "lp_items (list_templates (lookup_filter ref) s) = take 200 (newest_first tpl_created_at (name_matches ref s))"
  by (simp add: list_templates_def lookup_filter_def paginate_def name_matches_def normalize_limit_def Let_def min_def map_idI)

lemma stored_template:
  assumes "templates_inv s" and "distinct (gkeys (sv_templates s))" and "t \<in> set (map snd (sv_templates s))"
  shows "map_of (sv_templates s) (tpl_id t) = Some t" and "map_of (sv_template_name_ids s) (tpl_name t) = Some (tpl_id t)"
proof -
  from assms(3) obtain i where "(i, t) \<in> set (sv_templates s)" by auto
  then have i: "map_of (sv_templates s) i = Some t" using assms(2) by simp
  with assms(1) have "tpl_id t = i" "map_of (sv_template_name_ids s) (tpl_name t) = Some i"
    unfolding templates_inv_def by blast+
  with i show "map_of (sv_templates s) (tpl_id t) = Some t" "map_of (sv_template_name_ids s) (tpl_name t) = Some (tpl_id t)" by simp_all
qed

lemma listed_stored:
  "t \<in> set (take n (newest_first c (name_matches ref s))) \<Longrightarrow> t \<in> set (map snd (sv_templates s))"
  by (auto dest!: in_set_takeD simp: newest_first_def name_matches_def)


lemma find_map_SomeD: "find P (map f xs) = Some y \<Longrightarrow> \<exists>x \<in> set xs. y = f x \<and> P y"
  by (induction xs) (auto split: if_splits)

definition page_hit :: "string \<Rightarrow> command_template list \<Rightarrow> (string \<times> string) option" where
  "page_hit ref ts = find (\<lambda>(i, name). name = ref \<or> i = ref) (map (\<lambda>t. (tpl_id t, tpl_name t)) ts)"

text \<open>What the client makes of the page.\<close>

lemma looked_up:
  fixes w :: wire and cenv :: cli_env and app :: app and s :: service
  assumes "ce_build_err cenv ''GET'' (app_base_url app @ ''/v1/command-templates'') = None"
    and "q = make_request cenv app ''GET'' ''/v1/command-templates'' (lookup_query ref) None"
    and "ce_server cenv q = center_answer w env s q"
    and "api_serve env (wire_request w q) s = (res, s')"
    and "\<forall>v. body_json (wi_fmt w) (hs_body res) = Some v \<longrightarrow> ce_decode_any cenv (wi_enc w v) = Inr v"
    and "caller env (wire_request w q) = Some d" and "d \<in> {DomainClient, DomainAdmin}"
  shows "resolve_template_ref cenv app ref =
    ([q], case page_hit ref (take 200 (newest_first tpl_created_at (name_matches ref s))) of None \<Rightarrow> ref | Some (i, name) \<Rightarrow> i)"
proof -
  let ?r = "wire_request w q"
  have q: "cq_method q = ''GET''" "cq_path q = ''/v1/command-templates''" "cq_query q = lookup_query ref" "cq_body q = None"
    by (simp_all add: assms(2) make_request_def)
  have mux: "mux_dispatch api_patterns (rq_method ?r) (rq_path ?r) = Serve (ListTemplates, [DomainClient, DomainAdmin])"
    using mux_list_templates by (simp add: wire_request_def received_def q)
  obtain meta where serve: "api_serve env ?r s = handle_list_templates env ?r meta (snd (with_request_id ?r s))"
    using served [OF mux, of env d s] assms(6,7) by (auto simp: route_handler_def)
  have "rq_query ?r = lookup_query ref" by (simp add: wire_request_def received_def q)
  note lookup_params [OF this]
  then have res: "res = write_json (rm_request_id meta) 200 (BodyTemplates (list_templates (lookup_filter ref) s))"
    using serve assms(4) by (simp add: handle_list_templates_def Let_def lookup_filter_def list_templates_def)
  have "ce_decode_any cenv (body_text (wi_enc w) (wi_fmt w) (hs_body res)) =
      Inr (page_json (template_json (wi_fmt w)) (list_templates (lookup_filter ref) s))"
    using assms(5) by (simp add: res write_json_def body_text_def)
  moreover have "hs_status res = 200" by (simp add: res write_json_def)
  ultimately show ?thesis
    using assms(3,4) unfolding resolve_template_ref_def
    by (simp add: send_request_def Let_def assms(1) center_answer_def decode_into_def template_page_viewed lookup_page page_hit_def
        flip: assms(2) lookup_query_def)
qed

section \<open>Property\<close>

text \<open>C15: Looking a template up before using it does not change which template is used.  The client sends one
  request; whatever page it gets back, the server resolves what the client made of the name to the same
  template (or to the same error) as the name itself, provided no template is called like the id of another.
  And when at most 200 templates have names that contain it, the client finds the id of the template of
  that name, so that names which the server cannot take in an invocation, because it replaces \<open>:\<close> by \<open>.\<close> in
  them, work through the client.\<close>

theorem client_template_ref:
  fixes w :: wire and cenv :: cli_env and app :: app and s :: service
  assumes "templates_inv s" and "distinct (gkeys (sv_templates s))"
    and "map_of (sv_templates s) ref = None \<or> map_of (sv_template_name_ids s) ref = None"
    and "ce_build_err cenv ''GET'' (app_base_url app @ ''/v1/command-templates'') = None"
    and "q = make_request cenv app ''GET'' ''/v1/command-templates'' (lookup_query ref) None"
    and "ce_server cenv q = center_answer w env s q"
    and "api_serve env (wire_request w q) s = (res, s')"
    and "\<forall>v. body_json (wi_fmt w) (hs_body res) = Some v \<longrightarrow> ce_decode_any cenv (wi_enc w v) = Inr v"
    and "caller env (wire_request w q) = Some d" and "d \<in> {DomainClient, DomainAdmin}"
  shows "fst (resolve_template_ref cenv app ref) = [q] \<and>
    resolve_template (snd (resolve_template_ref cenv app ref)) s = resolve_template ref s \<and>
    (\<forall>i. map_of (sv_template_name_ids s) ref = Some i \<and> length (name_matches ref s) \<le> 200 \<longrightarrow>
       snd (resolve_template_ref cenv app ref) = i)"
proof -
  let ?page = "take 200 (newest_first tpl_created_at (name_matches ref s))"
  note run = looked_up [OF assms(4-10)]
  show ?thesis
  proof (cases "page_hit ref ?page")
    case None
    have False if n: "map_of (sv_template_name_ids s) ref = Some i" and few: "length (name_matches ref s) \<le> 200" for i
    proof -
      from assms(1) n obtain t where t: "map_of (sv_templates s) i = Some t" "tpl_name t = ref"
        unfolding templates_inv_def by blast
      then have "t \<in> set (map snd (sv_templates s))" by (force dest: map_of_SomeD)
      then have "t \<in> set ?page"
        using t(2) few by (auto simp: newest_first_def name_matches_def template_matches_def lookup_filter_def str_contains_self)
      with None t(2) show False by (auto simp: page_hit_def find_None_iff)
    qed
    with None run show ?thesis by auto
  next
    case (Some p)
    obtain t where t: "t \<in> set ?page" "p = (tpl_id t, tpl_name t)" "tpl_name t = ref \<or> tpl_id t = ref"
      using find_map_SomeD [OF Some [unfolded page_hit_def]] by auto
    note st = stored_template [OF assms(1,2) listed_stored [OF t(1)]]
    have "resolve_template (tpl_id t) s = resolve_template ref s"
      using t(3) st assms(3) by (auto simp: resolve_template_def)
    moreover have "tpl_id t = i" if "map_of (sv_template_name_ids s) ref = Some i" for i
      using that t(3) st assms(3) by auto
    ultimately show ?thesis using run Some t(2) by simp
  qed
qed

definition lookup_request :: cli_request where
  "lookup_request = make_request sample_cli toy_app ''GET'' ''/v1/command-templates'' (lookup_query ''a:b'') None"

definition lookup_wire :: wire where
  "lookup_wire = \<lparr>wi_enc = (\<lambda>_. ''a''), wi_fmt = json_int, wi_status = dec_of_int\<rparr>"

definition lookup_answer :: gany where
  "lookup_answer = (case body_json json_int (hs_body (fst (api_serve sample_http (wire_request lookup_wire lookup_request) colon_service))) of
     Some v \<Rightarrow> v | None \<Rightarrow> GNil)"

definition lookup_client :: cli_env where
  "lookup_client = sample_cli\<lparr>ce_server := center_answer lookup_wire sample_http colon_service, ce_decode_any := (\<lambda>_. Inr lookup_answer)\<rparr>"

text \<open>The template \<open>a:b\<close> (\<open>colon_name_unreachable\<close>) is found through the client.\<close>

lemma client_template_ref_witness:
  "resolve_template_ref lookup_client toy_app ''a:b'' = ([lookup_request], ''t1'') \<and>
   resolve_template ''t1'' colon_service = resolve_template ''a:b'' colon_service"
proof -
  obtain res s' where serve: "api_serve sample_http (wire_request lookup_wire lookup_request) colon_service = (res, s')" by fastforce
  have schema: "schema_valid [(''type'', GStr ''object'')]"
    by (simp add: schema_valid_def schema_props_def gidx_def as_map_def)
  have inv: "templates_inv colon_service"
    by (auto simp: templates_inv_def colon_service_def template_ok_def sample_template_def trim_visible_words validate_risk_def
        schema risk_defs split: if_splits)
  have keys: "distinct (gkeys (sv_templates colon_service))" and no_id: "map_of (sv_templates colon_service) ''a:b'' = None"
    and name: "map_of (sv_template_name_ids colon_service) ''a:b'' = Some ''t1''"
    and few: "length (name_matches ''a:b'' colon_service) \<le> 200"
    by (simp_all add: colon_service_def name_matches_def)
  have e: "ce_build_err lookup_client ''GET'' (app_base_url toy_app @ ''/v1/command-templates'') = None"
    by (simp add: lookup_client_def sample_cli_def)
  have a: "lookup_request = make_request lookup_client toy_app ''GET'' ''/v1/command-templates'' (lookup_query ''a:b'') None"
    by (simp add: make_request_def lookup_client_def lookup_request_def)
  have f: "ce_server lookup_client lookup_request = center_answer lookup_wire sample_http colon_service lookup_request"
    by (simp add: lookup_client_def)
  have "lookup_answer = (case body_json json_int (hs_body res) of Some v \<Rightarrow> v | None \<Rightarrow> GNil)"
    by (simp only: lookup_answer_def serve fst_conv)
  then have "body_json json_int (hs_body res) = Some v \<Longrightarrow> lookup_answer = v" for v by simp
  then have h: "\<forall>v. body_json (wi_fmt lookup_wire) (hs_body res) = Some v \<longrightarrow>
      ce_decode_any lookup_client (wi_enc lookup_wire v) = Inr v"
    by (simp add: lookup_client_def lookup_wire_def)
  have "caller sample_http (wire_request lookup_wire lookup_request) = caller sample_http (http_get ''c1'' [])"
    by (simp add: caller_def wire_request_def received_def http_get_def make_request_def lookup_request_def toy_app_def)
  then have c: "caller sample_http (wire_request lookup_wire lookup_request) = Some DomainClient" by (simp add: sample_caller)
  have d: "DomainClient \<in> {DomainClient, DomainAdmin}" by simp
  note same = client_template_ref [OF inv keys disjI1 [OF no_id] e a f serve h c d]
  then have "snd (resolve_template_ref lookup_client toy_app ''a:b'') = ''t1''" using name few by blast
  with same show ?thesis by (metis prod.collapse)
qed

end
