(* ===== verification/End_To_End.thy ===== *)
theory End_To_End
  imports Agent_Core Admin_Exec
begin

text \<open>
  One tool call across the components: the request that \<open>Router.Send\<close> puts on the stream, the agent
  that dispatches and runs it, and the response that ends the call.
\<close>

section \<open>From the router to the agent and back\<close>

text \<open>What a call returns for what the agent's table of tools makes of it.\<close>

definition call_outcome :: "string \<Rightarrow> (handled \<times> agent) option \<Rightarrow> outcome" where
  "call_outcome tool x = (case x of
       None \<Rightarrow> (''error'', Inl (GoErr SNone (''agent error [TOOL_NOT_FOUND]: tool '' @ go_quote tool @ '' not found'')))
     | Some (Answer json, _) \<Rightarrow> (''success'', Inr json)
     | Some (Failed e, _) \<Rightarrow> (''error'', Inl (GoErr SNone (''agent error [TOOL_ERROR]: '' @ e)))
     | Some (Panicked, _) \<Rightarrow> (''error'', Inl (GoErr SNone [])))"

lemma dispatch_request:
  "agent_dispatch (tool_request_msg c) a =
     a\<lparr>ag_cancel_fns := gupd (cl_rid c) (length (ag_tasks a)) (ag_cancel_fns a),
       ag_tasks := ag_tasks a @ [\<lparr> tk_id = cl_rid c, tk_tool = cl_tool c, tk_args = cl_args c, tk_canceled = False, tk_done = False \<rparr>]\<rparr>"
  by (simp add: agent_dispatch_def tool_request_msg_def get_cancel_request_def get_tool_request_def)

definition answer_msg :: "string \<Rightarrow> string \<Rightarrow> (handled \<times> agent) option \<Rightarrow> tunnel_msg" where
  "answer_msg rid tool x = (case x of
       None \<Rightarrow> error_msg rid ''TOOL_NOT_FOUND'' (''tool '' @ go_quote tool @ '' not found'')
     | Some (Answer json, _) \<Rightarrow> MToolResponse rid json
     | Some (Failed e, _) \<Rightarrow> error_msg rid ''TOOL_ERROR'' e
     | Some (Panicked, _) \<Rightarrow> error_msg rid [] [])"

lemma task_run_answers:
  assumes "agent_handler h ctx (tk_tool (ag_tasks a ! k)) (tk_args (ag_tasks a ! k)) a = x"
    and "\<forall>a'. x \<noteq> Some (Panicked, a')"
  shows "ag_out (task_run h ctx k a) = ag_out a @ [answer_msg (tk_id (ag_tasks a ! k)) (tk_tool (ag_tasks a ! k)) x]"
proof (cases x)
  case None
  with assms(1) show ?thesis by (simp add: task_run_def task_finish_def answer_msg_def Let_def)
next
  case (Some p)
  obtain y a' where p: "p = (y, a')" by (cases p)
  with assms(1) Some have "ag_out a' = ag_out a" using handler_same_tasks by (simp add: same_tasks_def)
  with assms Some p show ?thesis
    by (cases y) (simp_all add: task_run_def task_finish_def answer_msg_def Let_def)
qed

lemma answer_outcome:
  "\<forall>a'. x \<noteq> Some (Panicked, a') \<Longrightarrow>
     response_id (answer_msg rid tool x) = Some rid \<and> reply_outcome (answer_msg rid tool x) = call_outcome tool x"
  by (auto simp: answer_msg_def call_outcome_def error_msg_def response_id_def reply_outcome_def
      split: option.split prod.split handled.split)

text \<open>C6: A tool call, end to end: for a call that waits under an id of its own, let the agent receive
  the request the router has sent, run it and send its answer back.  Then the agent sends exactly
  one message, the router hands it to that call, the call returns what the tool of that name made of
  the arguments, its error text included, and the id is free again; only a panic in a tool leaves
  the call to its timeout.\<close>

theorem tool_call_end_to_end:
  assumes "reach t es r" and "distinct (call_ids r)" and "i < length (rt_calls r)"
    and "cl_phase (rt_calls r ! i) = Waiting" and "cl_buf (rt_calls r ! i) = None" and "c = rt_calls r ! i"
    and "a1 = agent_dispatch (tool_request_msg c) a"
    and "agent_handler h ctx (cl_tool c) (cl_args c) a1 = x" and "\<forall>a'. x \<noteq> Some (Panicked, a')"
  shows "\<exists>m r'. ag_out (task_run h ctx (length (ag_tasks a)) a1) = ag_out a @ [m] \<and>
    router_run [EvDeliver m, EvReceive i, EvReturn i] r = Some r' \<and>
    cl_phase (rt_calls r' ! i) = Returned (call_outcome (cl_tool c) x) \<and> map_of (rt_pending r') (cl_rid c) = None"
proof -
  let ?m = "answer_msg (cl_rid c) (cl_tool c) x"
  have task: "ag_tasks a1 ! length (ag_tasks a) =
      \<lparr> tk_id = cl_rid c, tk_tool = cl_tool c, tk_args = cl_args c, tk_canceled = False, tk_done = False \<rparr>"
    and out: "ag_out a1 = ag_out a"
    by (simp_all add: assms(7) dispatch_request)
  have "ag_out (task_run h ctx (length (ag_tasks a)) a1) = ag_out a1 @ [?m]"
    using task_run_answers [of h ctx a1 "length (ag_tasks a)" x] assms(8,9) task by simp
  then have sent: "ag_out (task_run h ctx (length (ag_tasks a)) a1) = ag_out a @ [?m]" by (simp add: out)
  have m: "response_id ?m = Some (cl_rid c)" "reply_outcome ?m = call_outcome (cl_tool c) x"
    using answer_outcome [OF assms(9)] by simp_all
  have p: "map_of (rt_pending r) (cl_rid c) = Some i"
    using reach_all_filed [OF assms(1,2)] assms(3,4,6) by (simp add: all_filed_def)
  have b: "cl_buf c = None" "cl_phase c = Waiting" using assms(4-6) by simp_all
  have "\<exists>r'. router_run [EvDeliver ?m, EvReceive i, EvReturn i] r = Some r' \<and>
      cl_phase (rt_calls r' ! i) = Returned (call_outcome (cl_tool c) x) \<and> map_of (rt_pending r') (cl_rid c) = None"
    using assms(3) b p m
    by (simp add: deliver_from_message_def deliver_def set_phase_def flip: assms(6))
  with sent show ?thesis by (intro exI [where x = ?m]) simp
qed

lemma stat_srv:
  "answered (te_stat (ah_codec sample_host)) (stat_file (agent_env sample_host (new_agent running_config agent_fs))
     (agent_path_guard (new_agent running_config agent_fs)) (tc_path (ah_codec sample_host) ''/srv'')) = Answer ''{}''"
  by code_simp

definition stat_call :: "router_event list" where
  "stat_call = [EvStart ''q'' (fst two_agents) ''stat_file'' ''/srv'', EvSent 0 None]"

theorem tool_call_end_to_end_witness:
  "\<exists>r m r'. router_run stat_call (router_new 5) = Some r \<and>
     router_run [EvDeliver m, EvReceive 0, EvReturn 0] r = Some r' \<and> cl_phase (rt_calls r' ! 0) = Returned (''success'', Inr ''{}'')"
proof -
  let ?a = "new_agent running_config agent_fs"
  obtain r where r: "router_run stat_call (router_new 5) = Some r"
    and c: "map (\<lambda>c. (cl_rid c, cl_tool c, cl_args c, cl_phase c, cl_buf c)) (rt_calls r) = [(''q'', ''stat_file'', ''/srv'', Waiting, None)]"
    by (simp add: stat_call_def run_simps)
  from c obtain c0 where c0: "rt_calls r = [c0]" "cl_rid c0 = ''q''" "cl_tool c0 = ''stat_file''" "cl_args c0 = ''/srv''"
    "cl_phase c0 = Waiting" "cl_buf c0 = None" by (auto simp: map_eq_Cons_conv)
  let ?a1 = "agent_dispatch (tool_request_msg c0) ?a"
  have same: "agent_env sample_host ?a1 = agent_env sample_host ?a" "agent_path_guard ?a1 = agent_path_guard ?a"
    by (simp_all add: dispatch_request agent_env_def agent_path_guard_def)
  have h: "agent_handler sample_host None (cl_tool c0) (cl_args c0) ?a1 = Some (Answer ''{}'', ?a1)"
    using stat_srv by (simp add: agent_handler_def c0(3,4) same Let_def)
  have reach: "reach 5 stat_call r" using r by (simp add: reach_run)
  have d: "distinct (call_ids r)" by (simp add: call_ids_def c0(1))
  have i: "0 < length (rt_calls r)" "rt_calls r ! 0 = c0" by (simp_all add: c0(1))
  have ph: "cl_phase (rt_calls r ! 0) = Waiting" "cl_buf (rt_calls r ! 0) = None" by (simp_all add: i(2) c0(5,6))
  obtain m r' where "router_run [EvDeliver m, EvReceive 0, EvReturn 0] r = Some r'"
    and "cl_phase (rt_calls r' ! 0) = Returned (call_outcome (cl_tool c0) (Some (Answer ''{}'', ?a1)))"
    using tool_call_end_to_end [OF reach d i(1) ph i(2) [symmetric] refl h] by auto
  with r show ?thesis by (intro exI conjI) (auto simp: call_outcome_def)
qed

section \<open>How a denial reads at the other end\<close>

text \<open>The refusals of the path guard do not contain the word the classification looks for, so a
  blocked path reaches the client as an internal error and not as a denied one.\<close>

lemma guard_denial_is_internal_error:
  "ie_code (classify_invoke_error ''n1'' (GoErr SNone (''agent error [TOOL_ERROR]: '' @
     ''fileops: path '' @ go_quote ''/etc/shadow'' @ '' is blocked''))) = ''INTERNAL_ERROR''"
  "ie_code (classify_invoke_error ''n1'' (GoErr SNone (''agent error [TOOL_ERROR]: '' @
     ''fileops: path '' @ go_quote ''/srv'' @ '' is not in allowed paths''))) = ''INTERNAL_ERROR''"
  by code_simp+

end
