(* ===== verification/Web_Ui.thy ===== *)
theory Web_Ui
  imports Http_Lib
begin

text \<open>
  The center's outer mux (\<open>internal/sysplane-center/run.go\<close>) and the handler of the embedded web
  pages (\<open>internal/sysplane-center/webui/handler.go\<close>).  The embedded files and the table of MIME
  types are parameters; the name looked up is computed here.
\<close>

section \<open>The outer mux\<close>

datatype center_route = InternalForward | RedirectToWeb | WebPages | Api

definition center_pattern :: "string list \<Rightarrow> bool \<Rightarrow> center_route \<Rightarrow> center_route mux_pattern" where
  "center_pattern segs sub rt = \<lparr>mp_method = None, mp_segs = segs, mp_subtree = sub, mp_handler = rt\<rparr>"

definition center_patterns :: "center_route mux_pattern list" where
  "center_patterns =
     [center_pattern [''internal'', ''forward''] False InternalForward,
      center_pattern [] True RedirectToWeb,
      center_pattern [''web''] False RedirectToWeb,
      center_pattern [''web''] True WebPages,
      center_pattern [''v1''] True Api]"

section \<open>Web pages\<close>

text \<open>\<open>path.Base\<close> and \<open>path.Ext\<close> of a name without trailing slashes.\<close>

definition path_base :: "string \<Rightarrow> string" where
  "path_base p = last (split_char slash p)"

definition path_ext :: "string \<Rightarrow> string" where
  "path_ext p =
     (let b = path_base p in
      if CHR ''.'' \<in> set b then CHR ''.'' # last (split_char (CHR ''.'') b) else [])"

record web_response =
  wr_status :: int
  wr_content_type :: string
  wr_body :: string

definition serve_embedded_file :: "(string \<Rightarrow> string option) \<Rightarrow> (string \<Rightarrow> string) \<Rightarrow> string \<Rightarrow> web_response" where
  "serve_embedded_file static mime name =
     (case static name of
        None \<Rightarrow> \<lparr>wr_status = 404, wr_content_type = [], wr_body = []\<rparr>
      | Some data \<Rightarrow>
          \<lparr>wr_status = 200,
           wr_content_type = (if mime (path_ext name) = [] then ''application/octet-stream'' else mime (path_ext name)),
           wr_body = data\<rparr>)"

definition web_name :: "string \<Rightarrow> string" where
  "web_name url_path =
     (let clean = trim_prefix (path_clean (''/'' @ url_path)) ''/'' in
      if clean = ''.'' \<or> clean = [] \<or> \<not> str_contains (path_base clean) ''.'' then ''index.html'' else clean)"

definition web_handler :: "(string \<Rightarrow> string option) \<Rightarrow> (string \<Rightarrow> string) \<Rightarrow> string \<Rightarrow> web_response" where
  "web_handler static mime url_path = serve_embedded_file static mime (web_name url_path)"

text \<open>Whatever path is asked for, the name looked up among the embedded files is \<open>index.html\<close> or a
  relative path without empty, \<open>.\<close> or \<open>..\<close> elements, which is what \<open>fs.ReadFile\<close> accepts.\<close>

lemma web_name_valid:
  "\<forall>c \<in> set (split_char slash (web_name p)). c \<noteq> [] \<and> c \<noteq> ''.'' \<and> c \<noteq> ''..''"
proof -
  let ?cs = "path_comps (''/'' @ p)"
  have ok: "clean_ok True ?cs" using path_comps_ok [of "''/'' @ p"] by simp
  then have plain: "\<forall>c \<in> set ?cs. c \<noteq> [] \<and> c \<noteq> ''.'' \<and> slash \<notin> set c \<and> c \<noteq> ''..''"
    by (auto simp: clean_ok_def plain_comp_def)
  have clean: "trim_prefix (path_clean (''/'' @ p)) ''/'' = join_char slash ?cs"
    by (simp add: path_clean_spell spell_path_def trim_prefix_def has_prefix_def)
  show ?thesis
  proof (cases "web_name p = ''index.html''")
    case True
    then show ?thesis by simp
  next
    case False
    then have n: "web_name p = join_char slash ?cs \<and> join_char slash ?cs \<noteq> []"
      unfolding web_name_def clean Let_def by (simp split: if_splits)
    then have "?cs \<noteq> []" by auto
    with n plain show ?thesis by (simp add: split_join_char)
  qed
qed

end
