(* ===== verification/Start_Up.thy ===== *)
theory Start_Up
  imports Ha_Bridge Tls_Conf Web_Ui Go_Flags Proxy_Tunnel Agent_Core
begin

text \<open>
  How the three daemons start and end: \<open>Run\<close> and \<open>setupStore\<close> of the center, the connection pool
  of \<open>store.New\<close>, \<open>Migrate\<close> and \<open>Close\<close>, \<open>Run\<close> of the proxy and of the agent, and the \<open>main\<close>
  functions.  What the start builds is the state the other theories begin with: \<open>new_center\<close>,
  \<open>new_proxy\<close> and \<open>new_agent\<close> and the settings of their services.

  Parameters are what the operating system and the database answer: files, the YAML decoder, the
  host name, key material, PostgreSQL, and how each server ended.  An \<open>errgroup\<close> returns the first
  error in the order in which its functions return, so the ends are given in that order.
\<close>

section \<open>The connection pool\<close>

text \<open>\<open>pgxpool\<close>: \<open>ParseConfig\<close> gives the limit of connections of the DSN; then connecting, the
  ping, and the migration may fail.  The migration only creates what does not exist, so the tables of
  \<open>Store\<close> stay as they are.\<close>

record db_env =
  de_parse :: "string \<Rightarrow> int go_result"
  de_connect :: "string \<Rightarrow> int \<Rightarrow> string option"
  de_ping :: "string option"
  de_migrate :: "string option"
  de_register :: "string option"
  de_now :: int

record db_state =
  dbs_pools :: "int list"
  dbs_tables :: store

definition int32 :: "int \<Rightarrow> int" where
  "int32 n = sint (word_of_int n :: 32 word)"

definition store_close :: "db_state \<Rightarrow> db_state" where
  "store_close s = s\<lparr>dbs_pools := tl (dbs_pools s)\<rparr>"

definition store_new :: "db_env \<Rightarrow> string \<Rightarrow> int \<Rightarrow> db_state \<Rightarrow> unit go_result \<times> db_state" where
  "store_new env dsn max_conns s =
     (case de_parse env dsn of
        Inl e \<Rightarrow> (Inl (''store: parse DSN: '' @ e), s)
      | Inr dsn_max \<Rightarrow>
          let conns = (if max_conns > 0 then max_conns else dsn_max) in
          case de_connect env dsn conns of
            Some e \<Rightarrow> (Inl (''store: connect: '' @ e), s)
          | None \<Rightarrow>
              let s1 = s\<lparr>dbs_pools := conns # dbs_pools s\<rparr> in
              case de_ping env of
                Some e \<Rightarrow> (Inl (''store: ping: '' @ e), store_close s1)
              | None \<Rightarrow> (Inr (), s1))"

definition migrate :: "db_env \<Rightarrow> db_state \<Rightarrow> string option \<times> db_state" where
  "migrate env s = (de_migrate env, s)"

section \<open>The center\<close>

definition center_registrar :: "center_config \<Rightarrow> string \<Rightarrow> registrar" where
  "center_registrar cfg inst = \<lparr>rg_instance = inst, rg_address = cc_ha_internal_address cfg\<rparr>"

definition center_bridge :: "center_config \<Rightarrow> string \<Rightarrow> router_bridge" where
  "center_bridge cfg inst = \<lparr>rb_instance = inst, rb_secret = cc_ha_internal_secret cfg,
     rb_use_tls = cc_ha_internal_use_tls cfg, rb_skip_verify = cc_ha_internal_skip_verify cfg\<rparr>"

text \<open>\<open>setupStore\<close>: on a failure after the pool is open, the pool is closed before the error is
  returned.\<close>

definition setup_store :: "db_env \<Rightarrow> center_config \<Rightarrow> string \<Rightarrow> db_state \<Rightarrow> router_bridge go_result \<times> db_state" where
  "setup_store env cfg inst s =
     (case store_new env (cc_db_dsn cfg) (int32 (cc_db_max_conns cfg)) s of
        (Inl e, s1) \<Rightarrow> (Inl (''connect to PostgreSQL: '' @ e), s1)
      | (Inr _, s1) \<Rightarrow>
          (case migrate env s1 of
             (Some e, s2) \<Rightarrow> (Inl (''database migration: '' @ e), store_close s2)
           | (None, s2) \<Rightarrow>
               (case registrar_start (center_registrar cfg inst) (de_register env) (de_now env) (dbs_tables s2) of
                  (Some e, tables) \<Rightarrow>
                    (Inl (''register center instance: '' @ e), store_close (s2\<lparr>dbs_tables := tables\<rparr>))
                | (None, tables) \<Rightarrow> (Inr (center_bridge cfg inst), s2\<lparr>dbs_tables := tables\<rparr>))))"

text \<open>What \<open>Run\<close> has built when it starts its servers.  The store of \<open>sy_center\<close> is the persister of
  the tunnel service and the callback of the offline checker, \<open>sy_call_log\<close> says whether calls are
  logged, \<open>sy_forwarder\<close> is the remote forwarder.\<close>

text \<open>The settings of the gRPC server and of the HTTP servers, in seconds; \<open>None\<close> is no limit.\<close>

record grpc_keepalive =
  gk_max_idle :: int
  gk_time :: int
  gk_timeout :: int
  gk_min_time :: int
  gk_permit_without_stream :: bool

definition center_keepalive :: grpc_keepalive where
  "center_keepalive = \<lparr>gk_max_idle = 60, gk_time = 30, gk_timeout = 10, gk_min_time = 10,
     gk_permit_without_stream = True\<rparr>"

record http_timeouts =
  ht_read_header :: int
  ht_read :: int
  ht_write :: int
  ht_idle :: "int option"

definition api_timeouts :: http_timeouts where
  "api_timeouts = \<lparr>ht_read_header = 10, ht_read = 30, ht_write = 60, ht_idle = Some 120\<rparr>"

definition metrics_timeouts :: http_timeouts where
  "metrics_timeouts = \<lparr>ht_read_header = 10, ht_read = 30, ht_write = 60, ht_idle = None\<rparr>"

datatype server =
    GrpcServer string credentials grpc_keepalive
  | HttpServer string "(string \<times> string) option" "center_route mux_pattern list" http_timeouts
  | MetricsServer string http_timeouts

record center_system =
  sy_log_level :: log_level
  sy_service :: tunnel_service
  sy_center :: center
  sy_call_log :: bool
  sy_forwarder :: "router_bridge option"
  sy_servers :: "server list"

record center_host =
  ch_sha :: sha256
  ch_read_file :: "string \<Rightarrow> string go_result"
  ch_yaml :: "string \<Rightarrow> center_config go_result"
  ch_hostname :: "string go_result"
  ch_tls :: tls_env
  ch_db :: db_env

definition instance_id :: "center_host \<Rightarrow> center_config \<Rightarrow> string" where
  "instance_id h cfg = (case ch_hostname h of Inl _ \<Rightarrow> [] | Inr n \<Rightarrow> n) @ cc_grpc_address cfg"

definition http_tls :: "center_config \<Rightarrow> (string \<times> string) option" where
  "http_tls cfg = (let t = cc_tls cfg in
     if tf_cert t \<noteq> [] \<and> tf_key t \<noteq> [] then Some (tf_cert t, tf_key t) else None)"

definition center_servers :: "center_config \<Rightarrow> credentials \<Rightarrow> server list" where
  "center_servers cfg creds =
     [GrpcServer (cc_grpc_address cfg) creds center_keepalive,
      HttpServer (cc_http_address cfg) (http_tls cfg) center_patterns api_timeouts] @
     (if cc_metrics_enable cfg then [MetricsServer (cc_metrics_address cfg) metrics_timeouts] else [])"

text \<open>The part of \<open>Run\<close> after the store, with the bridge when the database is enabled.  Once the store
  is open, \<open>defer st.Close()\<close> runs on every way out.\<close>

definition center_build ::
  "center_host \<Rightarrow> center_config \<Rightarrow> catalog \<Rightarrow> router_bridge option \<Rightarrow> db_state \<Rightarrow> center_system go_result" where
  "center_build h cfg cat bridge s =
     (case build_grpc_server_option (ch_tls h) cfg of
        Inl e \<Rightarrow> Inl e
      | Inr creds \<Rightarrow> Inr
          \<lparr>sy_log_level = parse_level (lg_level (cc_logging cfg)),
           sy_service = \<lparr>ts_catalog = cat, ts_instance = instance_id h cfg\<rparr>,
           sy_center = new_center (cc_request_timeout_sec cfg)
             (if bridge = None then None else Some (dbs_tables s)),
           sy_call_log = (bridge \<noteq> None), sy_forwarder = bridge,
           sy_servers = center_servers cfg creds\<rparr>)"

definition center_deferred :: "router_bridge option \<Rightarrow> db_state \<Rightarrow> db_state" where
  "center_deferred bridge s = (if bridge = None then s else store_close s)"

definition center_boot :: "center_host \<Rightarrow> string \<Rightarrow> db_state \<Rightarrow> center_system go_result \<times> db_state" where
  "center_boot h path s =
     (case center_load (ch_sha h) (ch_read_file h) (ch_yaml h) path of
        Inl e \<Rightarrow> (Inl (''load config: '' @ e), s)
      | Inr cfg \<Rightarrow>
     (case new_catalog (ch_sha h) (cc_client_tokens cfg) (cc_admin_tokens cfg)
             (cc_agent_tokens cfg) (cc_proxy_tokens cfg) of
        Inl e \<Rightarrow> (Inl (''build token catalog: '' @ e), s)
      | Inr cat \<Rightarrow>
     (case (if cc_db_enable cfg
            then (case setup_store (ch_db h) cfg (instance_id h cfg) s of
                    (Inl e, s1) \<Rightarrow> (Inl e, s1) | (Inr b, s1) \<Rightarrow> (Inr (Some b), s1))
            else (Inr None, s)) of
        (Inl e, s1) \<Rightarrow> (Inl e, s1)
      | (Inr bridge, s1) \<Rightarrow>
          (case center_build h cfg cat bridge s1 of
             Inl e \<Rightarrow> (Inl e, center_deferred bridge s1)
           | Inr sys \<Rightarrow> (Inr sys, s1)))))"

section \<open>Ends of servers\<close>

datatype run_err = RunCanceled | RunErr string

datatype server_end =
    GrpcListenFailed string
  | GrpcServed "string option"
  | HttpEnded "string option"      \<comment> \<open>\<open>None\<close> is \<open>http.ErrServerClosed\<close>\<close>
  | MetricsEnded "string option"

fun grpc_address :: "server list \<Rightarrow> string" where
  "grpc_address (GrpcServer a _ _ # ss) = a"
| "grpc_address (_ # ss) = grpc_address ss"
| "grpc_address [] = []"

fun http_with_tls :: "server list \<Rightarrow> bool" where
  "http_with_tls (HttpServer _ t _ _ # ss) \<longleftrightarrow> t \<noteq> None"
| "http_with_tls (_ # ss) \<longleftrightarrow> http_with_tls ss"
| "http_with_tls [] \<longleftrightarrow> False"

fun server_error :: "server list \<Rightarrow> server_end \<Rightarrow> run_err option" where
  "server_error ss (GrpcListenFailed e) = Some (RunErr (''gRPC listen '' @ grpc_address ss @ '': '' @ e))"
| "server_error ss (GrpcServed e) = map_option RunErr e"
| "server_error ss (HttpEnded e) =
     map_option (\<lambda>t. RunErr ((if http_with_tls ss then ''HTTPS server: '' else ''HTTP server: '') @ t)) e"
| "server_error ss (MetricsEnded e) = map_option (\<lambda>t. RunErr (''metrics server: '' @ t)) e"

text \<open>\<open>errgroup.Group.Wait\<close>, and the test both \<open>Run\<close> functions make on its result.\<close>

fun group_wait :: "run_err option list \<Rightarrow> run_err option" where
  "group_wait [] = None"
| "group_wait (None # es) = group_wait es"
| "group_wait (Some e # es) = Some e"

definition run_result :: "run_err option \<Rightarrow> string option" where
  "run_result e = (case e of Some (RunErr t) \<Rightarrow> Some t | _ \<Rightarrow> None)"

definition center_run :: "center_host \<Rightarrow> string \<Rightarrow> server_end list \<Rightarrow> db_state \<Rightarrow> string option \<times> db_state" where
  "center_run h path ends s =
     (case center_boot h path s of
        (Inl e, s1) \<Rightarrow> (Some e, s1)
      | (Inr sys, s1) \<Rightarrow>
          (run_result (group_wait (map (server_error (sy_servers sys)) ends)),
           center_deferred (sy_forwarder sys) s1))"

section \<open>The proxy\<close>

record proxy_host =
  ph_sha :: sha256
  ph_read_file :: "string \<Rightarrow> string go_result"
  ph_yaml :: "string \<Rightarrow> proxy_config go_result"
  ph_hostname :: "string go_result"
  ph_tls :: tls_env

record proxy_system =
  py_log_level :: log_level
  py_service :: proxy_service
  py_proxy :: proxy
  py_endpoint :: string
  py_register :: tunnel_msg
  py_credentials :: credentials
  py_dialer :: dialer_config

definition proxy_boot :: "proxy_host \<Rightarrow> proxy_config \<Rightarrow> proxy_system go_result" where
  "proxy_boot h cfg =
     (case new_catalog (ph_sha h) [] [] (pc_agent_tokens cfg) (pc_proxy_tokens cfg) of
        Inl e \<Rightarrow> Inl (''build token catalog: '' @ e)
      | Inr cat \<Rightarrow>
     (case build_upstream_creds (ph_tls h) cfg of
        Inl e \<Rightarrow> Inl (''upstream TLS config: '' @ e)
      | Inr creds \<Rightarrow> Inr
          \<lparr>py_log_level = parse_level (lg_level (pc_logging cfg)),
           py_service = \<lparr>ps_catalog = cat, ps_hostname = proxy_hostname cfg (ph_hostname h)\<rparr>,
           py_proxy = new_proxy, py_endpoint = pc_upstream_address cfg,
           py_register = proxy_register_msg cfg (ph_hostname h),
           py_credentials = dial_credentials creds, py_dialer = new_dialer proxy_dialer_config\<rparr>))"

text \<open>The two functions of the group: the dialer, and the downstream server, which builds its
  credentials only when it starts.\<close>

datatype proxy_end = DialerEnded "run_err option" | DownstreamEnded "string option" "string option"

fun proxy_end_error :: "tls_env \<Rightarrow> proxy_config \<Rightarrow> proxy_end \<Rightarrow> run_err option" where
  "proxy_end_error env cfg (DialerEnded e) = e"
| "proxy_end_error env cfg (DownstreamEnded listen serve) =
     (case build_downstream_creds env cfg of
        Inl e \<Rightarrow> Some (RunErr (''downstream TLS config: '' @ e))
      | Inr _ \<Rightarrow>
          (case listen of
             Some e \<Rightarrow> Some (RunErr (''downstream listen '' @ pc_grpc_address cfg @ '': '' @ e))
           | None \<Rightarrow> map_option RunErr serve))"

definition proxy_run :: "proxy_host \<Rightarrow> string \<Rightarrow> proxy_end list \<Rightarrow> string option" where
  "proxy_run h path ends =
     (case proxy_load (ph_sha h) (ph_read_file h) (ph_yaml h) path of
        Inl e \<Rightarrow> Some (''load config: '' @ e)
      | Inr cfg \<Rightarrow>
          (case proxy_boot h cfg of
             Inl e \<Rightarrow> Some e
           | Inr sys \<Rightarrow> run_result (group_wait (map (proxy_end_error (ph_tls h) cfg) ends))))"

section \<open>The agent\<close>

record agent_system =
  as_agent :: agent
  as_endpoint :: string
  as_register :: tunnel_msg
  as_credentials :: credentials
  as_dialer :: dialer_config

definition agent_boot ::
  "tls_env \<Rightarrow> agent_config \<Rightarrow> fsys \<Rightarrow> string go_result \<Rightarrow> string \<Rightarrow> string \<Rightarrow> string \<Rightarrow> agent_system go_result" where
  "agent_boot env cfg fs os_hostname goos goarch git_tag =
     (case agent_build_credentials env cfg of
        Inl e \<Rightarrow> Inl e
      | Inr creds \<Rightarrow> Inr
          \<lparr>as_agent = new_agent cfg fs, as_endpoint = ac_upstream_address cfg,
           as_register = agent_register_msg cfg os_hostname goos goarch git_tag,
           as_credentials = creds, as_dialer = new_dialer (agent_dialer_config cfg)\<rparr>)"

text \<open>\<open>run.go\<close> of the agent; \<open>dial\<close> is how the dialer's loop ended.\<close>

definition agent_start ::
  "(string \<Rightarrow> string go_result) \<Rightarrow> (string \<Rightarrow> agent_config go_result)
   \<Rightarrow> (agent_config \<Rightarrow> agent_system go_result) \<Rightarrow> run_err option \<Rightarrow> string \<Rightarrow> run_err option" where
  "agent_start rf yaml boot dial path =
     (case agent_load rf yaml path of
        Inl e \<Rightarrow> Some (RunErr (''load config: '' @ e))
      | Inr cfg \<Rightarrow> (case boot cfg of Inl e \<Rightarrow> Some (RunErr e) | Inr sys \<Rightarrow> dial))"

section \<open>The programs\<close>

definition center_paths :: "string list" where
  "center_paths = [''./sysplane-center.yaml'', ''/etc/sysplane/center.yaml'']"

definition proxy_paths :: "string list" where
  "proxy_paths = [''./sysplane-proxy.yaml'', ''/etc/sysplane/proxy.yaml'']"

definition agent_paths :: "string list" where
  "agent_paths = [''./sysplane-agent.yaml'', ''/etc/sysplane/agent.yaml'']"

definition find_config :: "(string \<Rightarrow> bool) \<Rightarrow> string list \<Rightarrow> string \<Rightarrow> string" where
  "find_config exists paths given =
     (if given \<noteq> [] then given
      else case filter exists paths of [] \<Rightarrow> [] | p # _ \<Rightarrow> p)"

text \<open>The exit status of a daemon.  The standard flag set exits with 0 after printing the help that was
  asked for and with 2 on a flag it does not know; \<open>run\<close> is the package's \<open>Run\<close>.\<close>

definition daemon_main ::
  "(string \<Rightarrow> bool) \<Rightarrow> string list \<Rightarrow> (string \<Rightarrow> run_err option) \<Rightarrow> string list \<Rightarrow> int" where
  "daemon_main exists paths run args =
     (case parse_flags (\<lambda>_. Inl []) [(''config'', FvStr [])] args of
        HelpAsked \<Rightarrow> 0
      | FlagErr _ \<Rightarrow> 2
      | Parsed (fl, _) \<Rightarrow>
          let path = find_config exists paths (fl_str fl ''config'') in
          if path = [] then 1
          else (case run path of Some (RunErr _) \<Rightarrow> 1 | _ \<Rightarrow> 0))"

definition center_main :: "(string \<Rightarrow> bool) \<Rightarrow> (string \<Rightarrow> run_err option) \<Rightarrow> string list \<Rightarrow> int" where
  "center_main exists run args = daemon_main exists center_paths run args"

definition proxy_main :: "(string \<Rightarrow> bool) \<Rightarrow> (string \<Rightarrow> run_err option) \<Rightarrow> string list \<Rightarrow> int" where
  "proxy_main exists run args = daemon_main exists proxy_paths run args"

definition agent_main :: "(string \<Rightarrow> bool) \<Rightarrow> (string \<Rightarrow> run_err option) \<Rightarrow> string list \<Rightarrow> int" where
  "agent_main exists run args = daemon_main exists agent_paths run args"

section \<open>Lemmas\<close>

lemma pools_store_close [simp]: "dbs_pools (store_close s) = tl (dbs_pools s)"
  by (simp add: store_close_def)

text \<open>Each step either leaves the pools as they were or, on success, has added one.\<close>

lemma store_new_pools:
  "store_new env dsn n s = (Inl e, s') \<Longrightarrow> dbs_pools s' = dbs_pools s"
  "store_new env dsn n s = (Inr u, s') \<Longrightarrow> \<exists>conns. dbs_pools s' = conns # dbs_pools s"
  by (auto simp: store_new_def store_close_def Let_def split: sum.splits option.splits if_splits)

lemma migrate_same [simp]: "snd (migrate env s) = s"
  by (simp add: migrate_def)

lemma setup_store_pools:
  "setup_store env cfg inst s = (Inl e, s') \<Longrightarrow> dbs_pools s' = dbs_pools s"
  "setup_store env cfg inst s = (Inr b, s') \<Longrightarrow> \<exists>conns. dbs_pools s' = conns # dbs_pools s"
  by (auto simp: setup_store_def migrate_def dest: store_new_pools
      split: sum.splits option.splits prod.splits)

lemma setup_store_registers:
  assumes "setup_store env cfg inst s = (Inr b, s')"
  shows "b = center_bridge cfg inst"
    and "get_center_address None inst (dbs_tables s') = Inr (cc_ha_internal_address cfg)"
  using assms
  by (auto simp: setup_store_def migrate_def registrar_start_def upsert_center_def exec_def Let_def
      center_registrar_def get_center_address_def split: sum.splits option.splits prod.splits)

lemma center_build_Inr:
  assumes "center_build h cfg cat bridge s = Inr sys"
  shows "sy_service sys = \<lparr>ts_catalog = cat, ts_instance = instance_id h cfg\<rparr>"
    and "sy_center sys = new_center (cc_request_timeout_sec cfg) (if bridge = None then None else Some (dbs_tables s))"
    and "sy_call_log sys \<longleftrightarrow> bridge \<noteq> None" and "sy_forwarder sys = bridge"
  using assms by (auto simp: center_build_def split: sum.splits)

text \<open>The catalog is built twice from the same lists, by the loader's check and by \<open>Run\<close>: the second
  cannot fail.\<close>

lemma loaded_catalog:
  assumes "center_load sha rf um path = Inr cfg"
  shows "is_ok (new_catalog sha (cc_client_tokens cfg) (cc_admin_tokens cfg)
           (cc_agent_tokens cfg) (cc_proxy_tokens cfg))"
proof -
  obtain raw where "cfg = center_apply_defaults raw" "center_validate sha cfg = None"
    using assms by (rule center_load_Inr)
  then show ?thesis by (simp add: center_validate_None)
qed

lemma center_boot_Inl:
  "center_boot h path s = (Inl e, s') \<Longrightarrow> dbs_pools s' = dbs_pools s"
  by (auto simp: center_boot_def center_deferred_def dest: setup_store_pools
      split: sum.splits prod.splits if_splits)

lemma center_boot_Inr:
  assumes "center_boot h path s = (Inr sys, s')"
  obtains cfg cat bridge where
    "center_load (ch_sha h) (ch_read_file h) (ch_yaml h) path = Inr cfg"
    "new_catalog (ch_sha h) (cc_client_tokens cfg) (cc_admin_tokens cfg)
       (cc_agent_tokens cfg) (cc_proxy_tokens cfg) = Inr cat"
    "center_build h cfg cat bridge s' = Inr sys"
    "if cc_db_enable cfg
     then \<exists>b. bridge = Some b \<and> setup_store (ch_db h) cfg (instance_id h cfg) s = (Inr b, s')
     else bridge = None \<and> s' = s"
  using assms by (auto simp: center_boot_def split: sum.splits prod.splits if_splits)

lemma center_run_pools: "dbs_pools (snd (center_run h path ends s)) = dbs_pools s"
proof (cases "center_boot h path s")
  case (Pair r s')
  show ?thesis
  proof (cases r)
    case (Inl e)
    with Pair center_boot_Inl show ?thesis by (simp add: center_run_def)
  next
    case (Inr sys)
    from Pair [unfolded Inr] obtain cfg cat bridge where
      b: "center_build h cfg cat bridge s' = Inr sys" and
      s: "if cc_db_enable cfg
          then \<exists>b. bridge = Some b \<and> setup_store (ch_db h) cfg (instance_id h cfg) s = (Inr b, s')
          else bridge = None \<and> s' = s"
      by (rule center_boot_Inr)
    from center_build_Inr(4) [OF b] s setup_store_pools(2) show ?thesis
      by (fastforce simp: center_run_def Pair Inr center_deferred_def split: if_splits)
  qed
qed

section \<open>Properties\<close>

text \<open>C37: The start and the end of a center.  However \<open>Run\<close> ends, at any failing step of the start, by
  the failure of a server or by shutdown, no connection pool it opened is left open.  A start that
  succeeds built the token catalog of the loaded configuration and an empty center; persistence, call
  logging and forwarding to other centers are all on or all off, as \<open>database.enable\<close> says; and when they
  are on, the other centers find this instance in the database under its id, with the configured internal
  address, and its bridge uses the same id and the configured secret.\<close>

theorem center_start_up:
  assumes "center_boot h path s = (r, s')"
  shows "dbs_pools (snd (center_run h path ends s)) = dbs_pools s \<and>
    (case r of
       Inl e \<Rightarrow> dbs_pools s' = dbs_pools s \<and> fst (center_run h path ends s) = Some e
     | Inr sys \<Rightarrow> \<exists>cfg. center_load (ch_sha h) (ch_read_file h) (ch_yaml h) path = Inr cfg \<and>
         new_catalog (ch_sha h) (cc_client_tokens cfg) (cc_admin_tokens cfg)
           (cc_agent_tokens cfg) (cc_proxy_tokens cfg) = Inr (ts_catalog (sy_service sys)) \<and>
         sy_call_log sys = cc_db_enable cfg \<and>
         (if cc_db_enable cfg
          then sy_center sys = new_center (cc_request_timeout_sec cfg) (Some (dbs_tables s')) \<and>
            get_center_address None (ts_instance (sy_service sys)) (dbs_tables s') = Inr (cc_ha_internal_address cfg) \<and>
            sy_forwarder sys = Some (center_bridge cfg (ts_instance (sy_service sys)))
          else sy_center sys = new_center (cc_request_timeout_sec cfg) None \<and> sy_forwarder sys = None \<and> s' = s))"
proof (cases r)
  case (Inl e)
  with assms center_boot_Inl center_run_pools show ?thesis by (simp add: center_run_def)
next
  case (Inr sys)
  from assms [unfolded Inr] obtain cfg cat bridge where
    c: "center_load (ch_sha h) (ch_read_file h) (ch_yaml h) path = Inr cfg"
      "new_catalog (ch_sha h) (cc_client_tokens cfg) (cc_admin_tokens cfg)
         (cc_agent_tokens cfg) (cc_proxy_tokens cfg) = Inr cat" and
    b: "center_build h cfg cat bridge s' = Inr sys" and
    s: "if cc_db_enable cfg
        then \<exists>b. bridge = Some b \<and> setup_store (ch_db h) cfg (instance_id h cfg) s = (Inr b, s')
        else bridge = None \<and> s' = s"
    by (rule center_boot_Inr)
  show ?thesis
  proof (cases "cc_db_enable cfg")
    case True
    with s obtain b where "bridge = Some b" "setup_store (ch_db h) cfg (instance_id h cfg) s = (Inr b, s')"
      by auto
    with setup_store_registers c center_build_Inr [OF b] True Inr center_run_pools show ?thesis by auto
  next
    case False
    with s c center_build_Inr [OF b] Inr center_run_pools show ?thesis by auto
  qed
qed

definition toy_db :: db_env where
  "toy_db = \<lparr>de_parse = (\<lambda>_. Inr 4), de_connect = (\<lambda>_ _. None), de_ping = None, de_migrate = None,
     de_register = None, de_now = 7\<rparr>"

definition no_pools :: db_state where
  "no_pools = \<lparr>dbs_pools = [], dbs_tables = empty_store\<rparr>"

definition toy_center_host :: center_host where
  "toy_center_host = \<lparr>ch_sha = toy_sha, ch_read_file = (\<lambda>_. Inr ''yaml''), ch_yaml = (\<lambda>_. Inr sample_center_config),
     ch_hostname = Inr ''c1'', ch_tls = toy_tls_env, ch_db = toy_db\<rparr>"

lemma toy_center_started:
  "map_sum (\<lambda>_. ()) (\<lambda>sys. ts_instance (sy_service sys)) (fst (center_boot toy_center_host ''c.yaml'' no_pools))
     = Inr ''c1:9090''"
  by code_simp

lemma center_start_up_witness:
  "\<exists>sys s'. center_boot toy_center_host ''c.yaml'' no_pools = (Inr sys, s') \<and>
     ts_instance (sy_service sys) = ''c1:9090'' \<and>
     get_center_address None ''c1:9090'' (dbs_tables s') = Inr ''10.0.0.1:80'' \<and>
     dbs_pools (snd (center_run toy_center_host ''c.yaml'' [GrpcListenFailed ''in use''] no_pools)) = []"
proof -
  obtain r s' where b: "center_boot toy_center_host ''c.yaml'' no_pools = (r, s')" by fastforce
  with toy_center_started obtain sys where r: "r = Inr sys" and i: "ts_instance (sy_service sys) = ''c1:9090''"
    by (cases r) auto
  have cfg: "center_load (ch_sha toy_center_host) (ch_read_file toy_center_host) (ch_yaml toy_center_host) ''c.yaml''
      = Inr (center_apply_defaults sample_center_config)"
    by (simp add: toy_center_host_def sample_center_load)
  have db: "cc_db_enable (center_apply_defaults sample_center_config)"
    "cc_ha_internal_address (center_apply_defaults sample_center_config) = ''10.0.0.1:80''"
    by (simp_all add: center_apply_defaults_def sample_center_config_def)
  have p: "dbs_pools no_pools = []" by (simp add: no_pools_def)
  from center_start_up [OF b, of "[GrpcListenFailed ''in use'']"] show ?thesis
    unfolding r sum.case cfg p using db i b r by auto
qed

section \<open>What the start leaves behind\<close>

text \<open>\<open>Run\<close> never cancels the context the registrar watches, and the process exits when \<open>Run\<close> returns an
  error: an instance whose start fails after it has registered, here because its certificate cannot be
  loaded, stays in the table of centers.\<close>

definition bad_cert_host :: center_host where
  "bad_cert_host = toy_center_host
     \<lparr>ch_yaml := (\<lambda>_. Inr (sample_center_config\<lparr>cc_tls := tls_on\<rparr>)),
      ch_tls := toy_tls_env\<lparr>te_load_pair := (\<lambda>_ _. Inl ''no such file'')\<rparr>\<rparr>"

lemma failed_start_stays_registered:
  "fst (center_run bad_cert_host ''c.yaml'' [] no_pools) = Some ''load TLS: tlsconf: load server cert: no such file''"
  "get_center_address None ''c1:9090'' (dbs_tables (snd (center_run bad_cert_host ''c.yaml'' [] no_pools)))
     = Inr ''10.0.0.1:80''"
  by code_simp+

text \<open>The configured limit of connections is narrowed to 32 bits: a multiple of $2^{32}$ counts as no
  limit, and the one of the DSN is used.\<close>

lemma narrowed_limit_is_dropped: "store_new env dsn (int32 (2 ^ 32 * k)) s = store_new env dsn 0 s"
proof -
  have "(word_of_int (2 ^ 32 * k) :: 32 word) = 0"
    by (transfer, simp add: take_bit_eq_mod)
  then show ?thesis by (simp only: int32_def sint_0)
qed

text \<open>The name a proxy announces itself with is the one it adds to the paths of its nodes.\<close>

lemma proxy_names_agree:
  assumes "proxy_boot h cfg = Inr sys"
  shows "\<exists>req. py_register sys = MRegisterRequest req \<and> rq_hostname req = ps_hostname (py_service sys) \<and>
    rq_hostname req \<noteq> [] \<and> rq_node_type req = NODE_TYPE_PROXY \<and> rq_token req = pc_upstream_token cfg"
  using assms
  by (auto simp: proxy_boot_def proxy_register_msg_def proxy_hostname_def Let_def split: sum.splits)

text \<open>The tokens of a registration go back to the configuration: the catalog the center runs with
  accepts exactly the tokens configured for the domain, and no client or admin token among them.\<close>

lemma booted_center_reach:
  assumes "center_boot h path s = (Inr sys, s')"
    and "run_steps (center_step (ch_sha h) (sy_service sys)) es (sy_center sys) = Some c"
  shows "\<exists>t st. center_reach (ch_sha h) (sy_service sys) t st c"
proof -
  obtain cfg cat bridge where "center_build h cfg cat bridge s' = Inr sys"
    using assms(1) by (rule center_boot_Inr)
  then obtain t st where "sy_center sys = new_center t st" using center_build_Inr(2) by blast
  with assms(2) have "center_reach (ch_sha h) (sy_service sys) t st c" by (simp add: center_reach_run)
  then show ?thesis by blast
qed

lemma registered_with_configured_token:
  assumes "new_catalog sha cl ad ag pr = Inr cat"
    and "is_ok (authenticate_registration sha cat (registration_domain nt) raw)"
  shows "let k = token_fingerprint sha (trim_space (trim_prefix raw ''Bearer '')) in
    k \<in> token_key sha ` set (if nt = NODE_TYPE_PROXY then pr else ag) \<and> k \<notin> token_key sha ` set (cl @ ad)"
proof -
  let ?k = "token_fingerprint sha (trim_space (trim_prefix raw ''Bearer ''))"
  from assms(2) obtain i where "authenticate_registration sha cat (registration_domain nt) raw = Inr i"
    by (auto simp: is_ok_iff)
  from authenticate_registration_Inr [OF new_catalog_catalog_of [OF assms(1)] this]
  obtain t where t: "t \<in> set (reg_tokens (registration_domain nt) ag pr)" "token_key sha t = ?k" by blast
  have own: "t \<in> set (if nt = NODE_TYPE_PROXY then pr else ag)"
    using t(1) by (cases nt) (simp_all add: registration_domain_def reg_tokens_def)
  have "token_key sha ` set (cl @ ad) \<inter> token_key sha ` set (ag @ pr) = {}"
    using new_catalog_Inr_ok [OF assms(1)] by (auto simp: all_tokens_ok_def)
  moreover have "token_key sha t \<in> token_key sha ` set (ag @ pr)" using own by (intro imageI) (auto split: if_splits)
  ultimately have "token_key sha t \<notin> token_key sha ` set (cl @ ad)" by blast
  with imageI [OF own, of "token_key sha"] show ?thesis unfolding t(2) Let_def by simp
qed

text \<open>C2: A center from its configuration file to a route: if \<open>Run\<close> starts with the file at \<open>path\<close>, then
  whatever happens afterwards (registrations, messages, disconnects, checks, calls, database faults),
  each host in its registry is routed over an open stream whose peer registered with a token that the
  file lists for its kind of node, \<open>proxy_tokens\<close> for a proxy and \<open>agent_tokens\<close> otherwise, compared by
  fingerprint after trimming; a client or admin token of the file never opens such a stream.\<close>

theorem booted_center_routes:
  assumes "center_boot h path s = (Inr sys, s')"
    and "run_steps (center_step (ch_sha h) (sy_service sys)) es (sy_center sys) = Some c"
    and "registry_lookup (ct_reg c) host = Some rec"
  shows "\<exists>cfg req. center_load (ch_sha h) (ch_read_file h) (ch_yaml h) path = Inr cfg \<and>
    map_of (ct_sessions c) (ar_route_stream rec) = Some req \<and>
    (let k = token_fingerprint (ch_sha h) (trim_space (trim_prefix (rq_token req) ''Bearer '')) in
     k \<in> token_key (ch_sha h) `
       set (if rq_node_type req = NODE_TYPE_PROXY then cc_proxy_tokens cfg else cc_agent_tokens cfg) \<and>
     k \<notin> token_key (ch_sha h) ` set (cc_client_tokens cfg @ cc_admin_tokens cfg))"
proof -
  obtain cfg cat bridge where cfg: "center_load (ch_sha h) (ch_read_file h) (ch_yaml h) path = Inr cfg"
    and cat: "new_catalog (ch_sha h) (cc_client_tokens cfg) (cc_admin_tokens cfg)
       (cc_agent_tokens cfg) (cc_proxy_tokens cfg) = Inr cat"
    and b: "center_build h cfg cat bridge s' = Inr sys"
    using assms(1) by (rule center_boot_Inr)
  obtain t st where reach: "center_reach (ch_sha h) (sy_service sys) t st c"
    using booted_center_reach [OF assms(1,2)] by blast
  have inv: "center_inv (ch_sha h) (sy_service sys) c" using reach by (rule center_reach_inv)
  then have "ar_route_stream rec \<in> open_streams c"
    using assms(3) by (simp add: center_inv_def center_reg.routes_in_def)
  with inv obtain req where req: "map_of (ct_sessions c) (ar_route_stream rec) = Some req"
    "session_ok (ch_sha h) (sy_service sys) req" by (auto simp: center_inv_def)
  then have "is_ok (authenticate_registration (ch_sha h) cat (registration_domain (rq_node_type req)) (rq_token req))"
    by (simp add: session_ok_def center_build_Inr(1) [OF b])
  with cfg req(1) registered_with_configured_token [OF cat] show ?thesis by blast
qed

definition booted_events :: "center_event list" where
  "booted_events = [
     CeOpen (Inr (MRegisterRequest (toy_request ''m1'' NODE_TYPE_AGENT ''c''))) 5 None None,
     CeOpen (Inr (MRegisterRequest (toy_request ''m1'' NODE_TYPE_AGENT ''Bearer g''))) 6 None None]"

definition booted_run :: "(center_system \<times> center) option" where
  "booted_run = (case center_boot toy_center_host ''c.yaml'' no_pools of
     (Inl e, _) \<Rightarrow> None
   | (Inr sys, _) \<Rightarrow> map_option (Pair sys)
       (run_steps (center_step (ch_sha toy_center_host) (sy_service sys)) booted_events (sy_center sys)))"

lemma booted_run_route:
  "map_option (\<lambda>(_, c). map_option ar_route_stream (registry_lookup (ct_reg c) ''m1'')) booted_run = Some (Some 1)"
  by code_simp

lemma booted_center_routes_witness:
  "\<exists>sys c rec req. booted_run = Some (sys, c) \<and> registry_lookup (ct_reg c) ''m1'' = Some rec \<and>
     map_of (ct_sessions c) (ar_route_stream rec) = Some req \<and>
     token_fingerprint toy_sha (trim_space (trim_prefix (rq_token req) ''Bearer ''))
       \<in> token_key toy_sha ` {''g'', ''p''}"
proof -
  obtain sys s' where b: "center_boot toy_center_host ''c.yaml'' no_pools = (Inr sys, s')"
    using booted_run_route
    by (cases "center_boot toy_center_host ''c.yaml'' no_pools") (auto simp: booted_run_def split: sum.splits)
  with booted_run_route obtain c rec where
    c: "run_steps (center_step (ch_sha toy_center_host) (sy_service sys)) booted_events (sy_center sys) = Some c"
    "registry_lookup (ct_reg c) ''m1'' = Some rec"
    by (auto simp: booted_run_def)
  have cfg: "center_load (ch_sha toy_center_host) (ch_read_file toy_center_host) (ch_yaml toy_center_host) ''c.yaml''
      = Inr (center_apply_defaults sample_center_config)"
    by (simp add: toy_center_host_def sample_center_load)
  have tokens: "cc_proxy_tokens (center_apply_defaults sample_center_config) = [''p'']"
    "cc_agent_tokens (center_apply_defaults sample_center_config) = [''g'']"
    by (simp_all add: center_apply_defaults_def sample_center_config_def)
  have sha: "ch_sha toy_center_host = toy_sha" by (simp add: toy_center_host_def)
  have run: "booted_run = Some (sys, c)" by (simp add: booted_run_def b c(1))
  let ?k = "\<lambda>req. token_fingerprint toy_sha (trim_space (trim_prefix (rq_token req) ''Bearer ''))"
  from booted_center_routes [OF b c] obtain cfg' req where
    cfg': "center_load (ch_sha toy_center_host) (ch_read_file toy_center_host) (ch_yaml toy_center_host) ''c.yaml'' = Inr cfg'"
    and req: "map_of (ct_sessions c) (ar_route_stream rec) = Some req"
    and k: "?k req \<in> token_key toy_sha `
      set (if rq_node_type req = NODE_TYPE_PROXY then cc_proxy_tokens cfg' else cc_agent_tokens cfg')"
    unfolding sha Let_def by blast
  from cfg cfg' have c': "cfg' = center_apply_defaults sample_center_config" by simp
  have "?k req \<in> token_key toy_sha ` {''g'', ''p''}"
    using k unfolding c' tokens by (rule subsetD [rotated]) (simp split: if_split)
  with run c(2) req show ?thesis by blast
qed

text \<open>\<open>Run\<close> returns nil exactly when no server failed before the context was cancelled.\<close>

lemma run_result_None:
  "run_result (group_wait es) = None \<longleftrightarrow>
     (\<forall>t. Some (RunErr t) \<notin> set (takeWhile (\<lambda>e. e \<noteq> Some RunCanceled) es))"
  by (induction es rule: group_wait.induct) (auto simp: run_result_def split: run_err.splits)

text \<open>A daemon exits with 0 after help, or when it found a configuration and ran without an error.\<close>

lemma daemon_success:
  "daemon_main exists paths run args = 0 \<longleftrightarrow>
     (case parse_flags (\<lambda>_. Inl []) [(''config'', FvStr [])] args of
        HelpAsked \<Rightarrow> True
      | FlagErr _ \<Rightarrow> False
      | Parsed (fl, _) \<Rightarrow> (let p = find_config exists paths (fl_str fl ''config'') in
          p \<noteq> [] \<and> (\<forall>t. run p \<noteq> Some (RunErr t))))"
  by (auto simp: daemon_main_def Let_def split: parsed.splits option.splits run_err.splits)

end
