(* ===== verification/Metrics.thy ===== *)
theory Metrics
  imports Router
begin

text \<open>
  \<open>internal/sysplane-center/metrics/metrics.go\<close> and the deferred function of \<open>Router.Send\<close> that
  feeds it: the counter of tool requests by tool and status and the histogram of their durations.
  (The gauge of online agents is written by the registry and is a field of \<open>Registry\<close>.)

  A Prometheus counter vector is a map from label values to a number, a histogram vector a map to the
  list of its observations; a label combination that was never used has no entry.  The router is the
  one of \<open>Router\<close>; every event comes with the time of \<open>time.Now\<close>, and a call remembers the time of
  its first one.  Deferred functions run in reverse order, so a call is counted after its slot is
  deleted, in the step that returns.
\<close>

record tool_metrics =
  tm_requests :: "(string \<times> string, nat) gomap"
  tm_durations :: "(string, int list) gomap"

definition no_metrics :: tool_metrics where
  "no_metrics = \<lparr>tm_requests = [], tm_durations = []\<rparr>"

definition requests_total :: "string \<Rightarrow> string \<Rightarrow> tool_metrics \<Rightarrow> nat" where
  "requests_total tool st tm = (case map_of (tm_requests tm) (tool, st) of None \<Rightarrow> 0 | Some n \<Rightarrow> n)"

definition observations :: "string \<Rightarrow> tool_metrics \<Rightarrow> int list" where
  "observations tool tm = (case map_of (tm_durations tm) tool of None \<Rightarrow> [] | Some ds \<Rightarrow> ds)"

definition record_call :: "string \<Rightarrow> string \<Rightarrow> int \<Rightarrow> tool_metrics \<Rightarrow> tool_metrics" where
  "record_call tool st elapsed tm =
     tm\<lparr>tm_requests := gupd (tool, st) (Suc (requests_total tool st tm)) (tm_requests tm),
        tm_durations := gupd tool (observations tool tm @ [elapsed]) (tm_durations tm)\<rparr>"

lemma record_call_simps [simp]:
  "requests_total tool st (record_call tool' st' d tm) =
     requests_total tool st tm + of_bool (tool = tool' \<and> st = st')"
  "observations tool (record_call tool' st' d tm) =
     observations tool tm @ (if tool = tool' then [d] else [])"
  by (auto simp: requests_total_def observations_def record_call_def)

section \<open>A metered router\<close>

record metered =
  me_router :: router
  me_started :: "int list"     \<comment> \<open>\<open>start\<close> of each call\<close>
  me_metrics :: tool_metrics

definition new_metered :: "int \<Rightarrow> metered" where
  "new_metered t = \<lparr>me_router = router_new t, me_started = [], me_metrics = no_metrics\<rparr>"

definition finished_status :: "call \<Rightarrow> string option" where
  "finished_status c = (case cl_phase c of Returned (st, _) \<Rightarrow> Some st | _ \<Rightarrow> None)"

fun metered_step :: "router_event \<times> int \<Rightarrow> metered \<Rightarrow> metered option" where
  "metered_step (e, now) m =
     (case router_step e (me_router m) of
        None \<Rightarrow> None
      | Some r \<Rightarrow> Some (case e of
            EvStart _ _ _ _ \<Rightarrow> m\<lparr>me_router := r, me_started := me_started m @ [now]\<rparr>
          | EvReturn i \<Rightarrow>
              (case finished_status (rt_calls r ! i) of
                 None \<Rightarrow> m\<lparr>me_router := r\<rparr>
               | Some st \<Rightarrow> m\<lparr>me_router := r,
                   me_metrics := record_call (cl_tool (rt_calls r ! i)) st (now - me_started m ! i) (me_metrics m)\<rparr>)
          | _ \<Rightarrow> m\<lparr>me_router := r\<rparr>))"

section \<open>What the numbers mean\<close>

text \<open>The calls of a tool that have finished with one of the statuses \<open>S\<close>.\<close>

definition finished :: "string \<Rightarrow> (string \<Rightarrow> bool) \<Rightarrow> call \<Rightarrow> bool" where
  "finished tool S c \<longleftrightarrow> cl_tool c = tool \<and> (\<exists>st. finished_status c = Some st \<and> S st)"

definition finished_calls :: "string \<Rightarrow> (string \<Rightarrow> bool) \<Rightarrow> router \<Rightarrow> nat" where
  "finished_calls tool S r = length (filter (finished tool S) (rt_calls r))"

lemma finished_phase [simp]:
  "finished tool S (c\<lparr>cl_phase := Returned (st, v)\<rparr>) \<longleftrightarrow> cl_tool c = tool \<and> S st"
  "cl_phase c = p \<Longrightarrow> live p \<Longrightarrow> \<not> finished tool S c"
  by (auto simp: finished_def finished_status_def split: phase.splits prod.splits)

lemma finished_calls_update:
  assumes "i < length (rt_calls r)" and "\<not> finished tool S (rt_calls r ! i)"
  shows "finished_calls tool S (r\<lparr>rt_calls := (rt_calls r)[i := c]\<rparr>) = finished_calls tool S r + of_bool (finished tool S c)"
  using count_update [OF assms(1), of "finished tool S" c] assms(2) by (simp add: finished_calls_def)


lemma finished_calls_same:
  "i < length (rt_calls r) \<Longrightarrow> live (cl_phase (rt_calls r ! i)) \<Longrightarrow> live (cl_phase c) \<Longrightarrow>
   finished_calls tool S (r\<lparr>rt_calls := (rt_calls r)[i := c]\<rparr>) = finished_calls tool S r"
  by (simp add: finished_calls_update)

lemma finished_calls_other [simp]:
  "finished_calls tool S (emit s m r) = finished_calls tool S r"
  "finished_calls tool S (r\<lparr>rt_pending := p\<rparr>) = finished_calls tool S r"
  by (simp_all add: finished_calls_def emit_def)

lemma router_return:
  assumes "router_step (EvReturn i) r = Some r'"
  obtains out where "i < length (rt_calls r)" and "cl_phase (rt_calls r ! i) = Leaving out"
    and "rt_calls r' = (rt_calls r)[i := (rt_calls r ! i)\<lparr>cl_phase := Returned out\<rparr>]"
  using assms by (auto simp: set_phase_def split: if_splits phase.splits)

lemma finished_calls_step:
  assumes "router_step e r = Some r'"
  shows "finished_calls tool S r' = finished_calls tool S r +
    (case e of EvReturn i \<Rightarrow> of_bool (finished tool S (rt_calls r' ! i)) | _ \<Rightarrow> 0)"
proof (cases e)
  case (EvStart rid rec tl args)
  with assms show ?thesis by (auto simp: finished_calls_def send_store_def)
next
  case (EvSent i err)
  with assms have "i < length (rt_calls r)" "cl_phase (rt_calls r ! i) = Stored" by (auto split: if_splits)
  with assms EvSent show ?thesis
    by (auto simp: Let_def set_phase_def finished_calls_same split: option.splits)
next
  case (EvDeliver msg)
  have "finished_calls tool S (deliver rid msg r) = finished_calls tool S r" for rid
  proof -
    have "finished tool S (c\<lparr>cl_buf := b\<rparr>) = finished tool S c" for c b
      by (simp add: finished_def finished_status_def)
    then have "length (filter (finished tool S) ((rt_calls r)[i := (rt_calls r ! i)\<lparr>cl_buf := b\<rparr>])) =
        length (filter (finished tool S) (rt_calls r))" for i b
      using count_update [of i "rt_calls r" "finished tool S" "(rt_calls r ! i)\<lparr>cl_buf := b\<rparr>"]
      by (cases "i < length (rt_calls r)") (simp_all add: not_less list_update_beyond)
    then show ?thesis by (simp add: deliver_def finished_calls_def split: option.splits)
  qed
  with assms EvDeliver show ?thesis by (auto simp: deliver_from_message_def split: option.splits)
next
  case (EvReceive i)
  with assms show ?thesis by (auto simp: finished_calls_same split: if_splits option.splits)
next
  case (EvCtxDone i d)
  with assms show ?thesis by (auto simp: Let_def set_phase_def finished_calls_same split: if_splits)
next
  case (EvReturn i)
  with assms have "router_step (EvReturn i) r = Some r'" by simp
  then obtain out where i: "i < length (rt_calls r)" "cl_phase (rt_calls r ! i) = Leaving out" and
    r': "rt_calls r' = (rt_calls r)[i := (rt_calls r ! i)\<lparr>cl_phase := Returned out\<rparr>]" by (rule router_return)
  then have "\<not> finished tool S (rt_calls r ! i)" by simp
  with i count_update [OF i(1), of "finished tool S"] show ?thesis by (simp add: EvReturn r' finished_calls_def)
qed

lemma router_step_length:
  "router_step e r = Some r' \<Longrightarrow>
   length (rt_calls r') = length (rt_calls r) + (case e of EvStart _ _ _ _ \<Rightarrow> 1 | _ \<Rightarrow> 0)"
  by (cases e) (auto simp: Let_def send_store_def set_phase_def emit_def deliver_from_message_def deliver_def
      split: if_splits option.splits phase.splits)

text \<open>The status of an outcome says what became of the call.\<close>

definition outcome_ok :: "outcome \<Rightarrow> bool" where
  "outcome_ok out \<longleftrightarrow> fst out \<in> {''success'', ''error'', ''timeout'', ''canceled''} \<and>
     (fst out = ''success'' \<longleftrightarrow> is_ok (snd out))"

definition status_ok :: "call \<Rightarrow> bool" where
  "status_ok c = (case cl_phase c of Leaving out \<Rightarrow> outcome_ok out | Returned out \<Rightarrow> outcome_ok out | _ \<Rightarrow> True)"

lemma outcome_ok_simps [simp]:
  "outcome_ok (send_failed c e)"
  "outcome_ok (ctx_outcome c d)"
  "outcome_ok (reply_outcome msg)"
  subgoal by (simp add: outcome_ok_def send_failed_def)
  subgoal by (cases d) (simp_all add: outcome_ok_def ctx_outcome_def)
  subgoal by (cases msg) (simp_all add: outcome_ok_def reply_outcome_def)
  done

lemma status_ok_update [simp]:
  "status_ok (c\<lparr>cl_phase := p\<rparr>) = (case p of Leaving out \<Rightarrow> outcome_ok out | Returned out \<Rightarrow> outcome_ok out | _ \<Rightarrow> True)"
  "status_ok (c\<lparr>cl_buf := b\<rparr>) = status_ok c"
  by (simp_all add: status_ok_def)

lemma status_ok_step:
  assumes "\<forall>c \<in> set (rt_calls r). status_ok c" and "router_step e r = Some r'"
  shows "\<forall>c \<in> set (rt_calls r'). status_ok c"
proof -
  have upd: "\<forall>c \<in> set ((rt_calls r)[i := x]). status_ok c" if "i < length (rt_calls r) \<Longrightarrow> status_ok x" for i x
  proof (cases "i < length (rt_calls r)")
    case True
    show ?thesis using assms(1) that [OF True] by (rule set_list_update_ok)
  next
    case False
    then have "(rt_calls r)[i := x] = rt_calls r" by (simp add: list_update_beyond)
    with assms(1) show ?thesis by (simp only:)
  qed
  have old: "status_ok (rt_calls r ! i)" if "i < length (rt_calls r)" for i using assms(1) that by simp
  show ?thesis
  proof (cases e)
    case (EvStart rid rec tl args)
    with assms show ?thesis by (auto simp: send_store_def status_ok_def)
  next
    case (EvReturn i)
    with assms(2) have "router_step (EvReturn i) r = Some r'" by simp
    then obtain out where i: "i < length (rt_calls r)" "cl_phase (rt_calls r ! i) = Leaving out" and
      r': "rt_calls r' = (rt_calls r)[i := (rt_calls r ! i)\<lparr>cl_phase := Returned out\<rparr>]" by (rule router_return)
    from old [OF i(1)] i(2) show ?thesis unfolding r' by (intro upd) (simp add: status_ok_def)
  next
    case (EvSent i err)
    with assms(2) have "rt_calls r' = (rt_calls r)[i := (rt_calls r ! i)\<lparr>cl_phase :=
        (case err of Some e \<Rightarrow> Leaving (send_failed (rt_calls r ! i) e) | None \<Rightarrow> Waiting)\<rparr>]"
      by (auto simp: Let_def set_phase_def emit_def split: if_splits option.splits)
    then show ?thesis by (simp only:) (intro upd, simp split: option.split)
  next
    case (EvCtxDone i d)
    with assms(2) have "rt_calls r' = (rt_calls r)[i := (rt_calls r ! i)\<lparr>cl_phase := Leaving (ctx_outcome (rt_calls r ! i) d)\<rparr>]"
      by (auto simp: Let_def set_phase_def emit_def split: if_splits)
    then show ?thesis by (simp only:) (intro upd, simp)
  next
    case (EvReceive i)
    with assms(2) obtain msg where "rt_calls r' = (rt_calls r)[i := (rt_calls r ! i)
        \<lparr>cl_buf := None, cl_phase := Leaving (reply_outcome msg)\<rparr>]"
      by (auto split: if_splits option.splits)
    then show ?thesis by (simp only:) (intro upd, simp)
  next
    case (EvDeliver msg)
    have "\<forall>c \<in> set (rt_calls (deliver rid msg r)). status_ok c" for rid
    proof (cases "map_of (rt_pending r) rid")
      case (Some i)
      have "\<forall>c \<in> set ((rt_calls r)[i := (rt_calls r ! i)\<lparr>cl_buf := b\<rparr>]). status_ok c" for b
        by (intro upd) (simp add: old)
      with Some assms(1) show ?thesis by (simp add: deliver_def split: option.split)
    qed (use assms(1) in \<open>simp add: deliver_def\<close>)
    with EvDeliver assms show ?thesis by (auto simp: deliver_from_message_def split: option.splits)
  qed
qed

section \<open>The invariant\<close>

definition metered_inv :: "(router_event \<times> int) list \<Rightarrow> metered \<Rightarrow> bool" where
  "metered_inv es m \<longleftrightarrow>
     length (me_started m) = length (rt_calls (me_router m)) \<and>
     (\<forall>tool st. requests_total tool st (me_metrics m) = finished_calls tool ((=) st) (me_router m)) \<and>
     (\<forall>tool. length (observations tool (me_metrics m)) = finished_calls tool (\<lambda>_. True) (me_router m)) \<and>
     (\<forall>c \<in> set (rt_calls (me_router m)). status_ok c)"

lemma metered_step_router: "metered_step (e, now) m = Some m' \<Longrightarrow> router_step e (me_router m) = Some (me_router m')"
  by (auto split: option.splits router_event.splits)

lemma metered_step_other:
  assumes "metered_step (e, now) m = Some m'" and "\<nexists>i. e = EvReturn i"
  shows "me_metrics m' = me_metrics m"
    and "length (me_started m') = length (me_started m) + (case e of EvStart _ _ _ _ \<Rightarrow> 1 | _ \<Rightarrow> 0)"
  using assms by (cases e; auto simp del: router_step.simps split: option.splits)+

lemma metered_step_inv:
  assumes "metered_inv es m" and "metered_step ev m = Some m'"
  shows "metered_inv (es @ [ev]) m'"
proof -
  obtain e now where ev: "ev = (e, now)" by (cases ev)
  with assms(2) have step: "router_step e (me_router m) = Some (me_router m')" by (simp only: metered_step_router)
  have st: "\<forall>c \<in> set (rt_calls (me_router m')). status_ok c"
    using assms(1) status_ok_step [OF _ step] by (simp add: metered_inv_def)
  show ?thesis
  proof (cases "\<exists>i. e = EvReturn i")
    case True
    then obtain i where e: "e = EvReturn i" by blast
    from step [unfolded e] obtain s v where
      "rt_calls (me_router m') ! i = (rt_calls (me_router m) ! i)\<lparr>cl_phase := Returned (s, v)\<rparr>"
      by (elim router_return) (metis nth_list_update_eq surj_pair)
    then have fin: "finished_status (rt_calls (me_router m') ! i) = Some s" by (simp add: finished_status_def)
    then have m': "m' = m\<lparr>me_router := me_router m', me_metrics :=
        record_call (cl_tool (rt_calls (me_router m') ! i)) s (now - me_started m ! i) (me_metrics m)\<rparr>"
      using assms(2) [symmetric] unfolding ev e metered_step.simps step [unfolded e] by simp
    have "me_started m' = me_started m" by (subst m') simp
    moreover have "me_metrics m' = record_call (cl_tool (rt_calls (me_router m') ! i)) s
        (now - me_started m ! i) (me_metrics m)" by (subst m') simp
    ultimately show ?thesis using assms(1) st router_step_length [OF step] finished_calls_step [OF step]
      by (auto simp: metered_inv_def e finished_def fin)
  next
    case False
    with assms(2) have "me_metrics m' = me_metrics m"
      and "length (me_started m') = length (me_started m) + (case e of EvStart _ _ _ _ \<Rightarrow> 1 | _ \<Rightarrow> 0)"
      unfolding ev by (simp_all add: metered_step_other)
    then show ?thesis
      using assms(1) st router_step_length [OF step] finished_calls_step [OF step] False
      by (cases e) (auto simp: metered_inv_def)
  qed
qed

interpretation metered_sys: step_system metered_step "new_metered t" metered_inv for t
  by unfold_locales
    (simp add: metered_inv_def new_metered_def router_new_def no_metrics_def requests_total_def observations_def
       finished_calls_def, rule metered_step_inv)

section \<open>Property\<close>

text \<open>C20: The metrics account for the calls.  After any interleaving the counter of a tool and a status is
  the number of calls of the tool that have returned with that status; a call counts as a success exactly
  when its caller got a result; every other status is an error, a timeout or a cancellation; and the
  histogram of a tool has one observation for every call that has returned, none for those under way.\<close>

theorem metrics_account_for_calls:
  assumes "reached metered_step (new_metered t) es m"
  shows "requests_total tool st (me_metrics m) =
      length (filter (\<lambda>c. cl_tool c = tool \<and> (\<exists>v. cl_phase c = Returned (st, v))) (rt_calls (me_router m))) \<and>
    requests_total tool ''success'' (me_metrics m) =
      length (filter (\<lambda>c. cl_tool c = tool \<and> (\<exists>s json. cl_phase c = Returned (s, Inr json))) (rt_calls (me_router m))) \<and>
    (0 < requests_total tool st (me_metrics m) \<longrightarrow> st \<in> {''success'', ''error'', ''timeout'', ''canceled''}) \<and>
    length (observations tool (me_metrics m)) =
      length (filter (\<lambda>c. cl_tool c = tool \<and> \<not> live (cl_phase c)) (rt_calls (me_router m)))"
proof (intro conjI impI)
  have inv: "metered_inv es m" using assms by (rule metered_sys.inv_reached)
  then have ok: "status_ok c" if "c \<in> set (rt_calls (me_router m))" for c
    using that by (simp add: metered_inv_def)
  have fin: "finished_status c = Some s \<longleftrightarrow> (\<exists>v. cl_phase c = Returned (s, v))" for c s
    by (auto simp: finished_status_def split: phase.splits)
  have total: "requests_total tool st (me_metrics m) =
      length (filter (\<lambda>c. cl_tool c = tool \<and> (\<exists>v. cl_phase c = Returned (st, v))) (rt_calls (me_router m)))" for st
  proof -
    have "finished tool ((=) st) = (\<lambda>c. cl_tool c = tool \<and> (\<exists>v. cl_phase c = Returned (st, v)))"
      by (rule ext) (auto simp: finished_def fin)
    with inv show ?thesis by (simp add: metered_inv_def finished_calls_def)
  qed
  then show "requests_total tool st (me_metrics m) =
      length (filter (\<lambda>c. cl_tool c = tool \<and> (\<exists>v. cl_phase c = Returned (st, v))) (rt_calls (me_router m)))" .
  have succ: "(\<exists>v. cl_phase c = Returned (''success'', v)) \<longleftrightarrow> (\<exists>s json. cl_phase c = Returned (s, Inr json))"
    if "c \<in> set (rt_calls (me_router m))" for c
    using ok [OF that] by (auto simp: status_ok_def outcome_ok_def is_ok_iff)
  show "requests_total tool ''success'' (me_metrics m) =
      length (filter (\<lambda>c. cl_tool c = tool \<and> (\<exists>s json. cl_phase c = Returned (s, Inr json))) (rt_calls (me_router m)))"
    unfolding total by (rule arg_cong [of _ _ length], rule filter_cong [OF refl]) (simp only: succ)
  show "st \<in> {''success'', ''error'', ''timeout'', ''canceled''}" if "0 < requests_total tool st (me_metrics m)"
  proof -
    from that obtain c v where "c \<in> set (rt_calls (me_router m))" "cl_phase c = Returned (st, v)"
      unfolding total length_greater_0_conv filter_empty_conv by blast
    with ok show ?thesis by (force simp: status_ok_def outcome_ok_def)
  qed
  have "finished tool (\<lambda>_. True) = (\<lambda>c. cl_tool c = tool \<and> \<not> live (cl_phase c))"
    by (rule ext) (auto simp: finished_def finished_status_def live_def split: phase.splits)
  then show "length (observations tool (me_metrics m)) =
      length (filter (\<lambda>c. cl_tool c = tool \<and> \<not> live (cl_phase c)) (rt_calls (me_router m)))"
    using inv by (simp add: metered_inv_def finished_calls_def)
qed

definition metered_events :: "(router_event \<times> int) list" where
  "metered_events = zip one_call [10, 11, 14, 15, 17]"

lemma metered_example:
  "map_option (\<lambda>m. (map cl_phase (rt_calls (me_router m)), tm_requests (me_metrics m), tm_durations (me_metrics m)))
     (run_steps metered_step metered_events (new_metered 5)) =
   Some ([Returned (''success'', Inr ''42'')], [((''stat_file'', ''success''), 1)], [(''stat_file'', [7])])"
  by code_simp

lemma metrics_account_for_calls_witness:
  "\<exists>m. run_steps metered_step metered_events (new_metered 5) = Some m \<and>
     requests_total ''stat_file'' ''success'' (me_metrics m) = 1 \<and>
     length (observations ''stat_file'' (me_metrics m)) = 1 \<and>
     length (filter (\<lambda>c. cl_tool c = ''stat_file'' \<and> \<not> live (cl_phase c)) (rt_calls (me_router m))) = 1"
proof -
  obtain m where run: "run_steps metered_step metered_events (new_metered 5) = Some m"
    and tm: "tm_requests (me_metrics m) = [((''stat_file'', ''success''), 1)]" "tm_durations (me_metrics m) = [(''stat_file'', [7])]"
    using metered_example by auto
  from run have "reached metered_step (new_metered 5) metered_events m" by (simp only: reached_run)
  from metrics_account_for_calls [OF this, of "''stat_file''" "''success''"] run
  show ?thesis by (simp add: requests_total_def observations_def tm)
qed

end
