(* ===== verification/Server_Stream.thy ===== *)
theory Server_Stream
  imports Tunnel_Msg Step_Systems
begin

text \<open>
  \<open>internal/pkg/stream/stream.go\<close>: the server's side of a tunnel, a gRPC stream wrapped with a mutex
  around \<open>Send\<close>.  gRPC allows only one goroutine at a time in \<open>SendMsg\<close> of a stream, while center and
  proxy send on it from many: the read loop answers heartbeats and every tool call sends its request.
  A call of \<open>Send\<close> is cut where others can interleave: waiting for the mutex, holding it, inside
  \<open>srv.Send\<close>, past it with the deferred unlock to come, and returned.
\<close>

section \<open>The wrapper\<close>

datatype send_phase = Wanting | Holding | Writing | Unlocking "string option" | Sent "string option"

record send_call =
  sc_msg :: tunnel_msg
  sc_phase :: send_phase

record server_stream =
  ss_id :: string
  ss_peer :: "string option option"     \<comment> \<open>\<open>peer.FromContext\<close>, and its \<open>Addr\<close>, which may be nil\<close>
  ss_incoming :: "tunnel_msg go_result list"
  ss_owner :: "nat option"              \<comment> \<open>the call that holds the mutex\<close>
  ss_calls :: "send_call list"
  ss_wire :: "tunnel_msg list"

definition wrap_server_stream :: "string \<Rightarrow> string option option \<Rightarrow> tunnel_msg go_result list \<Rightarrow> server_stream" where
  "wrap_server_stream i peer incoming = \<lparr>ss_id = i, ss_peer = peer, ss_incoming = incoming, ss_owner = None,
     ss_calls = [], ss_wire = []\<rparr>"

definition remote_addr :: "server_stream \<Rightarrow> string" where
  "remote_addr s = (case ss_peer s of Some (Some addr) \<Rightarrow> addr | _ \<Rightarrow> ''unknown'')"

definition stream_recv :: "server_stream \<Rightarrow> (tunnel_msg go_result \<times> server_stream) option" where
  "stream_recv s = (case ss_incoming s of [] \<Rightarrow> None | m # ms \<Rightarrow> Some (m, s\<lparr>ss_incoming := ms\<rparr>))"

datatype send_event =
    SeCall tunnel_msg
  | SeLock nat
  | SeEnter nat
  | SeLeave nat "string option"      \<comment> \<open>the error of \<open>srv.Send\<close>\<close>
  | SeReturn nat

definition set_send :: "nat \<Rightarrow> send_phase \<Rightarrow> server_stream \<Rightarrow> server_stream" where
  "set_send i p s = s\<lparr>ss_calls := (ss_calls s)[i := (ss_calls s ! i)\<lparr>sc_phase := p\<rparr>]\<rparr>"

definition in_phase :: "nat \<Rightarrow> (send_phase \<Rightarrow> bool) \<Rightarrow> server_stream \<Rightarrow> bool" where
  "in_phase i P s \<longleftrightarrow> i < length (ss_calls s) \<and> P (sc_phase (ss_calls s ! i))"

fun send_step :: "send_event \<Rightarrow> server_stream \<Rightarrow> server_stream option" where
  "send_step (SeCall m) s = Some (s\<lparr>ss_calls := ss_calls s @ [\<lparr>sc_msg = m, sc_phase = Wanting\<rparr>]\<rparr>)"
| "send_step (SeLock i) s =
     (if in_phase i (\<lambda>p. p = Wanting) s \<and> ss_owner s = None
      then Some ((set_send i Holding s)\<lparr>ss_owner := Some i\<rparr>) else None)"
| "send_step (SeEnter i) s =
     (if in_phase i (\<lambda>p. p = Holding) s then Some (set_send i Writing s) else None)"
| "send_step (SeLeave i err) s =
     (if in_phase i (\<lambda>p. p = Writing) s
      then Some ((set_send i (Unlocking err) s)\<lparr>ss_wire := ss_wire s @ (if err = None then [sc_msg (ss_calls s ! i)] else [])\<rparr>)
      else None)"
| "send_step (SeReturn i) s =
     (if i < length (ss_calls s)
      then (case sc_phase (ss_calls s ! i) of
              Unlocking err \<Rightarrow> Some ((set_send i (Sent err) s)\<lparr>ss_owner := None\<rparr>)
            | _ \<Rightarrow> None)
      else None)"

section \<open>Mutual exclusion\<close>

text \<open>A call between lock and unlock is the owner of the mutex.\<close>

definition inside :: "send_phase \<Rightarrow> bool" where
  "inside p \<longleftrightarrow> (case p of Holding \<Rightarrow> True | Writing \<Rightarrow> True | Unlocking _ \<Rightarrow> True | _ \<Rightarrow> False)"

definition send_inv :: "server_stream \<Rightarrow> bool" where
  "send_inv s \<longleftrightarrow> (\<forall>i < length (ss_calls s). inside (sc_phase (ss_calls s ! i)) \<longleftrightarrow> ss_owner s = Some i) \<and>
     (\<forall>i. ss_owner s = Some i \<longrightarrow> i < length (ss_calls s))"

lemma inside_simps [simp]:
  "\<not> inside Wanting" "inside Holding" "inside Writing" "inside (Unlocking e)" "\<not> inside (Sent e)"
  by (simp_all add: inside_def)

lemma send_inv_step:
  assumes inv: "send_inv s" and step: "send_step e s = Some s'"
  shows "send_inv s'"
proof (cases "\<exists>i. e = SeReturn i")
  case True
  then obtain i err where i: "i < length (ss_calls s)" "sc_phase (ss_calls s ! i) = Unlocking err"
    and s': "s' = (set_send i (Sent err) s)\<lparr>ss_owner := None\<rparr>"
    using step by (auto split: if_splits send_phase.splits)
  with inv have "ss_owner s = Some i" by (auto simp: send_inv_def)
  with inv i show ?thesis by (auto simp: send_inv_def s' set_send_def nth_list_update)
next
  case False
  with assms show ?thesis
    by (cases e)
      (auto simp: send_inv_def set_send_def in_phase_def nth_list_update nth_append less_Suc_eq split: if_splits)
qed

interpretation send_sys: step_system send_step "wrap_server_stream i peer incoming" "\<lambda>es. send_inv" for i peer incoming
  by unfold_locales (simp add: send_inv_def wrap_server_stream_def, rule send_inv_step)

text \<open>At most one goroutine is inside \<open>srv.Send\<close>, whatever the interleaving.\<close>

lemma one_writer:
  assumes "reached send_step (wrap_server_stream k peer incoming) es s"
    and "in_phase i (\<lambda>p. p = Writing) s" and "in_phase j (\<lambda>p. p = Writing) s"
  shows "i = j"
proof -
  have "send_inv s" using assms(1) by (rule send_sys.inv_reached)
  with assms(2,3) have "ss_owner s = Some i" "ss_owner s = Some j"
    by (auto simp: send_inv_def in_phase_def)
  then show ?thesis by simp
qed

text \<open>A call that waits for the mutex gets it as soon as the owner is done: the owner can always take its
  next step, so the wrapper never blocks for good by itself.\<close>

lemma owner_can_step:
  assumes "reached send_step (wrap_server_stream k peer incoming) es s" and "ss_owner s = Some i"
  shows "\<exists>e \<in> {SeEnter i, SeLeave i None, SeReturn i}. send_step e s \<noteq> None"
proof -
  have "send_inv s" using assms(1) by (rule send_sys.inv_reached)
  with assms(2) have i: "i < length (ss_calls s)" "inside (sc_phase (ss_calls s ! i))" by (auto simp: send_inv_def)
  then show ?thesis
    by (cases "sc_phase (ss_calls s ! i)") (auto simp: in_phase_def)
qed

end
