(* ===== verification/Fleet.thy ===== *)
theory Fleet
  imports End_To_End Proxy_Tunnel
begin

text \<open>
  The whole system: one center, any number of agents and proxies, and the messages between them.
  Agents and proxies are processes with a number; a stream ends at the center or at a proxy
  (\<open>place\<close>) and its other end is a process (\<open>peer\<close>).  A process that reconnects has several
  streams over time, and proxies may stand behind proxies.

  A step is a step of one component, in the form its own theory gives it: \<open>center_step\<close>,
  \<open>proxy_step\<close>, \<open>agent_step\<close>.  What the center and the proxies send down goes onto the wire, from
  which each message arrives at most once, in any order or never; what the agents and proxies send
  up may arrive at any time.  \<open>fl_log\<close> records which agent has run what, with which result; no step
  reads it.
\<close>

section \<open>State\<close>

datatype place = AtCenter stream_id | AtProxy nat stream_id

datatype peer = PeerAgent nat | PeerProxy nat

datatype request = Request (req_id: string) (req_tool: string) (req_args: string)

record execution =
  ex_agent :: nat
  ex_request :: request
  ex_result :: "handled option"       \<comment> \<open>\<open>None\<close>: there is no such tool\<close>

record fleet =
  fl_center :: center
  fl_agents :: "agent list"
  fl_proxies :: "proxy list"
  fl_links :: "(place, peer) gomap"
  fl_wire :: "(place \<times> tunnel_msg) list"
  fl_log :: "execution list"

record fleet_env =
  fn_sha :: sha256
  fn_service :: tunnel_service
  fn_proxy :: "nat \<Rightarrow> proxy_service"
  fn_host :: "nat \<Rightarrow> agent_host"

definition new_fleet :: "int \<Rightarrow> store option \<Rightarrow> fleet" where
  "new_fleet t st = \<lparr>fl_center = new_center t st, fl_agents = [], fl_proxies = [], fl_links = [],
     fl_wire = [], fl_log = []\<rparr>"

section \<open>Steps\<close>

datatype fleet_event =
    FlCenter center_event
  | FlProxy nat proxy_event
  | FlStartAgent agent_config fsys
  | FlStartProxy
  | FlLink place peer
  | FlArrive nat proxy_net
  | FlRun nat nat go_ctx
  | FlAnswer place tunnel_msg proxy_net int "string option"

text \<open>What a list has grown by.\<close>

definition grown :: "'a list \<Rightarrow> 'a list \<Rightarrow> 'a list" where
  "grown xs ys = drop (length xs) ys"

lemma grown_append [simp]: "grown xs (xs @ ys) = ys"
  by (simp add: grown_def)

definition center_move :: "fleet_env \<Rightarrow> center_event \<Rightarrow> fleet \<Rightarrow> fleet option" where
  "center_move env e f =
     map_option (\<lambda>c. f\<lparr>fl_center := c, fl_wire := fl_wire f @ map (\<lambda>(s, m). (AtCenter s, m))
         (grown (rt_sent (ct_router (fl_center f))) (rt_sent (ct_router c)))\<rparr>)
       (center_step (fn_sha env) (fn_service env) e (fl_center f))"

definition proxy_move :: "nat \<Rightarrow> proxy \<Rightarrow> fleet \<Rightarrow> fleet" where
  "proxy_move j p f = f\<lparr>fl_proxies := (fl_proxies f)[j := p],
     fl_wire := fl_wire f @ map (\<lambda>(d, m). (AtProxy j d, m)) (grown (px_down (fl_proxies f ! j)) (px_down p))\<rparr>"

definition agent_move :: "nat \<Rightarrow> agent \<Rightarrow> fleet \<Rightarrow> fleet" where
  "agent_move i a f = f\<lparr>fl_agents := (fl_agents f)[i := a]\<rparr>"

definition peer_exists :: "fleet \<Rightarrow> peer \<Rightarrow> bool" where
  "peer_exists f p = (case p of PeerAgent i \<Rightarrow> i < length (fl_agents f) | PeerProxy j \<Rightarrow> j < length (fl_proxies f))"

definition outbox :: "fleet \<Rightarrow> peer \<Rightarrow> tunnel_msg list" where
  "outbox f p = (case p of PeerAgent i \<Rightarrow> ag_out (fl_agents f ! i) | PeerProxy j \<Rightarrow> px_up (fl_proxies f ! j))"

text \<open>Responses come from the processes of the fleet (\<open>FlAnswer\<close>), and what a proxy receives from
  above from the wire; heartbeats, registrations and everything else may come from anywhere.\<close>

fun own_center_event :: "center_event \<Rightarrow> bool" where
  "own_center_event (CeMessage s m now fault err) \<longleftrightarrow> response_id m = None"
| "own_center_event _ \<longleftrightarrow> True"

fun own_proxy_event :: "proxy_event \<Rightarrow> bool" where
  "own_proxy_event (PeMessage net s m now) \<longleftrightarrow> response_id m = None"
| "own_proxy_event (PeUpstream net m) \<longleftrightarrow> False"
| "own_proxy_event _ \<longleftrightarrow> True"

definition task_request :: "task \<Rightarrow> request" where
  "task_request t = Request (tk_id t) (tk_tool t) (tk_args t)"

definition execution_of :: "agent_host \<Rightarrow> nat \<Rightarrow> task \<Rightarrow> go_ctx \<Rightarrow> agent \<Rightarrow> execution" where
  "execution_of h i t ctx a = \<lparr>ex_agent = i, ex_request = task_request t,
     ex_result = map_option fst (agent_handler h ctx (tk_tool t) (tk_args t) a)\<rparr>"

fun fleet_step :: "fleet_env \<Rightarrow> fleet_event \<Rightarrow> fleet \<Rightarrow> fleet option" where
  "fleet_step env (FlCenter e) f = (if own_center_event e then center_move env e f else None)"
| "fleet_step env (FlProxy j e) f =
     (if own_proxy_event e \<and> j < length (fl_proxies f)
      then map_option (\<lambda>p. proxy_move j p f) (proxy_step (fn_sha env) (fn_proxy env j) e (fl_proxies f ! j))
      else None)"
| "fleet_step env (FlStartAgent cfg fs) f = Some (f\<lparr>fl_agents := fl_agents f @ [new_agent cfg fs]\<rparr>)"
| "fleet_step env FlStartProxy f = Some (f\<lparr>fl_proxies := fl_proxies f @ [new_proxy]\<rparr>)"
| "fleet_step env (FlLink pl p) f =
     (if map_of (fl_links f) pl = None \<and> peer_exists f p then Some (f\<lparr>fl_links := gupd pl p (fl_links f)\<rparr>) else None)"
| "fleet_step env (FlArrive k net) f =
     (if k < length (fl_wire f) then
        let (pl, m) = fl_wire f ! k; f1 = f\<lparr>fl_wire := drop_nth k (fl_wire f)\<rparr> in
        case map_of (fl_links f) pl of
          None \<Rightarrow> None
        | Some (PeerAgent i) \<Rightarrow>
            map_option (\<lambda>a. agent_move i a f1) (agent_step (fn_host env i) (AgMessage m) (fl_agents f ! i))
        | Some (PeerProxy j) \<Rightarrow>
            map_option (\<lambda>p. proxy_move j p f1)
              (proxy_step (fn_sha env) (fn_proxy env j) (PeUpstream net m) (fl_proxies f ! j))
      else None)"
| "fleet_step env (FlRun i n ctx) f =
     (if i < length (fl_agents f)
      then let a = fl_agents f ! i in
        map_option (\<lambda>a'. (agent_move i a' f)
            \<lparr>fl_log := fl_log f @ [execution_of (fn_host env i) i (ag_tasks a ! n) ctx a]\<rparr>)
          (agent_step (fn_host env i) (AgRun n ctx) a)
      else None)"
| "fleet_step env (FlAnswer pl m net now fault) f =
     (case map_of (fl_links f) pl of
        None \<Rightarrow> None
      | Some p \<Rightarrow>
          if m \<in> set (outbox f p) then
            (case pl of
               AtCenter s \<Rightarrow> center_move env (CeMessage s m now fault None) f
             | AtProxy j d \<Rightarrow>
                 (if j < length (fl_proxies f)
                  then map_option (\<lambda>p'. proxy_move j p' f)
                    (proxy_step (fn_sha env) (fn_proxy env j) (PeMessage net d m now) (fl_proxies f ! j))
                  else None))
          else None)"

abbreviation fleet_reach :: "fleet_env \<Rightarrow> int \<Rightarrow> store option \<Rightarrow> fleet_event list \<Rightarrow> fleet \<Rightarrow> bool" where
  "fleet_reach env t st \<equiv> reached (fleet_step env) (new_fleet t st)"

text \<open>A process behind a stream of the center, directly or through proxies.\<close>

inductive behind :: "(place, peer) gomap \<Rightarrow> stream_id \<Rightarrow> peer \<Rightarrow> bool" for links s where
  behind_center: "map_of links (AtCenter s) = Some p \<Longrightarrow> behind links s p"
| behind_proxy: "behind links s (PeerProxy j) \<Longrightarrow> map_of links (AtProxy j d) = Some p \<Longrightarrow> behind links s p"

inductive_cases behind_agentE: "behind links s (PeerAgent i)"

section \<open>Requests\<close>

definition msg_request :: "tunnel_msg \<Rightarrow> request option" where
  "msg_request m = map_option (\<lambda>q. Request (tq_request_id q) (tq_tool_name q) (tq_args_json q)) (get_tool_request m)"

definition requests :: "tunnel_msg list \<Rightarrow> request list" where
  "requests ms = List.map_filter msg_request ms"

definition call_request :: "call \<Rightarrow> request" where
  "call_request c = Request (cl_rid c) (cl_tool c) (cl_args c)"

lemma requests_simps [simp]:
  "requests [] = []" "requests (ms @ ms') = requests ms @ requests ms'"
  "requests (m # ms) = (case msg_request m of None \<Rightarrow> requests ms | Some q \<Rightarrow> q # requests ms)"
  by (simp_all add: requests_def List.map_filter_def split: option.split)

lemma in_requests: "q \<in> set (requests ms) \<longleftrightarrow> (\<exists>m \<in> set ms. msg_request m = Some q)"
  by (induction ms) (auto split: option.splits)

lemma msg_request_simps [simp]:
  "msg_request (tool_request_msg c) = Some (call_request c)" "msg_request (MCancelRequest rid) = None"
  "msg_request (MHeartbeatAck n) = None" "msg_request (MRegisterAck b t) = None"
  by (simp_all add: msg_request_def tool_request_msg_def call_request_def get_tool_request_def)

section \<open>What a step of the router does\<close>

text \<open>The calls with their streams, which never change, and the requests that are still to be sent.\<close>

definition placed_calls :: "router \<Rightarrow> (stream_id \<times> request) list" where
  "placed_calls r = map (\<lambda>c. (cl_stream c, call_request c)) (rt_calls r)"

definition unsent :: "call list \<Rightarrow> request multiset" where
  "unsent cs = image_mset call_request (filter_mset (\<lambda>c. cl_phase c = Stored) (mset cs))"

lemma unsent_Nil [simp]: "unsent [] = {#}"
  by (simp add: unsent_def)

lemma unsent_append [simp]: "unsent (cs @ ds) = unsent cs + unsent ds"
  by (simp add: unsent_def)

lemma unsent_Cons: "unsent (c # cs) = (if cl_phase c = Stored then {#call_request c#} else {#}) + unsent cs"
  by (simp add: unsent_def)

lemma unsent_update:
  assumes "i < length cs"
  shows "unsent (cs[i := c]) + unsent [cs ! i] = unsent cs + unsent [c]"
proof -
  have "mset (cs[i := c]) + {#cs ! i#} = mset cs + {#c#}"
    using assms by (simp add: mset_update)
  then have "image_mset call_request (filter_mset (\<lambda>c. cl_phase c = Stored) (mset (cs[i := c]) + {#cs ! i#})) =
    image_mset call_request (filter_mset (\<lambda>c. cl_phase c = Stored) (mset cs + {#c#}))" by simp
  then show ?thesis by (simp add: unsent_def split: if_splits)
qed

lemma placed_calls_update:
  "cl_stream c = cl_stream (rt_calls r ! i) \<Longrightarrow> call_request c = call_request (rt_calls r ! i) \<Longrightarrow>
     placed_calls (r\<lparr>rt_calls := (rt_calls r)[i := c]\<rparr>) = placed_calls r"
  by (cases "i < length (rt_calls r)")
    (simp_all add: placed_calls_def map_update list_update_same_conv list_update_beyond)

text \<open>The requests a step sends were to be sent before, and the calls it adds are to be sent.\<close>

definition router_grows :: "router \<Rightarrow> router \<Rightarrow> bool" where
  "router_grows r r' \<longleftrightarrow> (\<exists>cs ms.
     placed_calls r' = placed_calls r @ cs \<and> rt_sent r' = rt_sent r @ ms \<and>
     unsent (rt_calls r') + mset (requests (map snd ms)) \<subseteq># unsent (rt_calls r) + mset (map snd cs) \<and>
     (\<forall>(s, m) \<in> set ms. \<forall>q. msg_request m = Some q \<longrightarrow> (s, q) \<in> set (placed_calls r)))"

lemma router_grows_refl: "router_grows r r"
  by (auto simp: router_grows_def intro!: exI [where x = "[]"])

lemma router_grows_update:
  assumes r': "rt_calls r' = (rt_calls r)[i := c]" "rt_sent r' = rt_sent r @ ms"
    and c: "cl_stream c = cl_stream (rt_calls r ! i)" "call_request c = call_request (rt_calls r ! i)"
    and p: "cl_phase c = Stored \<Longrightarrow> cl_phase (rt_calls r ! i) = Stored"
    and ms: "requests (map snd ms) = []"
  shows "router_grows r r'"
proof -
  have "unsent [c] \<subseteq># unsent [rt_calls r ! i]" using c(2) p by (simp add: unsent_Cons unsent_def)
  then have "unsent (rt_calls r') \<subseteq># unsent (rt_calls r)" unfolding r'
    using unsent_update [of i "rt_calls r" c]
    by (cases "i < length (rt_calls r)")
      (metis mset_subset_eq_mono_add_right_cancel subset_mset.add_mono subset_mset.order_refl, simp add: list_update_beyond)
  moreover have "placed_calls r' = placed_calls r"
    using placed_calls_update [OF c] by (simp add: placed_calls_def r')
  moreover have "msg_request m = None" if "(s, m) \<in> set ms" for s m
    using in_requests [of _ "map snd ms"] ms that by (cases "msg_request m") force+
  ultimately show ?thesis using ms
    by (auto simp: router_grows_def r' intro!: exI [where x = "[]"] exI [where x = ms])
qed

lemma router_step_grows:
  assumes "router_step e r = Some r'"
  shows "router_grows r r'"
proof (cases e)
  case (EvStart rid rec tool args)
  with assms have "r' = send_store rid rec tool args r" by simp
  then show ?thesis unfolding router_grows_def
    by (intro exI [where x = "[(ar_route_stream rec, Request rid tool args)]"] exI [where x = "[] :: (stream_id \<times> tunnel_msg) list"])
      (simp add: send_store_def placed_calls_def unsent_Cons call_request_def)
next
  case (EvSent i err)
  with assms have i: "i < length (rt_calls r)" "cl_phase (rt_calls r ! i) = Stored" by (auto split: if_splits)
  show ?thesis
  proof (cases err)
    case None
    let ?c = "rt_calls r ! i"
    let ?c' = "?c\<lparr>cl_phase := Waiting\<rparr>"
    have r': "r' = emit (cl_stream ?c) (tool_request_msg ?c) (r\<lparr>rt_calls := (rt_calls r)[i := ?c']\<rparr>)"
      using assms EvSent None i by (simp add: Let_def set_phase_def)
    have "unsent ((rt_calls r)[i := ?c']) + {#call_request ?c#} = unsent (rt_calls r)"
      using unsent_update [OF i(1), of ?c'] i(2) by (simp add: unsent_Cons)
    moreover have "placed_calls (r\<lparr>rt_calls := (rt_calls r)[i := ?c']\<rparr>) = placed_calls r"
      by (rule placed_calls_update) (simp_all add: call_request_def)
    moreover have "(cl_stream ?c, call_request ?c) \<in> set (placed_calls r)"
      using i(1) by (force simp: placed_calls_def)
    ultimately show ?thesis unfolding r' emit_def router_grows_def
      by (intro exI [where x = "[] :: (stream_id \<times> request) list"] exI [where x = "[(cl_stream ?c, tool_request_msg ?c)]"])
        (auto simp: placed_calls_def)
  next
    case (Some m)
    with assms EvSent i show ?thesis
      by (auto simp: Let_def set_phase_def call_request_def intro!: router_grows_update [of _ r i])
  qed
next
  case (EvDeliver msg)
  have "router_grows r (deliver rid msg r)" for rid
    by (cases "map_of (rt_pending r) rid"; cases "cl_buf (rt_calls r ! the (map_of (rt_pending r) rid))")
      (auto simp: deliver_def router_grows_refl call_request_def
        intro!: router_grows_update [of _ r "the (map_of (rt_pending r) rid)"])
  with assms EvDeliver show ?thesis
    by (auto simp: deliver_from_message_def router_grows_refl split: option.split)
next
  case (EvReceive i)
  with assms show ?thesis
    by (auto simp: call_request_def intro!: router_grows_update [of _ r i] split: if_splits option.splits)
next
  case (EvCtxDone i d)
  with assms show ?thesis
    by (auto simp: Let_def set_phase_def emit_def call_request_def intro!: router_grows_update [of _ r i] split: if_splits)
next
  case (EvReturn i)
  with assms show ?thesis
    by (auto simp: set_phase_def call_request_def intro!: router_grows_update [of _ r i] split: if_splits phase.splits)
qed

section \<open>What a step of the center does to its router\<close>

lemma spawn_router [simp]: "ct_router (spawn ts c) = ct_router c"
  by (simp add: spawn_def)

lemma send_out_router [simp]: "ct_router (send_out s m c) = ct_router c"
  by (simp add: send_out_def)

lemma persist_upsert_router [simp]: "ct_router (snd (persist_upsert fault row c)) = ct_router c"
  by (rule persist_upsert_other(4) [OF prod.collapse [symmetric]])

lemma connect_open_router: "ct_router (snd (connect_open sha svc first now fault ack_err c)) = ct_router c"
proof (cases "\<exists>m req. first = Inr m \<and> get_register_request m = Some req")
  case True
  then obtain m req where m: "first = Inr m" "get_register_request m = Some req" by blast
  let ?auth = "is_ok (authenticate_registration sha (ts_catalog svc) (registration_domain (rq_node_type req)) (rq_token req))"
  obtain err c1 where p: "persist_upsert fault (agent_row_for (ts_instance svc) (agent_record_of req now (ct_next c)))
      (c\<lparr>ct_next := Suc (ct_next c)\<rparr>) = (err, c1)" by fastforce
  have c1: "ct_router c1 = ct_router c"
    using persist_upsert_router [of fault "agent_row_for (ts_instance svc) (agent_record_of req now (ct_next c))"
        "c\<lparr>ct_next := Suc (ct_next c)\<rparr>"] by (simp add: p)
  show ?thesis
  proof (cases ?auth)
    case True
    with m p c1 show ?thesis by (cases err; cases ack_err) (simp_all add: connect_open_def Let_def)
  next
    case False
    with m show ?thesis by (simp add: connect_open_def Let_def)
  qed
next
  case False
  then show ?thesis by (auto simp: connect_open_def split: sum.split option.split)
qed

lemma connect_message_router:
  "ct_router (connect_message svc ts req m now fault send_err c) =
     (if response_id m = None then ct_router c else deliver_from_message m (ct_router c))"
  by (cases m) (simp_all add: connect_message_def Let_def response_id_def split_beta split: option.split)

text \<open>A step of the center is no step of its router, or one; it delivers a message only as the response
  that has arrived.\<close>

lemma center_step_router:
  assumes "center_step sha svc e c = Some c'"
  obtains (same) "ct_router c' = ct_router c"
    | (step) re where "router_step re (ct_router c) = Some (ct_router c')"
        "\<And>m. re = EvDeliver m \<Longrightarrow> \<exists>s now fault err. e = CeMessage s m now fault err \<and> response_id m \<noteq> None"
proof (cases e)
  case (CeOpen first now fault ack_err)
  with assms connect_open_router same show ?thesis by auto
next
  case (CeMessage s m now fault err)
  with assms connect_message_router have "ct_router c' =
      (if response_id m = None then ct_router c else deliver_from_message m (ct_router c))" by auto
  with CeMessage same step [of "EvDeliver m"] show ?thesis by (auto split: if_splits)
next
  case (CeClose s)
  with assms same show ?thesis by (auto simp: connect_close_def split: if_splits prod.splits)
next
  case (CeTask k now fault)
  with assms same show ?thesis by (auto split: if_splits)
next
  case (CeCheck now fault)
  with assms same show ?thesis by (auto simp: center_check_offline_def split: prod.splits)
next
  case (CeCall host rid tool args)
  with assms obtain rec where "c' = c\<lparr>ct_router := send_store rid rec tool args (ct_router c)\<rparr>" by auto
  with step [of "EvStart rid rec tool args"] show ?thesis by simp
next
  case (CeRouter re)
  with assms step [of re] show ?thesis by (cases re) (auto simp: own_router_event_def split: if_splits)
qed

section \<open>What a step of a proxy does\<close>

text \<open>It sends tool requests down only when it has received them from above, each at most once, and
  responses up only when they came from below.\<close>

definition proxy_grows :: "proxy_event \<Rightarrow> proxy \<Rightarrow> proxy \<Rightarrow> bool" where
  "proxy_grows e p p' \<longleftrightarrow> (\<exists>ds us. px_down p' = px_down p @ ds \<and> px_up p' = px_up p @ us \<and>
     mset (requests (map snd ds)) \<subseteq># (case e of PeUpstream net m \<Rightarrow> mset (requests [m]) | _ \<Rightarrow> {#}) \<and>
     (\<forall>rid json. MToolResponse rid json \<in> set us \<longrightarrow> (\<exists>net s now. e = PeMessage net s (MToolResponse rid json) now)))"

lemma proxy_growsI:
  "px_down p' = px_down p @ ds \<Longrightarrow> px_up p' = px_up p @ us \<Longrightarrow>
   mset (requests (map snd ds)) \<subseteq># (case e of PeUpstream net m \<Rightarrow> mset (requests [m]) | _ \<Rightarrow> {#}) \<Longrightarrow>
   (\<And>rid json. MToolResponse rid json \<in> set us \<Longrightarrow> \<exists>net s now. e = PeMessage net s (MToolResponse rid json) now) \<Longrightarrow>
   proxy_grows e p p'"
  by (auto simp: proxy_grows_def)

lemma px_up_send: "px_up (snd (up_send net m p)) = px_up p @ (if is_ok (dialer_send (pn_up net) (pn_up_result net)) then [m] else [])"
  by (simp add: up_send_def Let_def)

lemma px_down_send: "px_down (snd (down_send net s m p)) = px_down p @ (if pn_down_err net s = None then [(s, m)] else [])"
  by (simp add: down_send_def split: option.split)

lemma px_down_up_send [simp]: "px_down (snd (up_send net m p)) = px_down p"
  by simp

lemma proxy_grows_refl: "px_down p' = px_down p \<Longrightarrow> px_up p' = px_up p \<Longrightarrow> proxy_grows e p p'"
  by (rule proxy_growsI [where ds = "[]" and us = "[]"]) simp_all

lemma reregister_loop_grows:
  "px_down (reregister_loop h net rs p) = px_down p \<and>
   (\<exists>us. px_up (reregister_loop h net rs p) = px_up p @ us \<and> (\<forall>rid json. MToolResponse rid json \<notin> set us))"
proof (induction h net rs p rule: reregister_loop.induct)
  case (1 host net p)
  then show ?case by simp
next
  case (2 host net rec recs p)
  let ?m = "MRegisterRequest (forward_request host rec)"
  obtain res p1 where u: "up_send net ?m p = (res, p1)" by fastforce
  then have p1: "px_down p1 = px_down p" "\<exists>us. px_up p1 = px_up p @ us \<and> (\<forall>rid json. MToolResponse rid json \<notin> set us)"
    using px_up_send [of net ?m p] px_down_up_send [of net ?m p] by (auto split: if_splits)
  show ?case
  proof (cases "ar_status rec \<noteq> StatusOnline \<or> \<not> is_ok res")
    case True
    with 2(1) p1 u show ?thesis by auto
  next
    case False
    with 2(2) [OF _ u [symmetric] refl] p1 u show ?thesis by (auto simp: split_beta)
  qed
qed

lemma downstream_open_grows:
  "proxy_grows (PeOpen net first now) p (snd (downstream_open sha svc net first now p))"
proof (cases "\<exists>m req. first = Inr m \<and> get_register_request m = Some req")
  case True
  then obtain m req where m: "first = Inr m" "get_register_request m = Some req" by blast
  let ?auth = "is_ok (authenticate_registration sha (ps_catalog svc) (registration_domain (rq_node_type req)) (rq_token req))"
  let ?ack = "MRegisterAck ?auth (if ?auth then [] else ''invalid token'')"
  let ?reg = "MRegisterRequest (req\<lparr>rq_proxy_path := ps_hostname svc # rq_proxy_path req, rq_token := []\<rparr>)"
  show ?thesis
  proof (rule proxy_growsI [where ds = "if pn_down_err net (px_next p) = None then [(px_next p, ?ack)] else []" and
        us = "if ?auth \<and> pn_down_err net (px_next p) = None \<and> is_ok (dialer_send (pn_up net) (pn_up_result net)) then [?reg] else []"])
    show "px_down (snd (downstream_open sha svc net first now p)) =
        px_down p @ (if pn_down_err net (px_next p) = None then [(px_next p, ?ack)] else [])"
      by (cases ?auth; cases "pn_down_err net (px_next p)") (simp_all add: m downstream_open_def Let_def down_send_def)
    show "px_up (snd (downstream_open sha svc net first now p)) = px_up p @
        (if ?auth \<and> pn_down_err net (px_next p) = None \<and> is_ok (dialer_send (pn_up net) (pn_up_result net)) then [?reg] else [])"
      by (cases ?auth; cases "pn_down_err net (px_next p)") (simp_all add: m downstream_open_def Let_def down_send_def px_up_send)
  qed (auto split: if_splits)
next
  case False
  then have "snd (downstream_open sha svc net first now p) = p"
    by (auto simp: downstream_open_def split: sum.split option.split)
  then show ?thesis by (simp add: proxy_grows_refl)
qed

lemma downstream_message_grows:
  "proxy_grows (PeMessage net ts m now) p (downstream_message svc net ts req m now p)"
proof (cases m)
  case (MHeartbeat ms)
  let ?p2 = "snd (down_send net ts (MHeartbeatAck ms) (p\<lparr>px_reg := proxy_update_heartbeat now (rq_hostname req) (px_reg p)\<rparr>))"
  have d: "px_down ?p2 = px_down p @ (if pn_down_err net ts = None then [(ts, MHeartbeatAck ms)] else [])"
    by (simp add: px_down_send)
  have u: "px_up ?p2 = px_up p" by simp
  show ?thesis
  proof (cases "proxy_lookup (px_reg ?p2) (rq_hostname req)")
    case None
    with d u MHeartbeat show ?thesis
      by (intro proxy_growsI [where us = "[]"]) (auto simp: downstream_message_def Let_def)
  next
    case (Some rec)
    with d u MHeartbeat show ?thesis
      by (intro proxy_growsI) (auto simp: downstream_message_def Let_def px_up_send)
  qed
next
  case (MToolResponse rid json)
  then show ?thesis
    by (intro proxy_growsI [where ds = "[]"]) (auto simp: downstream_message_def px_up_send split: if_splits)
next
  case (MErrorResponse e)
  then show ?thesis
    by (intro proxy_growsI [where ds = "[]"]) (auto simp: downstream_message_def px_up_send split: if_splits)
qed (simp_all add: downstream_message_def proxy_grows_refl)

lemma deliver_tool_request_grows:
  "proxy_grows (PeUpstream net (MToolRequest q)) p (deliver_tool_request net' (MToolRequest q) p)"
proof (cases "proxy_lookup (px_reg p) (tq_target_host q)")
  case None
  then show ?thesis
    by (intro proxy_growsI [where ds = "[]"])
      (auto simp: deliver_tool_request_def get_tool_request_def px_up_send host_not_found_def split: if_splits)
next
  case (Some rec)
  then show ?thesis
    by (intro proxy_growsI [where us = "[]" and
          ds = "if pn_down_err net' (ar_route_stream rec) = None then [(ar_route_stream rec, MToolRequest q)] else []"])
      (auto simp: deliver_tool_request_def get_tool_request_def down_send_def Let_def split: option.split)
qed

lemma deliver_cancel_request_grows:
  "proxy_grows (PeUpstream net m) p (deliver_cancel_request net' (MCancelRequest rid) p)"
proof -
  have "\<exists>ds. px_down (deliver_cancel_request net' (MCancelRequest rid) p) = px_down p @ ds \<and> requests (map snd ds) = []"
    by (auto simp: deliver_cancel_request_def get_cancel_request_def Let_def px_down_send split: option.split)
  moreover have "px_up (deliver_cancel_request net' (MCancelRequest rid) p) = px_up p"
    by (simp add: deliver_cancel_request_def Let_def split: option.split)
  ultimately show ?thesis by (auto intro: proxy_growsI [where us = "[]"])
qed

lemma proxy_step_grows:
  assumes "proxy_step sha svc e p = Some p'"
  shows "proxy_grows e p p'"
proof (cases e)
  case (PeOpen net first now)
  with assms downstream_open_grows show ?thesis by auto
next
  case (PeMessage net s m now)
  with assms downstream_message_grows show ?thesis by auto
next
  case (PeClose s)
  with assms show ?thesis by (auto simp: downstream_close_def intro: proxy_grows_refl split: if_splits)
next
  case (PeUpstream net m)
  with assms deliver_tool_request_grows deliver_cancel_request_grows show ?thesis
    by (cases m) (auto simp: proxy_on_message_def proxy_grows_refl)
next
  case (PeAck net ok t)
  obtain us where "px_up p' = px_up p @ us" "\<forall>rid json. MToolResponse rid json \<notin> set us" "px_down p' = px_down p"
    using assms PeAck reregister_loop_grows [of _ _ _ "p\<lparr>px_pending := []\<rparr>"]
    by (cases ok) (fastforce simp: proxy_on_register_ack_def reregister_all_def)+
  then show ?thesis by (auto intro: proxy_growsI [where ds = "[]"])
next
  case (PeCheck now)
  with assms show ?thesis by (auto intro: proxy_grows_refl)
qed

section \<open>What a step of an agent does\<close>

lemma dispatch_tasks:
  "map task_request (ag_tasks (agent_dispatch m a)) = map task_request (ag_tasks a) @ requests [m]"
  "map task_request (filter (\<lambda>t. \<not> tk_done t) (ag_tasks (agent_dispatch m a))) =
     map task_request (filter (\<lambda>t. \<not> tk_done t) (ag_tasks a)) @ requests [m]"
  "ag_out (agent_dispatch m a) = ag_out a" "ag_crashed (agent_dispatch m a) = ag_crashed a"
proof -
  have upd: "map task_request (xs[i := (xs ! i)\<lparr>tk_canceled := b\<rparr>]) = map task_request xs \<and>
      map task_request (filter (\<lambda>t. \<not> tk_done t) (xs[i := (xs ! i)\<lparr>tk_canceled := b\<rparr>])) =
      map task_request (filter (\<lambda>t. \<not> tk_done t) xs)" for xs i b
  proof (induction xs arbitrary: i)
    case (Cons x xs)
    then show ?case by (cases i) (auto simp: task_request_def)
  qed simp
  show "map task_request (ag_tasks (agent_dispatch m a)) = map task_request (ag_tasks a) @ requests [m]"
    "map task_request (filter (\<lambda>t. \<not> tk_done t) (ag_tasks (agent_dispatch m a))) =
       map task_request (filter (\<lambda>t. \<not> tk_done t) (ag_tasks a)) @ requests [m]"
    "ag_out (agent_dispatch m a) = ag_out a" "ag_crashed (agent_dispatch m a) = ag_crashed a"
    using upd by (cases m; auto simp: agent_dispatch_def get_cancel_request_def get_tool_request_def msg_request_def
        task_request_def split: option.split)+
qed

definition open_requests :: "agent \<Rightarrow> request multiset" where
  "open_requests a = (if ag_crashed a then {#} else mset (map task_request (filter (\<lambda>t. \<not> tk_done t) (ag_tasks a))))"

definition task_requests :: "agent \<Rightarrow> request multiset" where
  "task_requests a = mset (map task_request (ag_tasks a))"

lemma open_requests_done:
  assumes "i < length ts" and "\<not> tk_done (ts ! i)"
  shows "mset (map task_request (filter (\<lambda>t. \<not> tk_done t) (ts[i := (ts ! i)\<lparr>tk_done := True\<rparr>]))) + {#task_request (ts ! i)#}
    = mset (map task_request (filter (\<lambda>t. \<not> tk_done t) ts))"
  using assms
proof (induction ts arbitrary: i)
  case (Cons t ts)
  then show ?case by (cases i) auto
qed simp

text \<open>Running a task takes its request off the open ones; a result that is sent is the handler's.\<close>

lemma agent_run_effect:
  assumes "agent_step h (AgRun n ctx) a = Some a'"
  shows "open_requests a' + {#task_request (ag_tasks a ! n)#} \<subseteq># open_requests a"
    and "task_requests a' = task_requests a"
    and "MToolResponse rid json \<in> set (ag_out a') \<Longrightarrow> MToolResponse rid json \<in> set (ag_out a) \<or>
      rid = tk_id (ag_tasks a ! n) \<and> map_option fst (agent_handler h ctx (tk_tool (ag_tasks a ! n)) (tk_args (ag_tasks a ! n)) a) = Some (Answer json)"
proof -
  let ?t = "ag_tasks a ! n"
  from assms have n: "n < length (ag_tasks a)" "\<not> tk_done ?t" "\<not> ag_crashed a" and a': "a' = task_run h ctx n a"
    by (auto split: if_splits)
  have in_open: "{#task_request ?t#} \<subseteq># open_requests a"
    using n nth_mem [OF n(1)] by (auto simp: open_requests_def)
  have fin: "open_requests (task_finish n msg b) + {#task_request ?t#} = open_requests a \<and>
      task_requests (task_finish n msg b) = task_requests a \<and> ag_out (task_finish n msg b) = ag_out a @ [msg]"
    if "same_tasks a b" for msg b
  proof -
    have "(map task_request (ag_tasks a))[n := task_request ?t] = map task_request (ag_tasks a)"
      using n(1) by (simp add: list_update_same_conv)
    then have "map task_request ((ag_tasks a)[n := ?t\<lparr>tk_done := True\<rparr>]) = map task_request (ag_tasks a)"
      by (simp add: map_update task_request_def)
    with that n open_requests_done [OF n(1,2)] show ?thesis
      by (simp add: same_tasks_def task_finish_def open_requests_def task_requests_def)
  qed
  let ?h = "agent_handler h ctx (tk_tool ?t) (tk_args ?t) a"
  have "open_requests a' + {#task_request ?t#} \<subseteq># open_requests a \<and> task_requests a' = task_requests a \<and>
    (ag_out a' = ag_out a \<or> (\<exists>msg. ag_out a' = ag_out a @ [msg] \<and>
       (\<forall>rid json. msg = MToolResponse rid json \<longrightarrow> rid = tk_id ?t \<and> map_option fst ?h = Some (Answer json))))"
  proof (cases ?h)
    case None
    then have "a' = task_finish n (error_msg (tk_id ?t) ''TOOL_NOT_FOUND'' (''tool '' @ go_quote (tk_tool ?t) @ '' not found'')) a"
      by (simp add: a' task_run_def Let_def)
    with fin [OF same_tasks_refl] show ?thesis by (simp add: error_msg_def)
  next
    case (Some p)
    obtain x b where p: "p = (x, b)" by (cases p)
    with Some have same: "same_tasks a b" using handler_same_tasks by simp
    show ?thesis
    proof (cases x)
      case (Answer j)
      with Some p have "a' = task_finish n (MToolResponse (tk_id ?t) j) b" by (simp add: a' task_run_def Let_def)
      with fin [OF same] Some p Answer show ?thesis by simp
    next
      case (Failed e)
      with Some p have "a' = task_finish n (error_msg (tk_id ?t) ''TOOL_ERROR'' e) b" by (simp add: a' task_run_def Let_def)
      with fin [OF same] show ?thesis by (simp add: error_msg_def)
    next
      case Panicked
      with Some p have "a' = b\<lparr>ag_crashed := True\<rparr>" by (simp add: a' task_run_def Let_def)
      with same in_open show ?thesis by (simp add: open_requests_def [of "b\<lparr>ag_crashed := True\<rparr>"] task_requests_def same_tasks_def)
    qed
  qed
  then show "open_requests a' + {#task_request ?t#} \<subseteq># open_requests a" "task_requests a' = task_requests a"
    "MToolResponse rid json \<in> set (ag_out a') \<Longrightarrow> MToolResponse rid json \<in> set (ag_out a) \<or>
      rid = tk_id ?t \<and> map_option fst ?h = Some (Answer json)"
    by auto
qed

end
