(* ===== verification/Fleet_Calls.thy ===== *)
theory Fleet_Calls
  imports Fleet
begin

text \<open>
  What the system of \<open>Fleet\<close> guarantees for a tool call.  The invariant says that the request of a call
  is in one place (not yet sent, on the wire or a task of an agent), that it is where its call put it,
  that the log holds what the handlers answered and nothing more often than it was received, and
  that every result under way is in the log.
\<close>

section \<open>The invariant\<close>

text \<open>A request is in one place: not yet sent, on the wire, or a task of an agent.  \<open>X\<close> is what is in hand
  in the middle of a step.\<close>

definition all_tasks :: "fleet \<Rightarrow> request multiset" where
  "all_tasks f = sum_list (map task_requests (fl_agents f))"

abbreviation fl_router :: "fleet \<Rightarrow> router" where
  "fl_router f \<equiv> ct_router (fl_center f)"

definition conserved :: "fleet \<Rightarrow> request multiset \<Rightarrow> bool" where
  "conserved f X \<longleftrightarrow> unsent (rt_calls (fl_router f)) + mset (requests (map snd (fl_wire f))) + all_tasks f + X
     \<subseteq># mset (map call_request (rt_calls (fl_router f)))"

text \<open>It is where the call it belongs to put it.\<close>

definition placed :: "fleet \<Rightarrow> place \<Rightarrow> request \<Rightarrow> bool" where
  "placed f pl q = (case pl of
     AtCenter s \<Rightarrow> (s, q) \<in> set (placed_calls (fl_router f))
   | AtProxy j d \<Rightarrow> (\<exists>s. (s, q) \<in> set (placed_calls (fl_router f)) \<and> behind (fl_links f) s (PeerProxy j)))"

definition wire_placed :: "fleet \<Rightarrow> bool" where
  "wire_placed f \<longleftrightarrow> (\<forall>pl m q. (pl, m) \<in> set (fl_wire f) \<longrightarrow> msg_request m = Some q \<longrightarrow> placed f pl q)"

definition tasks_placed :: "fleet \<Rightarrow> bool" where
  "tasks_placed f \<longleftrightarrow> (\<forall>i < length (fl_agents f). \<forall>q \<in># task_requests (fl_agents f ! i).
     \<exists>s. (s, q) \<in> set (placed_calls (fl_router f)) \<and> behind (fl_links f) s (PeerAgent i))"

text \<open>The log: every entry is what the handler of that agent made of the request, and no request is run
  more often than it was received.\<close>

definition genuine :: "fleet_env \<Rightarrow> execution \<Rightarrow> bool" where
  "genuine env x \<longleftrightarrow> (\<exists>ctx a. ex_result x = map_option fst
     (agent_handler (fn_host env (ex_agent x)) ctx (req_tool (ex_request x)) (req_args (ex_request x)) a))"

definition runs :: "fleet \<Rightarrow> nat \<Rightarrow> request multiset" where
  "runs f i = mset (map ex_request (filter (\<lambda>x. ex_agent x = i) (fl_log f)))"

definition log_ok :: "fleet_env \<Rightarrow> fleet \<Rightarrow> bool" where
  "log_ok env f \<longleftrightarrow> (\<forall>x \<in> set (fl_log f). genuine env x \<and> ex_agent x < length (fl_agents f)) \<and>
     (\<forall>i < length (fl_agents f). runs f i + open_requests (fl_agents f ! i) \<subseteq># task_requests (fl_agents f ! i))"

text \<open>Every result that is under way, or that the router has seen, is in the log.\<close>

definition answered :: "execution list \<Rightarrow> string \<Rightarrow> string \<Rightarrow> bool" where
  "answered xs rid json \<longleftrightarrow> (\<exists>x \<in> set xs. req_id (ex_request x) = rid \<and> ex_result x = Some (Answer json))"

definition outboxes_ok :: "fleet \<Rightarrow> bool" where
  "outboxes_ok f \<longleftrightarrow> (\<forall>p rid json. peer_exists f p \<longrightarrow> MToolResponse rid json \<in> set (outbox f p) \<longrightarrow> answered (fl_log f) rid json)"

definition router_ok :: "int \<Rightarrow> fleet \<Rightarrow> bool" where
  "router_ok t f \<longleftrightarrow> (\<exists>es. reach t es (fl_router f) \<and>
     (\<forall>rid json. EvDeliver (MToolResponse rid json) \<in> set es \<longrightarrow> answered (fl_log f) rid json))"

definition links_ok :: "fleet \<Rightarrow> bool" where
  "links_ok f \<longleftrightarrow> (\<forall>pl p. map_of (fl_links f) pl = Some p \<longrightarrow> peer_exists f p)"

definition fleet_inv :: "fleet_env \<Rightarrow> int \<Rightarrow> request multiset \<Rightarrow> fleet \<Rightarrow> bool" where
  "fleet_inv env t X f \<longleftrightarrow> conserved f X \<and> wire_placed f \<and> tasks_placed f \<and> log_ok env f \<and> outboxes_ok f \<and>
     router_ok t f \<and> links_ok f"

lemma fleet_inv_new: "fleet_inv env t {#} (new_fleet t st)"
proof -
  have "reach t [] (router_new t)" by (rule reached_init)
  then show ?thesis
    by (auto simp: fleet_inv_def new_fleet_def new_center_def router_new_def conserved_def all_tasks_def wire_placed_def
        tasks_placed_def log_ok_def outboxes_ok_def router_ok_def links_ok_def peer_exists_def outbox_def
        split: peer.splits intro!: exI [where x = "[]"])
qed

section \<open>Helpers\<close>

lemma sum_map_update:
  fixes g :: "'a \<Rightarrow> 'b multiset"
  assumes "i < length xs"
  shows "sum_list (map g (xs[i := y])) + g (xs ! i) = sum_list (map g xs) + g y"
  using assms
proof (induction xs arbitrary: i)
  case (Cons x xs)
  show ?case
  proof (cases i)
    case (Suc k)
    with Cons.prems have "sum_list (map g (xs[k := y])) + g (xs ! k) = sum_list (map g xs) + g y"
      by (intro Cons.IH) simp
    with Suc show ?thesis by (simp add: ac_simps)
  qed (simp add: ac_simps)
qed simp

lemma msub_swap: "A \<subseteq># (B::'a multiset) \<Longrightarrow> B + C \<subseteq># D \<Longrightarrow> A + C \<subseteq># D"
  by (meson subset_mset.add_right_mono subset_mset.order_trans)

lemma mset_drop_nth:
  assumes "k < length xs"
  shows "add_mset (xs ! k) (mset (drop_nth k xs)) = mset xs"
  using arg_cong [OF id_take_nth_drop [OF assms], of mset] by (simp add: drop_nth_def)

lemma mset_requests: "mset (requests ms) = sum_mset (image_mset (\<lambda>m. mset (requests [m])) (mset ms))"
  by (induction ms) (simp_all split: option.split)

lemma requests_drop_nth:
  assumes "k < length w" and "w ! k = (pl, m)"
  shows "mset (requests (map snd (drop_nth k w))) + mset (requests [m]) = mset (requests (map snd w))"
proof -
  have "mset (map snd w) = image_mset snd (add_mset (w ! k) (mset (drop_nth k w)))"
    by (simp add: mset_drop_nth [OF assms(1)])
  then have "mset (map snd w) = add_mset m (mset (map snd (drop_nth k w)))"
    by (simp add: assms(2))
  then show ?thesis
    unfolding mset_requests [of "map snd (drop_nth k w)"] mset_requests [of "map snd w"]
    by (simp only: image_mset_add_mset sum_mset.add_mset add.commute)
qed

lemma behind_gupd:
  assumes "map_of L pl = None" and "behind L s p"
  shows "behind (gupd pl x L) s p"
  using assms(2)
proof (induction rule: behind.induct)
  case (behind_center p)
  with assms(1) have "map_of (gupd pl x L) (AtCenter s) = Some p" by auto
  then show ?case by (rule behind.behind_center)
next
  case (behind_proxy j d p)
  with assms(1) have "map_of (gupd pl x L) (AtProxy j d) = Some p" by auto
  with behind_proxy.IH show ?case by (rule behind.behind_proxy)
qed

lemma map_snd_placed: "map snd (placed_calls r) = map call_request (rt_calls r)"
  by (simp add: placed_calls_def)

lemma map_snd_tagged [simp]: "map snd (map (\<lambda>(s, m). (g s, m)) ms) = map snd ms"
  by (induction ms) auto

section \<open>The steps keep the invariant\<close>

lemma fleet_inv_center:
  assumes inv: "fleet_inv env t {#} f" and mv: "center_move env e f = Some f'"
    and resp: "\<And>s rid json now fault err. e = CeMessage s (MToolResponse rid json) now fault err \<Longrightarrow> answered (fl_log f) rid json"
  shows "fleet_inv env t {#} f'"
proof -
  let ?r = "fl_router f" and ?tag = "map (\<lambda>(s, m). (AtCenter s, m))"
  from mv obtain c where c: "center_step (fn_sha env) (fn_service env) e (fl_center f) = Some c"
    and f': "f' = f\<lparr>fl_center := c, fl_wire := fl_wire f @ ?tag (grown (rt_sent ?r) (rt_sent (ct_router c)))\<rparr>"
    by (auto simp: center_move_def)
  have "router_grows ?r (ct_router c)"
    using c by (rule center_step_router) (auto simp: router_grows_refl router_step_grows)
  then obtain cs ms where g: "placed_calls (ct_router c) = placed_calls ?r @ cs" "rt_sent (ct_router c) = rt_sent ?r @ ms"
    "unsent (rt_calls (ct_router c)) + mset (requests (map snd ms)) \<subseteq># unsent (rt_calls ?r) + mset (map snd cs)"
    "\<forall>(s, m) \<in> set ms. \<forall>q. msg_request m = Some q \<longrightarrow> (s, q) \<in> set (placed_calls ?r)"
    by (auto simp: router_grows_def)
  have wire: "fl_wire f' = fl_wire f @ ?tag ms" by (simp add: f' g(2))
  have calls: "mset (map call_request (rt_calls (ct_router c))) = mset (map call_request (rt_calls ?r)) + mset (map snd cs)"
    by (metis g(1) map_append map_snd_placed mset_append)
  have "conserved f {#}" using inv by (simp add: fleet_inv_def)
  then have "unsent (rt_calls ?r) + mset (map snd cs) + (mset (requests (map snd (fl_wire f))) + all_tasks f)
      \<subseteq># mset (map call_request (rt_calls ?r)) + mset (map snd cs)"
    by (simp add: conserved_def ac_simps)
  from msub_swap [OF g(3) this]
  have "conserved f' {#}"
    unfolding conserved_def wire requests_simps map_append map_snd_tagged
    by (simp add: f' all_tasks_def calls [simplified] ac_simps)
  moreover have mono: "placed f pl q \<Longrightarrow> placed f' pl q" for pl q
    by (auto simp: placed_def f' g(1) split: place.splits)
  have "wire_placed f'"
    unfolding wire_placed_def
  proof (intro allI impI)
    fix pl m q assume m: "(pl, m) \<in> set (fl_wire f')" "msg_request m = Some q"
    from m(1) consider "(pl, m) \<in> set (fl_wire f)" | s where "pl = AtCenter s" "(s, m) \<in> set ms"
      by (auto simp: wire)
    then show "placed f' pl q"
    proof cases
      case 1
      with inv m(2) show ?thesis by (intro mono) (auto simp: fleet_inv_def wire_placed_def)
    next
      case 2
      with g(4) m(2) have "(s, q) \<in> set (placed_calls ?r)" by auto
      with 2(1) show ?thesis by (intro mono) (simp add: placed_def)
    qed
  qed
  moreover have "tasks_placed f'"
    unfolding tasks_placed_def
  proof (intro allI impI ballI)
    fix i q assume "i < length (fl_agents f')" "q \<in># task_requests (fl_agents f' ! i)"
    with inv obtain s where "(s, q) \<in> set (placed_calls ?r)" "behind (fl_links f) s (PeerAgent i)"
      by (auto simp: fleet_inv_def tasks_placed_def f')
    then show "\<exists>s. (s, q) \<in> set (placed_calls (fl_router f')) \<and> behind (fl_links f') s (PeerAgent i)"
      by (intro exI [where x = s]) (simp add: f' g(1))
  qed
  moreover have "log_ok env f' \<and> outboxes_ok f' \<and> links_ok f'"
    using inv by (simp add: fleet_inv_def log_ok_def outboxes_ok_def links_ok_def runs_def peer_exists_def outbox_def f' cong: peer.case_cong)
  moreover have "router_ok t f'"
  proof -
    obtain es where es: "reach t es ?r" "\<And>rid json. EvDeliver (MToolResponse rid json) \<in> set es \<Longrightarrow> answered (fl_log f) rid json"
      using inv by (auto simp: fleet_inv_def router_ok_def)
    from c show ?thesis
    proof (cases rule: center_step_router)
      case same
      with es show ?thesis by (auto simp: router_ok_def f')
    next
      case (step re)
      from es(1) step(1) have "reach t (es @ [re]) (ct_router c)" by (rule reached_step)
      moreover have "answered (fl_log f) rid json" if "EvDeliver (MToolResponse rid json) \<in> set (es @ [re])" for rid json
        using that es(2) step(2) resp by auto
      ultimately show ?thesis by (auto simp: router_ok_def f')
    qed
  qed
  ultimately show ?thesis by (simp add: fleet_inv_def)
qed

text \<open>What a proxy has in hand while it handles an event.\<close>

fun in_hand :: "proxy_event \<Rightarrow> request multiset" where
  "in_hand (PeUpstream net m) = mset (requests [m])"
| "in_hand _ = {#}"

lemma in_hand_case: "(case e of PeUpstream net m \<Rightarrow> mset (requests [m]) | _ \<Rightarrow> {#}) = in_hand e"
  by (cases e) simp_all

lemma fleet_inv_proxy:
  assumes inv: "fleet_inv env t (in_hand e) f" and j: "j < length (fl_proxies f)"
    and st: "proxy_step sha svc e (fl_proxies f ! j) = Some p"
    and up: "\<And>net m q. e = PeUpstream net m \<Longrightarrow> msg_request m = Some q \<Longrightarrow>
        \<exists>s. (s, q) \<in> set (placed_calls (fl_router f)) \<and> behind (fl_links f) s (PeerProxy j)"
    and resp: "\<And>net s rid json now. e = PeMessage net s (MToolResponse rid json) now \<Longrightarrow> answered (fl_log f) rid json"
  shows "fleet_inv env t {#} (proxy_move j p f)"
proof -
  let ?p = "fl_proxies f ! j" and ?f = "proxy_move j p f"
  obtain ds us where g: "px_down p = px_down ?p @ ds" "px_up p = px_up ?p @ us" "mset (requests (map snd ds)) \<subseteq># in_hand e"
    "\<And>rid json. MToolResponse rid json \<in> set us \<Longrightarrow> \<exists>net s now. e = PeMessage net s (MToolResponse rid json) now"
    using proxy_step_grows [OF st] unfolding proxy_grows_def in_hand_case by blast
  have wire: "fl_wire ?f = fl_wire f @ map (\<lambda>(d, m). (AtProxy j d, m)) ds" by (simp add: proxy_move_def g(1))
  have rest [simp]: "fl_center ?f = fl_center f" "fl_agents ?f = fl_agents f" "fl_links ?f = fl_links f" "fl_log ?f = fl_log f"
    by (simp_all add: proxy_move_def)
  have "conserved f (in_hand e)" using inv by (simp add: fleet_inv_def)
  then have "in_hand e + (unsent (rt_calls (fl_router f)) + mset (requests (map snd (fl_wire f))) + all_tasks f)
      \<subseteq># mset (map call_request (rt_calls (fl_router f)))" by (simp add: conserved_def ac_simps)
  from msub_swap [OF g(3) this] have "conserved ?f {#}"
    unfolding conserved_def wire requests_simps map_append map_snd_tagged
    by (simp add: all_tasks_def ac_simps)
  moreover have "wire_placed ?f"
    unfolding wire_placed_def
  proof (intro allI impI)
    fix pl m q assume m: "(pl, m) \<in> set (fl_wire ?f)" "msg_request m = Some q"
    from m(1) consider "(pl, m) \<in> set (fl_wire f)" | d where "pl = AtProxy j d" "(d, m) \<in> set ds"
      by (auto simp: wire)
    then show "placed ?f pl q"
    proof cases
      case 1
      with inv m(2) have "placed f pl q" by (auto simp: fleet_inv_def wire_placed_def)
      then show ?thesis by (simp add: placed_def cong: place.case_cong)
    next
      case 2
      then have "q \<in># mset (requests (map snd ds))" using m(2) by (force simp: in_requests)
      with g(3) have "q \<in># in_hand e" by (rule mset_subset_eqD)
      then obtain net m' where e: "e = PeUpstream net m'" "msg_request m' = Some q"
        by (cases e) (auto split: option.splits)
      from up [OF this] 2(1) show ?thesis by (simp add: placed_def)
    qed
  qed
  moreover have "tasks_placed ?f \<and> log_ok env ?f \<and> router_ok t ?f"
    using inv by (simp add: fleet_inv_def tasks_placed_def log_ok_def router_ok_def runs_def)
  moreover have exists: "peer_exists ?f x = peer_exists f x" for x
    by (simp add: peer_exists_def proxy_move_def split: peer.split)
  then have "links_ok ?f" using inv by (simp add: fleet_inv_def links_ok_def)
  moreover have "outboxes_ok ?f"
    unfolding outboxes_ok_def
  proof (intro allI impI)
    fix x rid json assume x: "peer_exists ?f x" "MToolResponse rid json \<in> set (outbox ?f x)"
    then consider "MToolResponse rid json \<in> set (outbox f x)" | "MToolResponse rid json \<in> set us"
      using j by (cases x) (auto simp: outbox_def proxy_move_def g(2) nth_list_update split: if_splits)
    then show "answered (fl_log ?f) rid json"
    proof cases
      case 1
      with inv x(1) exists show ?thesis by (auto simp: fleet_inv_def outboxes_ok_def)
    next
      case 2
      from g(4) [OF this] resp show ?thesis by auto
    qed
  qed
  ultimately show ?thesis by (simp add: fleet_inv_def)
qed

text \<open>A message arrives at an agent.\<close>

lemma fleet_inv_dispatch:
  assumes inv: "fleet_inv env t (mset (requests [m])) f" and i: "i < length (fl_agents f)"
    and q: "\<And>q. msg_request m = Some q \<Longrightarrow>
      \<exists>s. (s, q) \<in> set (placed_calls (fl_router f)) \<and> behind (fl_links f) s (PeerAgent i)"
  shows "fleet_inv env t {#} (agent_move i (agent_dispatch m (fl_agents f ! i)) f)"
proof -
  let ?a = "fl_agents f ! i"
  let ?b = "agent_dispatch m ?a" and ?f = "agent_move i (agent_dispatch m (fl_agents f ! i)) f"
  have rest [simp]: "fl_center ?f = fl_center f" "fl_proxies ?f = fl_proxies f" "fl_links ?f = fl_links f"
      "fl_log ?f = fl_log f" "fl_wire ?f = fl_wire f" "length (fl_agents ?f) = length (fl_agents f)"
    by (simp_all add: agent_move_def)
  have agent: "fl_agents ?f ! k = (if k = i then ?b else fl_agents f ! k)" for k
    using i by (simp add: agent_move_def)
  have b: "task_requests ?b = task_requests ?a + mset (requests [m])"
    "open_requests ?b \<subseteq># open_requests ?a + mset (requests [m])"
    by (simp_all only: task_requests_def open_requests_def dispatch_tasks mset_append) simp
  have "all_tasks ?f + task_requests ?a = all_tasks f + task_requests ?b"
    using sum_map_update [OF i, of task_requests ?b] by (simp add: all_tasks_def agent_move_def)
  then have "all_tasks ?f = all_tasks f + mset (requests [m])" by (simp add: b(1))
  with inv have "conserved ?f {#}" by (simp add: fleet_inv_def conserved_def ac_simps)
  moreover have "wire_placed ?f \<and> router_ok t ?f"
    using inv by (simp add: fleet_inv_def wire_placed_def placed_def router_ok_def cong: place.case_cong)
  moreover have exists: "peer_exists ?f x = peer_exists f x" for x
    by (simp add: peer_exists_def split: peer.split)
  then have "links_ok ?f" using inv by (simp add: fleet_inv_def links_ok_def)
  moreover have "outbox ?f x = outbox f x" for x
    by (simp add: outbox_def agent dispatch_tasks split: peer.split)
  with inv exists have "outboxes_ok ?f" by (simp add: fleet_inv_def outboxes_ok_def)
  moreover have "tasks_placed ?f"
    unfolding tasks_placed_def
  proof (intro allI impI ballI)
    fix k x assume k: "k < length (fl_agents ?f)" "x \<in># task_requests (fl_agents ?f ! k)"
    then consider "x \<in># task_requests (fl_agents f ! k)" | "k = i" "msg_request m = Some x"
      by (auto simp: agent b(1) split: if_splits option.splits)
    then show "\<exists>s. (s, x) \<in> set (placed_calls (fl_router ?f)) \<and> behind (fl_links ?f) s (PeerAgent k)"
      using inv k(1) q by cases (auto simp: fleet_inv_def tasks_placed_def)
  qed
  moreover have "runs f k + open_requests (fl_agents ?f ! k) \<subseteq># task_requests (fl_agents ?f ! k)" if "k < length (fl_agents f)" for k
  proof -
    have old: "runs f k + open_requests (fl_agents f ! k) \<subseteq># task_requests (fl_agents f ! k)"
      using inv that by (simp add: fleet_inv_def log_ok_def)
    show ?thesis
    proof (cases "k = i")
      case True
      have "runs f i + open_requests ?b \<subseteq># runs f i + open_requests ?a + mset (requests [m])"
        using subset_mset.add_left_mono [OF b(2), of "runs f i"] by (simp only: add.assoc)
      also have "\<dots> \<subseteq># task_requests ?a + mset (requests [m])"
        using old by (simp only: True subset_mset.add_right_mono)
      finally show ?thesis by (simp only: True agent refl if_True b(1))
    next
      case False
      with old show ?thesis by (simp add: agent)
    qed
  qed
  then have "log_ok env ?f" using inv by (simp add: fleet_inv_def log_ok_def runs_def)
  ultimately show ?thesis by (simp add: fleet_inv_def)
qed

lemma answered_mono: "answered xs rid json \<Longrightarrow> answered (xs @ ys) rid json"
  by (auto simp: answered_def)

text \<open>An agent runs a task.\<close>

lemma fleet_inv_run:
  assumes inv: "fleet_inv env t {#} f" and i: "i < length (fl_agents f)"
    and st: "agent_step (fn_host env i) (AgRun n ctx) (fl_agents f ! i) = Some b"
    and x: "x = execution_of (fn_host env i) i (ag_tasks (fl_agents f ! i) ! n) ctx (fl_agents f ! i)"
  shows "fleet_inv env t {#} ((agent_move i b f)\<lparr>fl_log := fl_log f @ [x]\<rparr>)"
proof -
  let ?a = "fl_agents f ! i" and ?f = "(agent_move i b f)\<lparr>fl_log := fl_log f @ [x]\<rparr>"
  let ?t = "ag_tasks ?a ! n"
  have rest [simp]: "fl_center ?f = fl_center f" "fl_proxies ?f = fl_proxies f" "fl_links ?f = fl_links f"
      "fl_log ?f = fl_log f @ [x]" "fl_wire ?f = fl_wire f" "fl_agents ?f = (fl_agents f)[i := b]"
    by (simp_all add: agent_move_def)
  have agent: "(fl_agents f)[i := b] ! k = (if k = i then b else fl_agents f ! k)" for k
    using i by (simp add: agent_move_def)
  note eff = agent_run_effect [OF st]
  have xs: "ex_agent x = i" "ex_request x = task_request ?t" "genuine env x"
    by (auto simp: x execution_of_def genuine_def task_request_def)
  have tasks: "task_requests ((fl_agents f)[i := b] ! k) = task_requests (fl_agents f ! k)" for k
    by (simp add: agent eff(2))
  have "all_tasks ?f + task_requests ?a = all_tasks f + task_requests b"
    using sum_map_update [OF i, of task_requests b] by (simp add: all_tasks_def agent_move_def)
  then have "all_tasks ?f = all_tasks f" by (simp add: eff(2))
  with inv have "conserved ?f {#}" by (simp add: fleet_inv_def conserved_def)
  moreover have "wire_placed ?f"
    using inv by (simp add: fleet_inv_def wire_placed_def placed_def cong: place.case_cong)
  moreover have "router_ok t ?f"
    using inv unfolding fleet_inv_def router_ok_def rest by (blast intro: answered_mono)
  moreover have exists: "peer_exists ?f y = peer_exists f y" for y
    by (simp add: peer_exists_def split: peer.split)
  then have "links_ok ?f" using inv by (simp add: fleet_inv_def links_ok_def)
  moreover have "outboxes_ok ?f"
    unfolding outboxes_ok_def
  proof (intro allI impI)
    fix y rid json assume y: "peer_exists ?f y" "MToolResponse rid json \<in> set (outbox ?f y)"
    then have "MToolResponse rid json \<in> set (outbox f y) \<or> y = PeerAgent i \<and> MToolResponse rid json \<in> set (ag_out b)"
      by (cases y) (auto simp: outbox_def agent split: if_splits)
    then consider "MToolResponse rid json \<in> set (outbox f y)" | "rid = tk_id ?t" "ex_result x = Some (Answer json)"
      using eff(3) [of rid json] by (auto simp: outbox_def x execution_of_def)
    then show "answered (fl_log ?f) rid json"
    proof cases
      case 1
      with inv y(1) exists show ?thesis by (auto simp: fleet_inv_def outboxes_ok_def intro: answered_mono)
    next
      case 2
      with xs(2) show ?thesis by (auto simp: answered_def task_request_def)
    qed
  qed
  moreover have "tasks_placed ?f" using inv by (simp add: fleet_inv_def tasks_placed_def tasks)
  moreover have "runs ?f k + open_requests (fl_agents ?f ! k) \<subseteq># task_requests (fl_agents ?f ! k)" if "k < length (fl_agents f)" for k
  proof -
    have old: "runs f k + open_requests (fl_agents f ! k) \<subseteq># task_requests (fl_agents f ! k)"
      using inv that by (simp add: fleet_inv_def log_ok_def)
    show ?thesis
    proof (cases "k = i")
      case True
      have "runs ?f i + open_requests b = runs f i + (open_requests b + {#task_request ?t#})"
        by (simp add: runs_def xs)
      also have "\<dots> \<subseteq># runs f i + open_requests ?a" by (rule subset_mset.add_left_mono [OF eff(1)])
      finally show ?thesis using old by (simp add: True tasks) (simp add: agent)
    next
      case False
      with old show ?thesis by (simp add: agent runs_def xs)
    qed
  qed
  then have "log_ok env ?f" using inv i xs by (auto simp: fleet_inv_def log_ok_def)
  ultimately show ?thesis by (simp add: fleet_inv_def)
qed

lemma new_agent_requests [simp]: "task_requests (new_agent cfg fs) = {#}" "open_requests (new_agent cfg fs) = {#}"
  by (simp_all add: task_requests_def open_requests_def new_agent_def)

lemma fleet_inv_start_agent:
  assumes "fleet_inv env t {#} f"
  shows "fleet_inv env t {#} (f\<lparr>fl_agents := fl_agents f @ [new_agent cfg fs]\<rparr>)" (is "fleet_inv env t {#} ?f")
proof -
  have new: "runs f (length (fl_agents f)) = {#}"
    using assms by (auto simp: fleet_inv_def log_ok_def runs_def filter_empty_conv)
  have "conserved ?f {#}" "wire_placed ?f" "router_ok t ?f"
    using assms by (simp_all add: fleet_inv_def conserved_def all_tasks_def wire_placed_def placed_def router_ok_def cong: place.case_cong)
  moreover have "tasks_placed ?f" using assms
    by (auto simp: fleet_inv_def tasks_placed_def less_Suc_eq nth_append)
  moreover have "log_ok env ?f" using assms new
    by (auto simp: fleet_inv_def log_ok_def runs_def less_Suc_eq nth_append)
  moreover have "outboxes_ok ?f" using assms
    by (fastforce simp: fleet_inv_def outboxes_ok_def outbox_def peer_exists_def new_agent_def less_Suc_eq nth_append
        split: peer.splits if_splits)
  moreover have "links_ok ?f" using assms
    by (fastforce simp: fleet_inv_def links_ok_def peer_exists_def split: peer.splits)
  ultimately show ?thesis by (simp add: fleet_inv_def)
qed

lemma fleet_inv_start_proxy:
  assumes "fleet_inv env t {#} f"
  shows "fleet_inv env t {#} (f\<lparr>fl_proxies := fl_proxies f @ [new_proxy]\<rparr>)" (is "fleet_inv env t {#} ?f")
proof -
  have "conserved ?f {#}" "wire_placed ?f" "router_ok t ?f" "tasks_placed ?f" "log_ok env ?f"
    using assms by (simp_all add: fleet_inv_def conserved_def all_tasks_def wire_placed_def placed_def router_ok_def
        tasks_placed_def log_ok_def runs_def cong: place.case_cong)
  moreover have "outboxes_ok ?f" using assms
    by (fastforce simp: fleet_inv_def outboxes_ok_def outbox_def peer_exists_def new_proxy_def less_Suc_eq nth_append
        split: peer.splits if_splits)
  moreover have "links_ok ?f" using assms
    by (fastforce simp: fleet_inv_def links_ok_def peer_exists_def split: peer.splits)
  ultimately show ?thesis by (simp add: fleet_inv_def)
qed

lemma fleet_inv_link:
  assumes "fleet_inv env t {#} f" and "map_of (fl_links f) pl = None" and "peer_exists f p"
  shows "fleet_inv env t {#} (f\<lparr>fl_links := gupd pl p (fl_links f)\<rparr>)" (is "fleet_inv env t {#} ?f")
proof -
  have "conserved ?f {#}" "router_ok t ?f" "log_ok env ?f" "outboxes_ok ?f"
    using assms by (simp_all add: fleet_inv_def conserved_def all_tasks_def router_ok_def log_ok_def runs_def outboxes_ok_def
        outbox_def peer_exists_def cong: peer.case_cong)
  moreover have placed: "placed f x q \<Longrightarrow> placed ?f x q" for x q
    using behind_gupd [OF assms(2)] by (auto simp: placed_def split: place.splits)
  then have "wire_placed ?f" using assms(1) by (simp add: fleet_inv_def wire_placed_def)
  moreover have "tasks_placed ?f"
    using assms(1) behind_gupd [OF assms(2)] unfolding fleet_inv_def tasks_placed_def
    by (simp add: Bex_def) blast
  moreover have "links_ok ?f" using assms
    by (auto simp: fleet_inv_def links_ok_def peer_exists_def cong: peer.case_cong)
  ultimately show ?thesis by (simp add: fleet_inv_def)
qed

text \<open>Taking a message off the wire.\<close>

lemma fleet_inv_take:
  assumes inv: "fleet_inv env t {#} f" and k: "k < length (fl_wire f)" "fl_wire f ! k = (pl, m)"
  shows "fleet_inv env t (mset (requests [m])) (f\<lparr>fl_wire := drop_nth k (fl_wire f)\<rparr>)" (is "fleet_inv env t ?X ?f")
proof -
  have "conserved f {#}" using inv by (simp add: fleet_inv_def)
  then have "conserved ?f ?X"
    unfolding conserved_def requests_drop_nth [OF k, symmetric]
    by (simp add: all_tasks_def ac_simps del: requests_simps)
  moreover have "set (drop_nth k (fl_wire f)) \<subseteq> set (fl_wire f)"
    by (auto simp: drop_nth_def dest: in_set_takeD in_set_dropD)
  then have "wire_placed ?f"
    using inv unfolding fleet_inv_def wire_placed_def by (auto simp: placed_def cong: place.case_cong)
  ultimately show ?thesis using inv
    by (simp add: fleet_inv_def tasks_placed_def log_ok_def runs_def outboxes_ok_def outbox_def router_ok_def links_ok_def
        peer_exists_def cong: peer.case_cong)
qed

lemma placed_behind:
  assumes "placed f pl q" and "map_of (fl_links f) pl = Some p"
  shows "\<exists>s. (s, q) \<in> set (placed_calls (fl_router f)) \<and> behind (fl_links f) s p"
  using assms by (auto simp: placed_def split: place.splits intro: behind.intros)

lemma fleet_inv_arrive:
  assumes inv: "fleet_inv env t {#} f" and st: "fleet_step env (FlArrive k net) f = Some f'"
  shows "fleet_inv env t {#} f'"
proof -
  obtain pl m where w: "fl_wire f ! k = (pl, m)" by fastforce
  let ?f = "f\<lparr>fl_wire := drop_nth k (fl_wire f)\<rparr>"
  from st w obtain p where k: "k < length (fl_wire f)" and p: "map_of (fl_links f) pl = Some p"
    by (auto simp: Let_def split: if_splits option.splits)
  have taken: "fleet_inv env t (mset (requests [m])) ?f" by (rule fleet_inv_take [OF inv k w])
  have "(pl, m) \<in> set (fl_wire f)" using k w nth_mem by fastforce
  then have here: "\<exists>s. (s, q) \<in> set (placed_calls (fl_router ?f)) \<and> behind (fl_links ?f) s p" if "msg_request m = Some q" for q
    using placed_behind [OF _ p] that inv by (simp add: fleet_inv_def wire_placed_def)
  have ex: "peer_exists ?f p" using inv p by (auto simp: fleet_inv_def links_ok_def peer_exists_def split: peer.splits)
  show ?thesis
  proof (cases p)
    case (PeerAgent i)
    with st w k p have "f' = agent_move i (agent_dispatch m (fl_agents ?f ! i)) ?f"
      by (auto simp: Let_def split: if_splits)
    with fleet_inv_dispatch [OF taken, of i] here ex show ?thesis by (simp add: PeerAgent peer_exists_def)
  next
    case (PeerProxy j)
    with st w k p obtain b where "proxy_step (fn_sha env) (fn_proxy env j) (PeUpstream net m) (fl_proxies ?f ! j) = Some b"
      and "f' = proxy_move j b ?f" by (auto simp: Let_def split: if_splits)
    with fleet_inv_proxy [of env t "PeUpstream net m" ?f j] taken here ex show ?thesis
      by (simp add: PeerProxy peer_exists_def)
  qed
qed

lemma fleet_inv_answer:
  assumes inv: "fleet_inv env t {#} f" and st: "fleet_step env (FlAnswer pl m net now fault) f = Some f'"
  shows "fleet_inv env t {#} f'"
proof -
  from st obtain p where p: "map_of (fl_links f) pl = Some p" and m: "m \<in> set (outbox f p)"
    by (auto split: option.splits if_splits)
  from inv p have "peer_exists f p" by (auto simp: fleet_inv_def links_ok_def)
  with inv m have res: "answered (fl_log f) rid json" if "m = MToolResponse rid json" for rid json
    using that by (auto simp: fleet_inv_def outboxes_ok_def)
  show ?thesis
  proof (cases pl)
    case (AtCenter s)
    with st p m have "center_move env (CeMessage s m now fault None) f = Some f'" by simp
    with fleet_inv_center [OF inv] res show ?thesis by blast
  next
    case (AtProxy j d)
    with st p m obtain b where "j < length (fl_proxies f)" "f' = proxy_move j b f"
      "proxy_step (fn_sha env) (fn_proxy env j) (PeMessage net d m now) (fl_proxies f ! j) = Some b"
      by (auto split: if_splits)
    with fleet_inv_proxy [of env t "PeMessage net d m now" f j] inv res show ?thesis by simp
  qed
qed

lemma own_proxy_event_hand: "own_proxy_event e \<Longrightarrow> in_hand e = {#}"
  by (cases e) simp_all

lemma fleet_inv_step:
  assumes inv: "fleet_inv env t {#} f" and st: "fleet_step env e f = Some f'"
  shows "fleet_inv env t {#} f'"
proof (cases e)
  case (FlCenter ce)
  with st have ce: "own_center_event ce" "center_move env ce f = Some f'" by (auto split: if_splits)
  from ce(1) have "ce \<noteq> CeMessage s (MToolResponse rid json) now fault err" for s rid json now fault err
    by (auto simp: response_id_def)
  with fleet_inv_center [OF inv ce(2)] show ?thesis by blast
next
  case (FlProxy j pe)
  with st obtain b where pe: "own_proxy_event pe" "j < length (fl_proxies f)" "f' = proxy_move j b f"
    "proxy_step (fn_sha env) (fn_proxy env j) pe (fl_proxies f ! j) = Some b" by (auto split: if_splits)
  have "pe \<noteq> PeUpstream net m" "pe \<noteq> PeMessage net s (MToolResponse rid json) now" for net m s rid json now
    using pe(1) by (auto simp: response_id_def)
  with fleet_inv_proxy [of env t pe f j] inv pe own_proxy_event_hand [OF pe(1)] show ?thesis by simp
next
  case (FlStartAgent cfg fs)
  with st fleet_inv_start_agent [OF inv] show ?thesis by auto
next
  case FlStartProxy
  with st fleet_inv_start_proxy [OF inv] show ?thesis by auto
next
  case (FlLink pl p)
  with st fleet_inv_link [OF inv] show ?thesis by (auto split: if_splits)
next
  case (FlArrive k net)
  with st fleet_inv_arrive [OF inv] show ?thesis by blast
next
  case (FlRun i n ctx)
  with st fleet_inv_run [OF inv] show ?thesis by (auto simp: Let_def split: if_splits)
next
  case (FlAnswer pl m net now fault)
  with st fleet_inv_answer [OF inv] show ?thesis by blast
qed

interpretation fleet_sys: step_system "fleet_step env" "new_fleet t st" "\<lambda>_. fleet_inv env t {#}" for env t st
  by unfold_locales (rule fleet_inv_new, rule fleet_inv_step)

section \<open>Properties\<close>

text \<open>A call and the executions of its request.\<close>

lemma executed_call:
  assumes inv: "fleet_inv env t {#} f" and d: "distinct (call_ids (fl_router f))" and c: "c \<in> set (rt_calls (fl_router f))"
    and x: "x \<in> set (fl_log f)" "req_id (ex_request x) = cl_rid c"
  shows "ex_request x = call_request c \<and> genuine env x \<and> behind (fl_links f) (cl_stream c) (PeerAgent (ex_agent x))"
proof -
  from inv x(1) have i: "ex_agent x < length (fl_agents f)" "genuine env x" by (auto simp: fleet_inv_def log_ok_def)
  have "ex_request x \<in># runs f (ex_agent x)" using x(1) by (auto simp: runs_def)
  moreover have "runs f (ex_agent x) \<subseteq># task_requests (fl_agents f ! ex_agent x)"
    using inv i(1) unfolding fleet_inv_def log_ok_def by (metis mset_subset_eq_add_left subset_mset.order_trans)
  ultimately have "ex_request x \<in># task_requests (fl_agents f ! ex_agent x)" by (rule mset_subset_eqD [rotated])
  with inv i(1) obtain s where s: "(s, ex_request x) \<in> set (placed_calls (fl_router f))"
    "behind (fl_links f) s (PeerAgent (ex_agent x))" by (auto simp: fleet_inv_def tasks_placed_def)
  then obtain c' where c': "c' \<in> set (rt_calls (fl_router f))" "s = cl_stream c'" "ex_request x = call_request c'"
    by (auto simp: placed_calls_def)
  with x(2) have "cl_rid c' = cl_rid c" by (simp add: call_request_def)
  with d c c'(1) have "c' = c" by (auto simp: call_ids_def distinct_map dest: inj_onD)
  with s c' i(2) show ?thesis by simp
qed

lemma sum_filter_agents:
  fixes g :: "'a \<Rightarrow> nat"
  assumes "\<forall>x \<in> set xs. g x < n"
  shows "(\<Sum>i<n. mset (map h (filter (\<lambda>x. g x = i) xs))) = mset (map h xs)"
  using assms
proof (induction xs)
  case (Cons x xs)
  have "(\<Sum>i<n. mset (map h (filter (\<lambda>y. g y = i) (x # xs)))) =
      (\<Sum>i<n. (if i = g x then {#h x#} else {#}) + mset (map h (filter (\<lambda>y. g y = i) xs)))"
    by (rule sum.cong) auto
  also have "\<dots> = {#h x#} + mset (map h xs)"
    using Cons by (simp add: sum.distrib)
  finally show ?case by simp
qed simp

lemma sum_subseteq: "(\<And>i. i < n \<Longrightarrow> A i \<subseteq># B i) \<Longrightarrow> (\<Sum>i<n. A i) \<subseteq># (\<Sum>i<(n::nat). B i)"
  by (induction n) (auto intro: subset_mset.add_mono)

lemma executions_conserved:
  assumes inv: "fleet_inv env t {#} f"
  shows "mset (map ex_request (fl_log f)) \<subseteq># mset (map call_request (rt_calls (fl_router f)))"
proof -
  let ?n = "length (fl_agents f)"
  have "mset (map ex_request (fl_log f)) = (\<Sum>i<?n. runs f i)"
    using inv by (simp add: runs_def fleet_inv_def log_ok_def sum_filter_agents del: mset_map)
  also have "\<dots> \<subseteq># (\<Sum>i<?n. task_requests (fl_agents f ! i))"
    using inv unfolding fleet_inv_def log_ok_def
    by (intro sum_subseteq) (metis mset_subset_eq_add_left subset_mset.order_trans)
  also have "\<dots> = all_tasks f"
    by (simp add: all_tasks_def sum_list_sum_nth atLeast0LessThan)
  also have "\<dots> \<subseteq># mset (map call_request (rt_calls (fl_router f)))"
    using inv unfolding fleet_inv_def conserved_def by (metis mset_subset_eq_add_right subset_mset.order_trans add.right_neutral)
  finally show ?thesis .
qed

lemma executed_once:
  assumes inv: "fleet_inv env t {#} f" and d: "distinct (call_ids (fl_router f))"
  shows "length (filter (\<lambda>x. req_id (ex_request x) = rid) (fl_log f)) \<le> 1"
proof -
  have "image_mset req_id (mset (map ex_request (fl_log f))) \<subseteq># image_mset req_id (mset (map call_request (rt_calls (fl_router f))))"
    by (rule image_mset_subseteq_mono [OF executions_conserved [OF inv]])
  also have "\<dots> = mset (call_ids (fl_router f))"
    by (simp add: call_ids_def call_request_def multiset.map_comp comp_def)
  finally have "count (image_mset req_id (mset (map ex_request (fl_log f)))) rid \<le> count (mset (call_ids (fl_router f))) rid"
    by (rule mset_subset_eq_count)
  also have "\<dots> \<le> 1" using d by (simp add: distinct_count_atmost_1)
  finally show ?thesis
    by (simp add: count_mset count_list_eq_length_filter filter_map comp_def multiset.map_comp eq_commute flip: mset_map)
qed

lemma returned_executed:
  assumes inv: "fleet_inv env t {#} f" and "c \<in> set (rt_calls (fl_router f))" and "cl_phase c = Returned (s, Inr json)"
  shows "\<exists>x \<in> set (fl_log f). req_id (ex_request x) = cl_rid c \<and> ex_result x = Some (Answer json)"
proof -
  obtain rs where rs: "reach t rs (fl_router f)"
    "\<And>rid json. EvDeliver (MToolResponse rid json) \<in> set rs \<Longrightarrow> answered (fl_log f) rid json"
    using inv by (auto simp: fleet_inv_def router_ok_def)
  have "delivered rs (cl_rid c) (MToolResponse (cl_rid c) json)"
    using reach_inv [OF rs(1)] assms(2,3) by (auto simp: router_inv_def call_ok_def phase_ok_def)
  with rs(2) have "answered (fl_log f) (cl_rid c) json" by (simp add: delivered_def)
  then show ?thesis by (auto simp: answered_def)
qed

text \<open>A call that has returned a result, and the one execution behind it.\<close>

lemma result_executed:
  assumes inv: "fleet_inv env t {#} f" and d: "distinct (call_ids (fl_router f))" and c: "c \<in> set (rt_calls (fl_router f))"
    and ret: "cl_phase c = Returned (s, Inr json)"
  shows "\<exists>x. filter (\<lambda>x. req_id (ex_request x) = cl_rid c) (fl_log f) = [x] \<and> ex_result x = Some (Answer json) \<and>
    ex_request x = call_request c \<and> genuine env x \<and> behind (fl_links f) (cl_stream c) (PeerAgent (ex_agent x))"
proof -
  let ?xs = "filter (\<lambda>x. req_id (ex_request x) = cl_rid c) (fl_log f)"
  from returned_executed [OF inv c ret] obtain x where
    x: "x \<in> set (fl_log f)" "req_id (ex_request x) = cl_rid c" "ex_result x = Some (Answer json)" by blast
  then have "x \<in> set ?xs" by simp
  with executed_once [OF inv d, of "cl_rid c"] have "?xs = [x]" by (cases ?xs) auto
  with x(3) executed_call [OF inv d c x(1,2)] show ?thesis by (intro exI [where x = x]) simp
qed

text \<open>C4: Across the whole system, whatever happens in whatever order: the tool a call asks for is run at
  most once, on an agent that is reached over the stream the call was sent on (directly or through
  proxies), with exactly the tool name and the arguments of the call; and if the call returns a result,
  it was run exactly once and the result is what the tool answered.  Messages may be lost or overtake
  each other and processes may crash; the only condition is that request ids are not reused.\<close>

theorem calls_run_at_most_once:
  assumes "fleet_reach env t st es f" and "distinct (call_ids (fl_router f))" and "c \<in> set (rt_calls (fl_router f))"
  shows "let xs = filter (\<lambda>x. req_id (ex_request x) = cl_rid c) (fl_log f) in
    length xs \<le> 1 \<and>
    (\<forall>x \<in> set xs. ex_request x = call_request c \<and> genuine env x \<and>
       behind (fl_links f) (cl_stream c) (PeerAgent (ex_agent x))) \<and>
    (\<forall>s json. cl_phase c = Returned (s, Inr json) \<longrightarrow> (\<exists>x. xs = [x] \<and> ex_result x = Some (Answer json)))"
proof -
  from assms(1) have inv: "fleet_inv env t {#} f" by (rule fleet_sys.inv_reached)
  show ?thesis
    using executed_once [OF inv assms(2), of "cl_rid c"] executed_call [OF inv assms(2,3)] result_executed [OF inv assms(2,3)]
    unfolding Let_def by fastforce
qed

text \<open>A call through a proxy, from the registrations to the result.\<close>

definition relay_catalog :: catalog where
  "relay_catalog = (case new_catalog toy_sha [] [] [''node''] [''relay''] of Inr c \<Rightarrow> c | Inl _ \<Rightarrow> toy_catalog)"

definition toy_fleet_env :: fleet_env where
  "toy_fleet_env = \<lparr>fn_sha = toy_sha, fn_service = toy_service\<lparr>ts_catalog := relay_catalog\<rparr>,
     fn_proxy = (\<lambda>_. toy_proxy), fn_host = (\<lambda>_. sample_host)\<rparr>"

definition n1_request :: register_request where
  "n1_request = toy_request ''n1'' NODE_TYPE_AGENT ''node''"

definition proxied_setup :: "fleet_event list" where
  "proxied_setup = [FlStartProxy, FlStartAgent running_config agent_fs,
     FlCenter (CeOpen (Inr (MRegisterRequest (toy_request ''relay'' NODE_TYPE_PROXY ''relay''))) 0 None None),
     FlLink (AtCenter 0) (PeerProxy 0),
     FlProxy 0 (PeOpen good_net (Inr (MRegisterRequest n1_request)) 0),
     FlLink (AtProxy 0 0) (PeerAgent 0),
     FlAnswer (AtCenter 0) (MRegisterRequest (n1_request\<lparr>rq_proxy_path := [''relay''], rq_token := []\<rparr>)) good_net 0 None]"

definition proxied_call :: "fleet_event list" where
  "proxied_call = [FlCenter (CeCall ''n1'' ''inv-1-1'' ''stat_file'' ''/srv''), FlCenter (CeRouter (EvSent 0 None)),
     FlArrive 1 good_net, FlArrive 1 good_net, FlRun 0 0 None,
     FlAnswer (AtProxy 0 0) (MToolResponse ''inv-1-1'' ''{}'') good_net 0 None,
     FlAnswer (AtCenter 0) (MToolResponse ''inv-1-1'' ''{}'') good_net 0 None,
     FlCenter (CeRouter (EvReceive 0)), FlCenter (CeRouter (EvReturn 0))]"

lemma proxied_run:
  "map_option (\<lambda>f. (map (\<lambda>c. (cl_rid c, cl_tool c, cl_args c, cl_stream c, cl_phase c)) (rt_calls (fl_router f)),
       map_option (\<lambda>rec. (ar_node_type rec, ar_status rec, ar_route_stream rec)) (registry_lookup (ct_reg (fl_center f)) ''n1'')))
     (run_steps (fleet_step toy_fleet_env) (proxied_setup @ proxied_call) (new_fleet 5 None)) =
     Some ([(''inv-1-1'', ''stat_file'', ''/srv'', 0, Returned (''success'', Inr ''{}''))], Some (''agent'', StatusOnline, 0))"
  by code_simp

text \<open>The state it ends in.\<close>

lemma proxied_state:
  obtains f c rec where "fleet_reach toy_fleet_env 5 None (proxied_setup @ proxied_call) f"
    and "rt_calls (fl_router f) = [c]" and "cl_rid c = ''inv-1-1''" and "cl_tool c = ''stat_file''" and "cl_args c = ''/srv''"
    and "cl_stream c = 0" and "cl_phase c = Returned (''success'', Inr ''{}'')"
    and "registry_lookup (ct_reg (fl_center f)) ''n1'' = Some rec" and "ar_node_type rec = ''agent''"
    and "ar_status rec = StatusOnline" and "ar_route_stream rec = 0"
  using proxied_run [unfolded map_option_eq_Some prod.inject map_eq_Cons_conv map_is_Nil_conv]
  by (elim exE conjE) (simp only: reached_run)

theorem calls_run_at_most_once_witness:
  "\<exists>f c x. fleet_reach toy_fleet_env 5 None (proxied_setup @ proxied_call) f \<and> rt_calls (fl_router f) = [c] \<and>
     cl_phase c = Returned (''success'', Inr ''{}'') \<and>
     filter (\<lambda>x. req_id (ex_request x) = ''inv-1-1'') (fl_log f) = [x] \<and> ex_request x = call_request c \<and>
     behind (fl_links f) (cl_stream c) (PeerAgent (ex_agent x))"
proof -
  obtain f c where r: "fleet_reach toy_fleet_env 5 None (proxied_setup @ proxied_call) f"
    and c: "rt_calls (fl_router f) = [c]" "cl_rid c = ''inv-1-1''" "cl_phase c = Returned (''success'', Inr ''{}'')"
    by (rule proxied_state)
  have d: "distinct (call_ids (fl_router f))" "c \<in> set (rt_calls (fl_router f))" by (simp_all add: call_ids_def c(1))
  note run = calls_run_at_most_once [OF r d, unfolded Let_def c(2)]
  from run c(3) obtain x where x: "filter (\<lambda>x. req_id (ex_request x) = ''inv-1-1'') (fl_log f) = [x]" by blast
  with run have e: "ex_request x = call_request c" "behind (fl_links f) (cl_stream c) (PeerAgent (ex_agent x))" by simp_all
  show ?thesis by (intro exI conjI) (rule r, rule c(1), rule c(3), rule x, rule e(1), rule e(2))
qed

end
