(* ===== verification/Whole_Path.thy ===== *)
theory Whole_Path
  imports Api_Nodes Fleet_Calls
begin

text \<open>
  From the HTTP endpoint to the machine: the handler of an action (\<open>Http_Api\<close>, \<open>Admin_Exec\<close>) whose
  calls of \<open>Router.Send\<close> are those of the system of \<open>Fleet\<close>, in which center, proxies and agents
  run.
\<close>

section \<open>Calls of the handler as calls of the system\<close>

text \<open>\<open>Send\<close> returned a result to the handler only if a call with its arguments, on the stream of its
  record, has returned that result in \<open>f\<close>.\<close>

definition call_matches :: "agent_record \<Rightarrow> string \<Rightarrow> string \<Rightarrow> string \<Rightarrow> call \<Rightarrow> bool" where
  "call_matches rec rid tool args c \<longleftrightarrow>
     cl_rid c = rid \<and> cl_tool c = tool \<and> cl_args c = args \<and> cl_stream c = ar_route_stream rec"

definition served_by :: "exec_env \<Rightarrow> fleet \<Rightarrow> bool" where
  "served_by env f \<longleftrightarrow> (\<forall>rec rid tool args json. en_send env rec rid tool args = Inr json \<longrightarrow>
     (\<exists>c \<in> set (rt_calls (fl_router f)). call_matches rec rid tool args c \<and> (\<exists>s. cl_phase c = Returned (s, Inr json))))"

text \<open>What the calls of \<open>f\<close> have returned.\<close>

definition fleet_send :: "fleet \<Rightarrow> agent_record \<Rightarrow> string \<Rightarrow> string \<Rightarrow> string \<Rightarrow> go_err + string" where
  "fleet_send f rec rid tool args =
     (case find (call_matches rec rid tool args) (rt_calls (fl_router f)) of
        None \<Rightarrow> Inl (GoErr STimeout [])
      | Some c \<Rightarrow> (case cl_phase c of Returned (s, res) \<Rightarrow> res | _ \<Rightarrow> Inl (GoErr STimeout [])))"

lemma fleet_send_served: "en_send env = fleet_send f \<Longrightarrow> served_by env f"
  by (auto simp: served_by_def fleet_send_def find_Some_iff split: option.splits phase.splits prod.splits)

section \<open>Property\<close>


definition fleet_http :: "fleet \<Rightarrow> http_env" where
  "fleet_http f = sample_http\<lparr>he_exec := toy_env\<lparr>en_reg := ct_reg (fl_center f), en_send := fleet_send f,
     en_marshal := (\<lambda>_. ''/srv'')\<rparr>\<rparr>"

lemma stat_spec:
  obtains spec where "builtin_spec_for ''fs:stat'' = Inr spec" and "bs_risk_level spec = risk_readonly"
    and "bs_marshal spec (\<lambda>_. ''/srv'') [] = (''stat_file'', ''/srv'')"
  by (simp add: builtin_spec_for_def Let_def normalize_fs_stat marshal_tool_args_def)

lemma stat_fresh: "fst (sv_fresh_id ''inv'' (snd (sv_now (snd (normalize_meta client_meta sample_service))))) = ''inv-1-1''"
proof -
  have "snd (normalize_meta client_meta sample_service) = sample_service"
    by (simp add: normalize_meta_def client_meta_def admin_meta_def)
  moreover have "sv_world sample_service = toy_world" by (simp add: sample_service_def new_service_def)
  moreover have "fst (new_request_id ''inv'' (snd (time_now toy_world))) = ''inv-1-1''" by code_simp
  ultimately show ?thesis by (simp add: sv_fresh_id_def sv_now_def case_prod_unfold Let_def)
qed


end
