(* ===== verification/Spec2Isabelle.thy ===== *)
theory Spec2Isabelle
  imports Request_Ids Configs Tls_Conf Fan_Out Tunnel_Service Proxy_Tunnel Dialer File_Ops
    Agent_Core Rpc_Spec Http_Api Api_Access Api_Nodes Cli Cli_Api Cli_Main Cli_Invoke Cli_Templates End_To_End Start_Up Metrics Server_Stream
    Fleet_Calls Whole_Path
begin

text \<open>
  sysplane is a control plane for machines.  An agent runs on every machine and dials out to a
  center, directly or through proxies; over the one stream it opens it registers, sends heartbeats
  and receives tool requests.  The center offers an HTTP API, used by the command line client and
  the web pages, that lists the nodes, runs builtin actions and administered command templates on
  them and keeps invocations, their results and an audit trail.  Several centers can share a
  database and forward requests to each other.  This development models the Go code under
  \<open>internal/\<close> (paths below are relative to it) and proves what each part promises and how the
  parts work together.

  Go in HOL.  A Go map is an association list with distinct keys whose order means nothing; a string
  is a list of bytes; an \<open>int\<close> or \<open>int64\<close> is an integer, wrapped by \<open>wrap64\<close> where the code can
  overflow, and the request counter is a 64-bit word; an error is a value (\<open>go_result\<close>,
  \<open>svc_result\<close>), a panic a constructor or a named result.  A decoded JSON value is a \<open>gany\<close>.  Shared
  state behind a mutex is a record, and each locked section one step.  Where goroutines interleave,
  the steps are events and the properties are about all event lists: \<open>router_step\<close>, \<open>center_step\<close>,
  \<open>proxy_step\<close>, \<open>admin_step\<close>, \<open>exec_step\<close>, \<open>agent_step\<close>, \<open>send_step\<close>,
  \<open>fleet_step\<close>.

  Foundations.  \<open>Prelude\<close> (maps, results, integers), \<open>Step_Systems\<close> (runs, reachable states, and the
  locales \<open>step_system\<close> and \<open>simulation\<close>, which the step functions of the model interpret with their
  invariants), \<open>Go_Strings\<close>, \<open>Go_Path\<close>, \<open>Go_Any\<close>, \<open>Go_Flags\<close>
  and \<open>Http_Lib\<close> (the parts of Go's library the program uses: \<open>strings\<close>, \<open>strconv\<close>, \<open>filepath.Clean\<close>,
  dynamic values, \<open>flag\<close>, path escaping and \<open>http.ServeMux\<close>), \<open>Go_Json\<close> (how \<open>encoding/json\<close> fills a
  struct from a value, and the fields of an encoded one), \<open>File_System\<close> (directories, links and
  how the kernel and \<open>filepath.EvalSymlinks\<close> resolve a path), \<open>Tunnel_Msg\<close> (the messages of
  \<open>api/proto/tunnel.proto\<close>), \<open>Request_Ids\<close> (the clock and \<open>NewRequestID\<close>).

  The center.  \<open>Token_Auth\<close> (\<open>pkg/tokenauth\<close>), \<open>Registry\<close> (\<open>sysplane-center/registry\<close> and
  \<open>sysplane-proxy/registry\<close>, two providers of the locale \<open>host_registry\<close>), \<open>Store\<close>
  (\<open>sysplane-center/store\<close>, each statement with its effect on the tables and a possible failure),
  \<open>Router\<close> (\<open>sysplane-center/router\<close>, a call cut at every point where others can interleave) with
  \<open>Rpc_Spec\<close>, the specification of independent calls it refines, and \<open>Metrics\<close>
  (\<open>sysplane-center/metrics\<close>, what the calls leave in the counters), \<open>Tunnel_Service\<close>
  (\<open>sysplane-center/tunnel_svc.go\<close>, opening, messages and closing of a stream, background writes and
  the offline checker), \<open>Ha_Bridge\<close> (\<open>sysplane-center/ha\<close> and the internal endpoint of
  \<open>sysplane-center/run.go\<close>).  \<open>sysplane-center/admin/service.go\<close> is \<open>Admin_Types\<close> (records,
  normalisation, clones, pages), \<open>Admin_Templates\<close> (schemas, creation, update, rendering),
  \<open>Admin_Exec\<close> (builtin actions, the choice between router and peers, error classes, the call log)
  \<open>Admin_Invocations\<close> (plans and the life of invocations) and \<open>Fan_Out\<close> (the goroutines of their targets).
  \<open>Http_Api\<close> is \<open>sysplane-center/httpapi/server.go\<close>, every handler and the mux; \<open>Http_Json\<close> the JSON of its
  requests and answers, which ties the decoders that \<open>Http_Api\<close> takes as parameters to one codec; \<open>Api_Access\<close> and \<open>Api_Nodes\<close> hold
  what it guarantees.  \<open>Web_Ui\<close> is \<open>sysplane-center/webui/handler.go\<close> and the outer mux.

  The way to a machine.  \<open>Dialer\<close> (\<open>pkg/stream/dialer.go\<close>, over scripted connection attempts),
  \<open>Server_Stream\<close> (\<open>pkg/stream/stream.go\<close>, the mutex around \<open>Send\<close> of a server's stream),
  \<open>Proxy_Tunnel\<close> (\<open>sysplane-proxy/tunnel/downstream.go\<close> and the callbacks of \<open>sysplane-proxy/run.go\<close>),
  \<open>Configs\<close> (the three \<open>config\<close> packages and \<open>pkg/logutil\<close>), \<open>Tls_Conf\<close> (\<open>pkg/tlsconf\<close> and the choice
  of credentials).  \<open>Start_Up\<close> is \<open>Run\<close> of the three daemons and their \<open>main\<close> programs: what they load,
  open, build and register, in which order, and what each failure returns and closes.

  The agent.  \<open>Agent_Core\<close> (\<open>sysplane-agent/agent.go\<close>: the table of tools, hot reload of the security
  settings, dispatch and cancellation), \<open>Path_Guard\<close> and \<open>File_Ops\<close> (\<open>sysplane-agent/fileops\<close>, all six
  tools), \<open>Cmd_Exec\<close> (\<open>cmdexec/process.go\<close>), \<open>Api_Proxy\<close> (\<open>apiproxy/proxy.go\<close>), \<open>Hardware\<close>
  (\<open>collector/hardware.go\<close>).

  The client.  \<open>Cli\<close> is \<open>sysplane-cli/cli.go\<close>, \<open>Cli_Json\<close> the structs it reads answers into, \<open>Cli_Main\<close> its
  process with output and exit status.  Three theories put it against the server of \<open>Http_Api\<close>: \<open>Cli_Api\<close>
  (node ids and names of actions), \<open>Cli_Invoke\<close> (an invocation, through the JSON of both sides) and
  \<open>Cli_Templates\<close> (names of templates).

  The whole system.  \<open>End_To_End\<close> follows one tool call from the router through the agent and back.
  \<open>Fleet\<close> composes the step functions of center, proxies and agents into one system: any number of
  agents and proxies, links from streams to the process at their other end, messages to machines that
  can be lost or overtake each other (the wire), and a log of every tool that was run.  A step of the
  fleet is a step of one component; only what a process has really sent can arrive.  \<open>Fleet_Calls\<close>
  proves what the system promises for a call, by an invariant that finds each request in one place, and
  \<open>Whole_Path\<close> joins it to the HTTP handler.

  What the lemmas show.
    Security: the path guard decides by the real place of a path; the whitelist of commands and the
  loopback rule of the API proxy hold for every argument; routes run only over open streams
  registered with a valid token, on center and proxy; tokens are kept to their domains, and at
  every route of the API only an admin token changes templates or reads the audit trail; the
  tokens are followed from the configuration file a center was started with to its routes.
    Correctness of calls: the router returns only responses with the call's own id, the first one
  wins, the table of pending calls does not leak, and it refines a specification without that table;
  in the whole system a tool is run at most once for a call, on a machine behind the stream the call was
  sent on, and what the client of the API sees as a result is the answer of that run; the metrics count
  the calls that returned;
  the agent answers each request once; a call end to end returns what the tool made of it; a
  forwarded call runs on the owner of the host; the answer of an action is determined for every
  state of the node.
    State machines: invocations, results and audit events are consistent in every reachable state,
  final ones never change; every target of an invocation is executed exactly once, each can end whatever
  the others do, and the order in which targets finish does not matter; the template
  store stays consistent; a stale close touches only what it should; a center that fails to start
  or ends leaves no connection open.
    The client: it sends nothing without a token, and its exit status says whether the last request was
  answered with success; an invocation reaches the handler as the flags say and its answer is printed
  as far as the client's structs keep it; looking a template up does not change which one is used.
    Tools and texts: the ring buffer gives the last lines, a search its windows, a written file is
  found where it was written, output is bounded and says so; parameters are accepted exactly when
  they conform to the schema; pages cover a listing; a node id survives the way from the client to
  the handler; settings survive a restart.
    Lemmas that show the code falling short of what it means to do are kept next to the properties,
  for instance \<open>guard_escapes\<close>, \<open>shared_id_cross_delivery\<close>, \<open>rejected_update_leaves_changes\<close>,
  \<open>reconnect_announces_nobody\<close>, \<open>output_lost_silently\<close>, \<open>params_file_unusable\<close>.

  Bounds.  The kernel follows at most 40 symbolic links and \<open>filepath.EvalSymlinks\<close> 255, as in Linux
  and Go, so the walks of \<open>File_System\<close> are total and the bounds are the systems' own;
  \<open>http.Client\<close> gives up after ten requests; a scanner refuses lines over its buffer (64 KiB, or
  1 MiB for searches); a request body is cut at 1 MiB.  The dialer loop is a function of the finite
  list of its rounds, each of which ends.  Clients that follow cursors (\<open>follow_pages\<close>,
  \<open>walk_nodes\<close>) take a number of requests, and the theorems say which number is enough.

  Parameters.  JSON and YAML codecs (between bytes and values; the structs are modelled), SHA-256, regular expressions, \<open>text/template\<close>, PostgreSQL, gRPC and
  HTTP transport, name resolution, gopsutil and the operating system's processes are arguments of the
  definitions that use them; a theorem that relies on one of them names what it relies on
  (\<open>yaml_ok\<close>), and its witness instantiates it.

  Not modelled.  Generated protocol code (\<open>api/tunnel\<close>); the buckets and the exposition of the
  Prometheus client (the gauge of online agents is a field of the registry); logging; signals,
  timers of shutdowns and the inside of the gRPC and HTTP servers, whose ends are inputs of
  \<open>Start_Up\<close>; TLS handshakes; file permissions, and changes of a file while a tool reads it; data
  races on fields the code shares without a lock.
\<close>

end
